theory Spec2Isabelle
  imports Main "HOL-Library.Sublist" "HOL-Library.Char_ord" "HOL-Library.List_Lexorder"
begin

section \<open>JavaScript values used by checkpoint.ts\<close>

text \<open>
  Timestamps are JavaScript numbers. \<open>Date.now()\<close> yields an integer number of
  milliseconds; \<open>new Date(s).getTime()\<close> yields such an integer or \<open>NaN\<close> when
  \<open>s\<close> is not a date. No other number reaches the checkpoint code, so a number is an
  integer or \<open>NaN\<close>.
\<close>

datatype jsnum = Num int | NaN

text \<open>\<open>a - b\<close> on numbers: \<open>NaN\<close> is absorbing.\<close>

fun js_sub :: "jsnum \<Rightarrow> jsnum \<Rightarrow> jsnum" where
  "js_sub (Num a) (Num b) = Num (a - b)"
| "js_sub _ _ = NaN"

text \<open>\<open>a >= b\<close> on numbers: false as soon as one side is \<open>NaN\<close>.\<close>

fun js_ge :: "jsnum \<Rightarrow> jsnum \<Rightarrow> bool" where
  "js_ge (Num a) (Num b) = (b \<le> a)"
| "js_ge _ _ = False"

text \<open>The integer of a number, and whether it is one.\<close>

fun the_num :: "jsnum \<Rightarrow> int" where
  "the_num (Num a) = a"
| "the_num NaN = 0"

fun is_num :: "jsnum \<Rightarrow> bool" where
  "is_num (Num a) = True"
| "is_num NaN = False"

text \<open>
  \<open>Array.prototype.sort(cmp)\<close> is stable, and reads a comparator result \<open>NaN\<close> as
  \<open>+0\<close>. It is modelled as a stable insertion sort: \<open>x\<close> moves behind \<open>y\<close> only
  when \<open>cmp(x, y) > 0\<close>. (With a comparator that is not a consistent order, which can
  only happen here when a timestamp is \<open>NaN\<close>, the order that an engine produces is
  its own; the model fixes one.)
\<close>

fun cmp_gt0 :: "jsnum \<Rightarrow> bool" where
  "cmp_gt0 (Num v) = (0 < v)"
| "cmp_gt0 NaN = False"

fun sort_insert :: "('a \<Rightarrow> 'a \<Rightarrow> jsnum) \<Rightarrow> 'a \<Rightarrow> 'a list \<Rightarrow> 'a list" where
  "sort_insert cmp x [] = [x]"
| "sort_insert cmp x (y # ys) =
     (if cmp_gt0 (cmp x y) then y # sort_insert cmp x ys else x # y # ys)"

fun js_sort :: "('a \<Rightarrow> 'a \<Rightarrow> jsnum) \<Rightarrow> 'a list \<Rightarrow> 'a list" where
  "js_sort cmp [] = []"
| "js_sort cmp (x # xs) = sort_insert cmp x (js_sort cmp xs)"

section \<open>Strings\<close>

text \<open>
  Strings are lists of 8-bit characters. \<open>String.prototype.trim\<close> removes white
  space and line terminators from both ends; among the 8-bit characters these are tab,
  line feed, vertical tab, form feed, carriage return, space and the no-break space.
\<close>

definition is_ws :: "char \<Rightarrow> bool" where
  "is_ws c = (of_char c \<in> {9, 10, 11, 12, 13, 32, 160 :: nat})"

definition trim :: "string \<Rightarrow> string" where
  "trim s = rev (dropWhile is_ws (rev (dropWhile is_ws s)))"

text \<open>
  The line terminators of a regular expression (which \<open>.\<close> does not match, and
  around which \<open>^\<close> and \<open>$\<close> match under the flag \<open>m\<close>): line feed and carriage
  return.
\<close>

definition is_line_terminator :: "char \<Rightarrow> bool" where
  "is_line_terminator c = (c = CHR 0x0A \<or> c = CHR 0x0D)"

definition is_newline :: "char \<Rightarrow> bool" where
  "is_newline c = (c = CHR 0x0A)"

text \<open>\<open>s.split(sep)\<close> for a separator of one character: never empty.\<close>

fun split_on :: "(char \<Rightarrow> bool) \<Rightarrow> string \<Rightarrow> string list" where
  "split_on P [] = [[]]"
| "split_on P (c # cs) =
     (if P c then [] # split_on P cs
      else (case split_on P cs of [] \<Rightarrow> [[c]] | l # ls \<Rightarrow> (c # l) # ls))"

text \<open>\<open>lines.join("\n")\<close>\<close>

fun join_lines :: "string list \<Rightarrow> string" where
  "join_lines [] = []"
| "join_lines [l] = l"
| "join_lines (l # ls) = l @ CHR 0x0A # join_lines ls"

text \<open>
  \<open>text.match(/^key (.+)$/m)\<close>: the first line of \<open>text\<close> that is \<open>key\<close>, a space
  and at least one more character; the result is group 1, the rest of that line.
\<close>

definition match_key :: "string \<Rightarrow> string \<Rightarrow> string option" where
  "match_key key text_in =
     map_option (drop (Suc (length key)))
       (find (\<lambda>l. prefix (key @ '' '') l \<and> drop (Suc (length key)) l \<noteq> [])
          (split_on is_line_terminator text_in))"

definition is_digit :: "char \<Rightarrow> bool" where
  "is_digit c = (48 \<le> (of_char c :: nat) \<and> (of_char c :: nat) \<le> 57)"

text \<open>A string that \<open>-?\d+\<close> matches as a whole.\<close>

fun is_int_literal :: "string \<Rightarrow> bool" where
  "is_int_literal [] = False"
| "is_int_literal (c # cs) =
     (if c = CHR ''-'' then cs \<noteq> [] \<and> list_all is_digit cs else list_all is_digit (c # cs))"

text \<open>\<open>text.match(/^turn (-?\d+)$/m)\<close>, group 1.\<close>

definition match_turn :: "string \<Rightarrow> string option" where
  "match_turn text_in =
     map_option (drop 5)
       (find (\<lambda>l. prefix ''turn '' l \<and> is_int_literal (drop 5 l))
          (split_on is_line_terminator text_in))"

text \<open>
  \<open>parseInt(s, 10)\<close> on a string that \<open>-?\d+\<close> matches, and the decimal text of an
  integer as a template literal prints it. Both are exact on the safe integers, those of
  absolute value below \<open>2^53\<close>. Beyond them a JavaScript number is rounded, and from
  \<open>10^21\<close> on it is printed with an exponent (\<open>1e+21\<close>); \<open>show_int\<close> and
  \<open>parseInt\<close> do not follow that. The round trip of a record through its ref is
  stated below of a turn index that is a safe integer (\<open>safe_integer\<close>).
\<close>

definition digit_val :: "char \<Rightarrow> nat" where
  "digit_val c = of_char c - 48"

definition parse_nat :: "string \<Rightarrow> nat" where
  "parse_nat ds = foldl (\<lambda>acc c. 10 * acc + digit_val c) 0 ds"

fun parseInt :: "string \<Rightarrow> int" where
  "parseInt [] = 0"
| "parseInt (c # cs) = (if c = CHR ''-'' then - int (parse_nat cs) else int (parse_nat (c # cs)))"

definition digit_char :: "nat \<Rightarrow> char" where
  "digit_char n = char_of (48 + n)"

fun show_nat :: "nat \<Rightarrow> string" where
  "show_nat n = (if n < 10 then [digit_char n] else show_nat (n div 10) @ [digit_char (n mod 10)])"

declare show_nat.simps [simp del]

definition show_int :: "int \<Rightarrow> string" where
  "show_int i = (if i < 0 then CHR ''-'' # show_nat (nat (- i)) else show_nat (nat i))"

text \<open>\<open>Number.isSafeInteger\<close> on an integer.\<close>

definition safe_integer :: "int \<Rightarrow> bool" where
  "safe_integer n = (- 9007199254740991 \<le> n \<and> n \<le> 9007199254740991)"

section \<open>The checkpoint record\<close>

text \<open>
  \<open>interface CheckpointData\<close>. The field \<open>id\<close> is named \<open>ckpt_id\<close> here, since
  \<open>id\<close> is the identity function of HOL.
\<close>

record CheckpointData =
  ckpt_id :: string
  turnIndex :: int
  sessionId :: string
  headSha :: string
  indexTreeSha :: string
  worktreeTreeSha :: string
  timestamp :: jsnum

section \<open>The world outside the hook: git, the clock, the user interface\<close>

text \<open>
  Every git operation of checkpoint.ts is a child process (\<open>execAsync\<close>). The model
  keeps the part of a repository these commands read and write.

  Objects live in a list; the object at position \<open>i\<close> has the name \<open>sha_of i\<close>, forty
  hexadecimal digits (more, should the store ever outgrow them) that are never all
  zero. Storing an object that is already there returns its name (content addressing).
  A tree is the list of its files, path and content; blobs are not objects of their
  own. Paths are full paths of files, with \<open>/\<close> between the directories.
\<close>

definition hex_char :: "nat \<Rightarrow> char" where
  "hex_char n = (if n < 10 then char_of (48 + n) else char_of (87 + n))"

fun hex_digits :: "nat \<Rightarrow> string" where
  "hex_digits n = (if n < 16 then [hex_char n] else hex_digits (n div 16) @ [hex_char (n mod 16)])"

declare hex_digits.simps [simp del]

definition sha_of :: "nat \<Rightarrow> string" where
  "sha_of i = (let d = hex_digits (Suc i) in replicate (40 - length d) CHR ''0'' @ d)"

definition hex_val_char :: "char \<Rightarrow> nat" where
  "hex_val_char c = (if of_char c < (58::nat) then of_char c - 48 else of_char c - 87)"

definition hex_val :: "string \<Rightarrow> nat" where
  "hex_val s = foldl (\<lambda>acc c. 16 * acc + hex_val_char c) 0 s"

datatype git_object =
    Tree "(string \<times> string) list"
  | Commit (c_tree: nat) (c_author: string) (c_author_time: nat)
      (c_committer: string) (c_committer_time: nat) (c_message: string)

datatype error = ExecError string | Error string

record world =
  toplevel :: "string \<Rightarrow> string option"
  HEAD :: "nat option"
  index :: "(string \<times> string) list"
  worktree :: "(string \<times> string) list"
  ignored :: "string \<Rightarrow> bool"
  objects :: "git_object list"
  refs :: "(string \<times> nat) list"
  ref_locked :: "string \<Rightarrow> bool"
  tmp_index :: "(string \<times> string) list option"
  git_date :: "string \<Rightarrow> nat option"
  clock :: "nat \<Rightarrow> int"
  clock_reads :: nat
  random_lt_01 :: "nat \<Rightarrow> bool"
  random_reads :: nat
  toISOString :: "int \<Rightarrow> string"
  Date_getTime :: "string \<Rightarrow> jsnum"
  session_header_id :: "string \<Rightarrow> string option"
  notified :: "(string \<times> string) list"

text \<open>
  The fields: \<open>toplevel cwd\<close> is what \<open>git rev-parse --show-toplevel\<close> prints in
  \<open>cwd\<close> (\<open>None\<close> outside a work tree); \<open>HEAD\<close> is the commit \<open>HEAD\<close> resolves to
  (\<open>None\<close> when unborn); \<open>index\<close> and \<open>worktree\<close> are the staging area and the files
  on disk; \<open>ignored\<close> are the ignore-file rules; \<open>ref_locked\<close> tells the refs whose
  update or deletion fails (a lock file, a permission); \<open>tmp_index\<close> is the index file
  in the temporary directory of a capture; \<open>git_date\<close> is git's reading of a date
  string, in seconds. \<open>clock\<close> is the sequence of values \<open>Date.now()\<close> returns and
  \<open>random_lt_01\<close> tells of each \<open>Math.random()\<close> whether it is below 0.1.
  \<open>toISOString\<close> and \<open>Date_getTime\<close> are \<open>new Date(t).toISOString()\<close> and
  \<open>new Date(s).getTime()\<close> of the JavaScript engine. \<open>session_header_id file\<close> is
  the \<open>id\<close> of the JSON header in the first line of a session file (\<open>None\<close> when the
  file cannot be read or parsed, or has no id). \<open>notified\<close> collects the calls of
  \<open>ctx.ui.notify\<close>, the latest first. The \<open>console.error\<close> log is not modelled.
\<close>

text \<open>
  An operation runs on the world and returns a value or throws: the rejected promise of
  \<open>execAsync\<close>, or a \<open>throw\<close>.
\<close>

type_synonym ('s, 'a) io = "'s \<Rightarrow> (error + 'a) \<times> 's"

definition io_return :: "'a \<Rightarrow> ('s, 'a) io" where
  "io_return a = (\<lambda>w. (Inr a, w))"

definition io_throw :: "error \<Rightarrow> ('s, 'a) io" where
  "io_throw e = (\<lambda>w. (Inl e, w))"

definition io_bind :: "('s, 'a) io \<Rightarrow> ('a \<Rightarrow> ('s, 'b) io) \<Rightarrow> ('s, 'b) io" where
  "io_bind m f = (\<lambda>w. case m w of (Inl e, w') \<Rightarrow> (Inl e, w') | (Inr a, w') \<Rightarrow> f a w')"

text \<open>\<open>try { m } catch (e) { h(e) }\<close>\<close>

definition io_catch :: "('s, 'a) io \<Rightarrow> (error \<Rightarrow> ('s, 'a) io) \<Rightarrow> ('s, 'a) io" where
  "io_catch m h = (\<lambda>w. case m w of (Inl e, w') \<Rightarrow> h e w' | (Inr a, w') \<Rightarrow> (Inr a, w'))"

text \<open>\<open>try { m } finally { c }\<close>, for a cleanup \<open>c\<close> that does not throw.\<close>

definition io_finally :: "('s, 'a) io \<Rightarrow> ('s \<Rightarrow> 's) \<Rightarrow> ('s, 'a) io" where
  "io_finally m c = (\<lambda>w. case m w of (r, w') \<Rightarrow> (r, c w'))"

subsection \<open>The object store\<close>

fun index_of :: "'a \<Rightarrow> 'a list \<Rightarrow> nat option" where
  "index_of x [] = None"
| "index_of x (y # ys) = (if x = y then Some 0 else map_option Suc (index_of x ys))"

definition store_object :: "git_object \<Rightarrow> world \<Rightarrow> nat \<times> world" where
  "store_object obj w =
     (case index_of obj (objects w) of
        Some i \<Rightarrow> (i, w)
      | None \<Rightarrow> (length (objects w), w\<lparr>objects := objects w @ [obj]\<rparr>))"

text \<open>
  The object that a name given on a command line denotes. The model reads full object
  names only, forty hexadecimal digits in lower case: such a string names an object of
  the store or nothing, for git as for the model. Git reads more (\<open>HEAD\<close>, an
  abbreviated name, a revision expression), and the shell, which gets the command as
  one line, reads a string with blanks or metacharacters as more than one word. None of
  that is modelled: on every other string \<open>resolve\<close> gives \<open>None\<close> and the command
  fails, which says nothing of what git does with it. \<open>restoreCheckpoint\<close> is the one
  function that takes such names from its caller, in the record; what a restore leaves
  on disk is stated below of records whose names are full object names
  (\<open>object_name\<close>).
\<close>

definition resolve :: "world \<Rightarrow> string \<Rightarrow> nat option" where
  "resolve w s =
     (let v = hex_val s in
      if 0 < v \<and> v - 1 < length (objects w) \<and> sha_of (v - 1) = s then Some (v - 1) else None)"

definition tree_of :: "world \<Rightarrow> string \<Rightarrow> (string \<times> string) list option" where
  "tree_of w s =
     (case resolve w s of
        None \<Rightarrow> None
      | Some i \<Rightarrow> (case objects w ! i of Tree es \<Rightarrow> Some es | _ \<Rightarrow> None))"

definition commit_tree_of :: "world \<Rightarrow> string \<Rightarrow> (string \<times> string) list option" where
  "commit_tree_of w s =
     (case resolve w s of
        None \<Rightarrow> None
      | Some i \<Rightarrow>
          (case objects w ! i of
             Commit t _ _ _ _ _ \<Rightarrow>
               (if t < length (objects w)
                then (case objects w ! t of Tree es \<Rightarrow> Some es | _ \<Rightarrow> None)
                else None)
           | _ \<Rightarrow> None))"

subsection \<open>Files on disk\<close>

text \<open>
  Writing a set of entries to disk: each entry replaces the file at its path. A file
  that stands where an entry needs a directory, and every file below a directory that
  stands where an entry is a file, is removed first (what \<open>git checkout-index -f\<close> and
  \<open>git reset --hard\<close> do with what is in their way).
\<close>

definition below :: "string \<Rightarrow> string \<Rightarrow> bool" where
  "below d p = strict_prefix (d @ ''/'') p"

definition in_the_way :: "string \<Rightarrow> (string \<times> string) list \<Rightarrow> bool" where
  "in_the_way p es = list_ex (\<lambda>q. below p q \<or> below q p) (map fst es)"

definition write_entries :: "(string \<times> string) list \<Rightarrow> (string \<times> string) list \<Rightarrow> (string \<times> string) list" where
  "write_entries es wt =
     es @ filter (\<lambda>(p, c). p \<notin> set (map fst es) \<and> \<not> in_the_way p es) wt"

subsection \<open>The commands\<close>

definition nl :: string where
  "nl = [CHR 0x0A]"

definition exec_failed :: "string \<Rightarrow> world \<Rightarrow> (error + 'a) \<times> world" where
  "exec_failed command w = (Inl (ExecError command), w)"

text \<open>\<open>git rev-parse --is-inside-work-tree\<close> succeeds, in \<open>isGitRepo\<close>.\<close>

definition isGitRepo :: "string \<Rightarrow> (world, bool) io" where
  "isGitRepo cwd = (\<lambda>w. (Inr (toplevel w cwd \<noteq> None), w))"

definition getRepoRoot :: "string \<Rightarrow> (world, string) io" where
  "getRepoRoot cwd =
     (\<lambda>w. case toplevel w cwd of
        None \<Rightarrow> exec_failed ''git rev-parse --show-toplevel'' w
      | Some r \<Rightarrow> (Inr (trim (r @ nl)), w))"

definition git_rev_parse_HEAD :: "(world, string) io" where
  "git_rev_parse_HEAD =
     (\<lambda>w. case HEAD w of
        None \<Rightarrow> exec_failed ''git rev-parse HEAD'' w
      | Some h \<Rightarrow> (Inr (sha_of h @ nl), w))"

text \<open>\<open>git write-tree\<close> on the index of the repository.\<close>

definition git_write_tree :: "(world, string) io" where
  "git_write_tree =
     (\<lambda>w. case store_object (Tree (index w)) w of (i, w') \<Rightarrow> (Inr (sha_of i @ nl), w'))"

text \<open>
  \<open>mkdtemp\<close>: a new directory, so no index file is there yet; and
  \<open>rm(tmpDir, { recursive: true, force: true }).catch(() => {})\<close>.
\<close>

definition mkdtemp :: "(world, string) io" where
  "mkdtemp = (\<lambda>w. (Inr ''/tmp/pi-checkpoint-XXXXXX'', w\<lparr>tmp_index := None\<rparr>))"

definition rm_tmpDir :: "world \<Rightarrow> world" where
  "rm_tmpDir w = w\<lparr>tmp_index := None\<rparr>"

text \<open>
  \<open>git add -A .\<close> with \<open>GIT_INDEX_FILE\<close> at the temporary index. That index starts
  empty, so every file on disk is untracked for this command, and it adds each one that
  the ignore rules do not exclude (a file the index holds already stays, ignored or
  not). Nothing else is consulted: not a size, not a count, not a directory name.
\<close>

definition git_add_all_tmp :: "(world, unit) io" where
  "git_add_all_tmp =
     (\<lambda>w. (Inr (),
        w\<lparr>tmp_index :=
             Some (filter
                     (\<lambda>(p, c). \<not> ignored w p
                        \<or> p \<in> set (map fst (case tmp_index w of None \<Rightarrow> [] | Some es \<Rightarrow> es)))
                     (worktree w))\<rparr>))"

text \<open>\<open>git write-tree\<close> with \<open>GIT_INDEX_FILE\<close> at the temporary index.\<close>

definition git_write_tree_tmp :: "(world, string) io" where
  "git_write_tree_tmp =
     (\<lambda>w. case store_object (Tree (case tmp_index w of None \<Rightarrow> [] | Some es \<Rightarrow> es)) w of
        (i, w') \<Rightarrow> (Inr (sha_of i @ nl), w'))"

definition checkpoint_ident :: string where
  "checkpoint_ident = ''pi-checkpoint <checkpoint@pi>''"

text \<open>
  \<open>git commit-tree tree\<close>, the message on standard input, author and committer
  \<open>pi-checkpoint\<close>, both dates \<open>date\<close>.
\<close>

definition git_commit_tree :: "string \<Rightarrow> string \<Rightarrow> string \<Rightarrow> (world, string) io" where
  "git_commit_tree t message date =
     (\<lambda>w. case resolve w t of
        None \<Rightarrow> exec_failed ''git commit-tree'' w
      | Some ti \<Rightarrow>
          (case objects w ! ti of
             Tree _ \<Rightarrow>
               (case git_date w date of
                  None \<Rightarrow> exec_failed ''git commit-tree'' w
                | Some secs \<Rightarrow>
                    (case store_object (Commit ti checkpoint_ident secs checkpoint_ident secs message) w of
                       (i, w') \<Rightarrow> (Inr (sha_of i @ nl), w')))
           | _ \<Rightarrow> exec_failed ''git commit-tree'' w))"

text \<open>
  The ref names the model covers: those made of letters, digits and \<open>-\<close>, \<open>_\<close>,
  \<open>.\<close>, \<open>/\<close> only. The shell, which gets the command as one line, passes such a name
  on as one word. Git refuses some of them (two dots in a row, a component that begins
  with a dot or ends in \<open>.lock\<close>, a slash at the end); the model has no such rule and
  lets the command go on, so that it can succeed in the model where git stops it, never
  the other way round. A name with any other character is not modelled: the shell may
  read it as several words or several commands (\<open>x;true\<close>), and git accepts some as
  they are (\<open>a@b\<close>). The commands of the model fail on such a name, which says
  nothing of what the shell and git do with it. The round trip of a record through its
  ref and the retention of \<open>pruneCheckpoints\<close> are stated below of plain names.
\<close>

definition plain_char :: "char \<Rightarrow> bool" where
  "plain_char c =
     (let n = (of_char c :: nat) in
        (48 \<le> n \<and> n \<le> 57) \<or> (65 \<le> n \<and> n \<le> 90) \<or> (97 \<le> n \<and> n \<le> 122)
        \<or> n = 45 \<or> n = 46 \<or> n = 47 \<or> n = 95)"

definition plain_refname :: "string \<Rightarrow> bool" where
  "plain_refname s = (s \<noteq> [] \<and> list_all plain_char s)"

definition git_update_ref :: "string \<Rightarrow> string \<Rightarrow> (world, unit) io" where
  "git_update_ref ref newvalue =
     (\<lambda>w. if \<not> plain_refname ref \<or> ref_locked w ref then exec_failed ''git update-ref'' w
        else (case resolve w newvalue of
                None \<Rightarrow> exec_failed ''git update-ref'' w
              | Some i \<Rightarrow> (Inr (), w\<lparr>refs := (ref, i) # filter (\<lambda>(n, t). n \<noteq> ref) (refs w)\<rparr>)))"

definition git_update_ref_d :: "string \<Rightarrow> (world, unit) io" where
  "git_update_ref_d ref =
     (\<lambda>w. if \<not> plain_refname ref \<or> ref_locked w ref then exec_failed ''git update-ref -d'' w
        else (Inr (), w\<lparr>refs := filter (\<lambda>(n, t). n \<noteq> ref) (refs w)\<rparr>))"

definition git_rev_parse_verify :: "string \<Rightarrow> (world, string) io" where
  "git_rev_parse_verify ref =
     (\<lambda>w. if \<not> plain_refname ref then exec_failed ''git rev-parse --verify'' w
        else (case map_of (refs w) ref of
                None \<Rightarrow> exec_failed ''git rev-parse --verify'' w
              | Some i \<Rightarrow> (Inr (sha_of i @ nl), w)))"

text \<open>\<open>git cat-file commit\<close> prints the commit object: its header, a blank line, the message.\<close>

definition render_commit :: "git_object \<Rightarrow> string" where
  "render_commit obj =
     ''tree '' @ sha_of (c_tree obj) @ nl
     @ ''author '' @ c_author obj @ '' '' @ show_nat (c_author_time obj) @ '' +0000'' @ nl
     @ ''committer '' @ c_committer obj @ '' '' @ show_nat (c_committer_time obj) @ '' +0000'' @ nl
     @ nl @ c_message obj"

definition git_cat_file_commit :: "string \<Rightarrow> (world, string) io" where
  "git_cat_file_commit s =
     (\<lambda>w. case resolve w s of
        None \<Rightarrow> exec_failed ''git cat-file commit'' w
      | Some i \<Rightarrow>
          (case objects w ! i of
             Tree _ \<Rightarrow> exec_failed ''git cat-file commit'' w
           | Commit t a at c ct m \<Rightarrow> (Inr (render_commit (Commit t a at c ct m)), w)))"

text \<open>
  \<open>git for-each-ref --format='%(refname)' prefix\<close>: the refs below \<open>prefix\<close>, one a
  line, ordered by name; with \<open>--sort=committerdate\<close> ordered by the committer time of
  the commit each points to, and by name where the times are equal.
\<close>

definition ref_time :: "world \<Rightarrow> nat \<Rightarrow> nat" where
  "ref_time w i =
     (if i < length (objects w)
      then (case objects w ! i of Tree _ \<Rightarrow> 0 | Commit _ _ _ _ ct _ \<Rightarrow> ct)
      else 0)"

definition refs_below :: "string \<Rightarrow> world \<Rightarrow> (string \<times> nat) list" where
  "refs_below pfx w = sort_key fst (filter (\<lambda>(n, t). prefix pfx n) (refs w))"

definition git_for_each_ref :: "string \<Rightarrow> (world, string) io" where
  "git_for_each_ref pfx =
     (\<lambda>w. (Inr (concat (map (\<lambda>(n, t). n @ nl) (refs_below pfx w))), w))"

definition refs_by_age :: "string \<Rightarrow> world \<Rightarrow> (string \<times> nat) list" where
  "refs_by_age pfx w = sort_key (\<lambda>(n, t). ref_time w t) (refs_below pfx w)"

definition git_for_each_ref_by_committerdate :: "string \<Rightarrow> (world, string) io" where
  "git_for_each_ref_by_committerdate pfx =
     (\<lambda>w. (Inr (concat (map (\<lambda>(n, t). n @ nl) (refs_by_age pfx w))), w))"


text \<open>
  \<open>git reset --hard commit\<close>: \<open>HEAD\<close> and the index become the commit and its tree;
  on disk, every file of the old index is removed and the tree is written.
\<close>

definition git_reset_hard :: "string \<Rightarrow> (world, unit) io" where
  "git_reset_hard c =
     (\<lambda>w. case commit_tree_of w c of
        None \<Rightarrow> exec_failed ''git reset --hard'' w
      | Some es \<Rightarrow>
          (Inr (),
           w\<lparr>HEAD := resolve w c, index := es,
             worktree :=
               write_entries es
                 (filter (\<lambda>(p, c). p \<notin> set (map fst (index w))) (worktree w))\<rparr>))"

text \<open>
  \<open>git read-tree --reset tree\<close>: the index becomes the tree (or the tree of the commit,
  when the name is a commit's); no file is touched.
\<close>

definition treeish_of :: "world \<Rightarrow> string \<Rightarrow> (string \<times> string) list option" where
  "treeish_of w t = (case tree_of w t of None \<Rightarrow> commit_tree_of w t | Some es \<Rightarrow> Some es)"

definition git_read_tree_reset :: "string \<Rightarrow> (world, unit) io" where
  "git_read_tree_reset t =
     (\<lambda>w. case treeish_of w t of
        None \<Rightarrow> exec_failed ''git read-tree --reset'' w
      | Some es \<Rightarrow> (Inr (), w\<lparr>index := es\<rparr>))"

text \<open>\<open>git checkout-index -a -f\<close>: every entry of the index is written to disk.\<close>

definition git_checkout_index_all :: "(world, unit) io" where
  "git_checkout_index_all = (\<lambda>w. (Inr (), w\<lparr>worktree := write_entries (index w) (worktree w)\<rparr>))"

definition Date_now :: "(world, int) io" where
  "Date_now = (\<lambda>w. (Inr (clock w (clock_reads w)), w\<lparr>clock_reads := Suc (clock_reads w)\<rparr>))"

definition Math_random_lt_01 :: "(world, bool) io" where
  "Math_random_lt_01 =
     (\<lambda>w. (Inr (random_lt_01 w (random_reads w)), w\<lparr>random_reads := Suc (random_reads w)\<rparr>))"

section \<open>The checkpoint functions\<close>

definition ZEROS :: string where
  "ZEROS = replicate 40 CHR ''0''"

definition REF_BASE :: string where
  "REF_BASE = ''refs/pi-checkpoints''"

definition MAX_CHECKPOINTS :: nat where
  "MAX_CHECKPOINTS = 100"

text \<open>The commit message of a checkpoint, lines 137 to 145.\<close>

definition checkpoint_message :: "string \<Rightarrow> string \<Rightarrow> int \<Rightarrow> string \<Rightarrow> string \<Rightarrow> string \<Rightarrow> string \<Rightarrow> string" where
  "checkpoint_message ident sid turn head_sha index_sha worktree_sha iso_ts =
     join_lines
       [''checkpoint:'' @ ident,
        ''sessionId '' @ sid,
        ''turn '' @ show_int turn,
        ''head '' @ head_sha,
        ''index-tree '' @ index_sha,
        ''worktree-tree '' @ worktree_sha,
        ''created '' @ iso_ts]"

text \<open>
  \<open>createCheckpoint\<close>, in three parts: reading \<open>HEAD\<close> with its \<open>catch\<close> (lines 103
  to 109), the \<open>try\<close> block (lines 122 to 177), and the function itself, which runs
  the block under \<open>finally\<close>.
\<close>

definition read_head_sha :: "(world, string) io" where
  "read_head_sha =
     io_catch (io_bind git_rev_parse_HEAD (\<lambda>out. io_return (trim out)))
       (\<lambda>e. io_return ZEROS)"

definition checkpoint_try_block :: "string \<Rightarrow> int \<Rightarrow> string \<Rightarrow> string \<Rightarrow> string \<Rightarrow> string \<Rightarrow> int \<Rightarrow> (world, CheckpointData) io" where
  "checkpoint_try_block ident turn sid head_sha index_sha isoTimestamp ts =
     io_bind git_add_all_tmp (\<lambda>u.
     io_bind git_write_tree_tmp (\<lambda>wtStdout.
     io_bind (git_commit_tree (trim wtStdout)
                (checkpoint_message ident sid turn head_sha index_sha (trim wtStdout)
                   isoTimestamp)
                isoTimestamp) (\<lambda>commitStdout.
     io_bind (git_update_ref (REF_BASE @ ''/'' @ ident) (trim commitStdout)) (\<lambda>u.
     io_return
       \<lparr>ckpt_id = ident, turnIndex = turn, sessionId = sid, headSha = head_sha,
        indexTreeSha = index_sha, worktreeTreeSha = trim wtStdout,
        timestamp = Num ts\<rparr>))))"

definition createCheckpoint :: "string \<Rightarrow> string \<Rightarrow> int \<Rightarrow> string \<Rightarrow> (world, CheckpointData) io" where
  "createCheckpoint cwd ident turn sid =
     io_bind (getRepoRoot cwd) (\<lambda>root.
     io_bind Date_now (\<lambda>ts.
     io_bind (\<lambda>w. (Inr (toISOString w ts), w)) (\<lambda>isoTimestamp.
     io_bind read_head_sha (\<lambda>head_sha.
     io_bind git_write_tree (\<lambda>indexStdout.
     io_bind mkdtemp (\<lambda>tmpDir.
     io_finally
       (checkpoint_try_block ident turn sid head_sha (trim indexStdout) isoTimestamp ts)
       rm_tmpDir))))))"

definition restoreCheckpoint :: "string \<Rightarrow> CheckpointData \<Rightarrow> (world, unit) io" where
  "restoreCheckpoint cwd checkpoint =
     io_bind (getRepoRoot cwd) (\<lambda>root.
       if headSha checkpoint = ZEROS
       then io_throw (Error ''Cannot restore: checkpoint was saved with no commits'')
       else
         io_bind (git_reset_hard (headSha checkpoint)) (\<lambda>u.
         io_bind (git_read_tree_reset (worktreeTreeSha checkpoint)) (\<lambda>u.
         io_bind git_checkout_index_all (\<lambda>u.
         git_read_tree_reset (indexTreeSha checkpoint)))))"

definition loadCheckpointFromRef :: "string \<Rightarrow> string \<Rightarrow> (world, CheckpointData option) io" where
  "loadCheckpointFromRef cwd refName =
     io_catch
       (io_bind (getRepoRoot cwd) (\<lambda>root.
        io_bind (git_rev_parse_verify (REF_BASE @ ''/'' @ refName)) (\<lambda>commitSha.
        io_bind (git_cat_file_commit (trim commitSha)) (\<lambda>commitMsg.
        (\<lambda>w.
          (case (match_key ''sessionId'' commitMsg, match_turn commitMsg,
                 match_key ''head'' commitMsg, match_key ''index-tree'' commitMsg,
                 match_key ''worktree-tree'' commitMsg) of
             (Some sessionMatch, Some turnMatch, Some headMatch, Some indexMatch, Some worktreeMatch) \<Rightarrow>
               (Inr (Some
                  \<lparr>ckpt_id = refName, turnIndex = parseInt turnMatch,
                   sessionId = trim sessionMatch, headSha = trim headMatch,
                   indexTreeSha = trim indexMatch, worktreeTreeSha = trim worktreeMatch,
                   timestamp =
                     (case match_key ''created'' commitMsg of
                        None \<Rightarrow> Num 0
                      | Some createdMatch \<Rightarrow> Date_getTime w (trim createdMatch))\<rparr>), w)
           | _ \<Rightarrow> (Inr None, w)))))))
       (\<lambda>e. io_return None)"

definition strip_prefix :: "string \<Rightarrow> string \<Rightarrow> string" where
  "strip_prefix pfx r = (if prefix pfx r then drop (length pfx) r else r)"

definition listCheckpointRefs :: "string \<Rightarrow> (world, string list) io" where
  "listCheckpointRefs cwd =
     io_catch
       (io_bind (getRepoRoot cwd) (\<lambda>root.
        io_bind (git_for_each_ref (REF_BASE @ ''/'')) (\<lambda>out.
        io_return
          (map (strip_prefix (REF_BASE @ ''/''))
             (filter (\<lambda>l. l \<noteq> []) (split_on is_newline out))))))
       (\<lambda>e. io_return [])"

text \<open>The loop of \<open>pruneCheckpoints\<close>: each deletion has its own \<open>.catch(() => {})\<close>.\<close>

fun delete_each :: "string list \<Rightarrow> (world, unit) io" where
  "delete_each [] = io_return ()"
| "delete_each (r # rs) =
     io_bind (io_catch (git_update_ref_d r) (\<lambda>e. io_return ())) (\<lambda>u. delete_each rs)"

definition pruneCheckpoints :: "string \<Rightarrow> (world, unit) io" where
  "pruneCheckpoints cwd =
     io_catch
       (io_bind (getRepoRoot cwd) (\<lambda>root.
        io_bind (git_for_each_ref_by_committerdate (REF_BASE @ ''/'')) (\<lambda>out.
          let refs_listed = filter (\<lambda>l. l \<noteq> []) (split_on is_newline out) in
          if length refs_listed \<le> MAX_CHECKPOINTS then io_return ()
          else delete_each (take (length refs_listed - MAX_CHECKPOINTS) refs_listed))))
       (\<lambda>e. io_return ())"

section \<open>Checkpoint selection in the branch handler\<close>

text \<open>
  \<open>const allCheckpoints = [...completedCheckpoints].sort((a, b) => b.timestamp - a.timestamp)\<close>
\<close>

definition allCheckpoints :: "CheckpointData list \<Rightarrow> CheckpointData list" where
  "allCheckpoints completedCheckpoints =
     js_sort (\<lambda>a b. js_sub (timestamp b) (timestamp a)) completedCheckpoints"

text \<open>
  \<open>allCheckpoints.filter((cp) => cp.timestamp >= targetTimestamp)
       .sort((a, b) => a.timestamp - b.timestamp)\<close>
\<close>

definition checkpointsAtOrAfterTarget :: "CheckpointData list \<Rightarrow> jsnum \<Rightarrow> CheckpointData list" where
  "checkpointsAtOrAfterTarget allCps targetTimestamp =
     js_sort (\<lambda>a b. js_sub (timestamp a) (timestamp b))
       (filter (\<lambda>cp. js_ge (timestamp cp) targetTimestamp) allCps)"

text \<open>
  The selection of the branch handler (lines 454 to 494): \<open>Inl\<close> carries the text of
  the warning the handler notifies before it returns \<open>undefined\<close>, \<open>Inr\<close> the chosen
  \<open>checkpoint = checkpointsAtOrAfterTarget[0]\<close>.
\<close>

definition select_checkpoint :: "CheckpointData list \<Rightarrow> jsnum \<Rightarrow> string + CheckpointData" where
  "select_checkpoint completedCheckpoints targetTimestamp =
     (let allCps = allCheckpoints completedCheckpoints in
      if length allCps = 0 then Inl ''No checkpoints available''
      else
        (case checkpointsAtOrAfterTarget allCps targetTimestamp of
           [] \<Rightarrow> Inl ''No checkpoint found for this message''
         | checkpoint # _ \<Rightarrow> Inr checkpoint))"

section \<open>The hook\<close>

text \<open>
  The state of the closure of the default export. A promise of \<open>pendingCheckpoints\<close>
  is a capture in flight (with the arguments its \<open>createCheckpoint\<close> was called with),
  or settled. A capture runs as one step, at the moment its promise settles: the steps
  of two captures, or of a capture and a handler, are not interleaved in this model.
\<close>

datatype promise =
    Pending string string int string
  | Fulfilled "CheckpointData option"
  | Rejected error

record hook_state =
  completedCheckpoints :: "CheckpointData list"
  pendingCheckpoints :: "promise list"
  gitAvailable :: bool
  checkpointingFailed :: bool
  currentSessionId :: string
  currentSessionFile :: string

type_synonym config = "hook_state \<times> world"

definition in_world :: "(world, 'a) io \<Rightarrow> (config, 'a) io" where
  "in_world m = (\<lambda>(s, w). case m w of (r, w') \<Rightarrow> (r, (s, w')))"

definition update_hook :: "(hook_state \<Rightarrow> hook_state) \<Rightarrow> (config, unit) io" where
  "update_hook f = (\<lambda>(s, w). (Inr (), (f s, w)))"

definition read_hook :: "(hook_state \<Rightarrow> 'a) \<Rightarrow> (config, 'a) io" where
  "read_hook f = (\<lambda>(s, w). (Inr (f s), (s, w)))"

definition notify :: "string \<Rightarrow> string \<Rightarrow> (config, unit) io" where
  "notify msg level = (\<lambda>(s, w). (Inr (), (s, w\<lparr>notified := (msg, level) # notified w\<rparr>)))"

text \<open>\<open>getSessionIdFromFile\<close>: \<open>header.id || ""\<close>, and \<open>""\<close> on any error.\<close>

definition getSessionIdFromFile :: "world \<Rightarrow> string \<Rightarrow> string" where
  "getSessionIdFromFile w sessionFile =
     (case session_header_id w sessionFile of None \<Rightarrow> [] | Some i \<Rightarrow> i)"

text \<open>
  The body of the promise that \<open>turn_start\<close> starts (lines 396 to 421), from the call
  of \<open>createCheckpoint\<close> on.
\<close>

definition capture_task :: "string \<Rightarrow> string \<Rightarrow> int \<Rightarrow> string \<Rightarrow> (config, CheckpointData option) io" where
  "capture_task cwd ident turn sid =
     io_catch
       (io_bind (in_world (createCheckpoint cwd ident turn sid)) (\<lambda>data.
        io_bind (update_hook (\<lambda>s. s\<lparr>completedCheckpoints := completedCheckpoints s @ [data]\<rparr>)) (\<lambda>u.
        io_bind (in_world Math_random_lt_01) (\<lambda>r.
        io_bind (if r then in_world (io_catch (pruneCheckpoints cwd) (\<lambda>e. io_return ()))
                 else io_return ()) (\<lambda>u.
        io_return (Some data))))))
       (\<lambda>err. io_bind (update_hook (\<lambda>s. s\<lparr>checkpointingFailed := True\<rparr>)) (\<lambda>u. io_return None))"

text \<open>The promise at position \<open>k\<close> settles.\<close>

definition settle :: "nat \<Rightarrow> config \<Rightarrow> config" where
  "settle k = (\<lambda>(s, w).
     if k < length (pendingCheckpoints s) then
       (case pendingCheckpoints s ! k of
          Pending cwd ident turn sid \<Rightarrow>
            (case capture_task cwd ident turn sid (s, w) of
               (Inr v, (s', w')) \<Rightarrow>
                 (s'\<lparr>pendingCheckpoints := (pendingCheckpoints s')[k := Fulfilled v]\<rparr>, w')
             | (Inl e, (s', w')) \<Rightarrow>
                 (s'\<lparr>pendingCheckpoints := (pendingCheckpoints s')[k := Rejected e]\<rparr>, w'))
        | Fulfilled v \<Rightarrow> (s, w)
        | Rejected e \<Rightarrow> (s, w))
     else (s, w))"

fun rejection :: "promise list \<Rightarrow> error option" where
  "rejection [] = None"
| "rejection (Rejected e # ps) = Some e"
| "rejection (p # ps) = rejection ps"

text \<open>
  \<open>await Promise.all(pendingCheckpoints)\<close>: the handler goes on once every promise of
  the array has settled, and throws if one was rejected.
\<close>

definition await_all_pending :: "(config, unit) io" where
  "await_all_pending = (\<lambda>c.
     let c' = fold settle [0 ..< length (pendingCheckpoints (fst c))] c in
     (case rejection (pendingCheckpoints (fst c')) of
        Some e \<Rightarrow> (Inl e, c')
      | None \<Rightarrow> (Inr (), c')))"

text \<open>
  The handler of \<open>turn_start\<close>; \<open>ev_turnIndex\<close> and \<open>ev_timestamp\<close> are
  \<open>event.turnIndex\<close> and \<open>event.timestamp\<close>, \<open>cwd\<close> is \<open>ctx.cwd\<close>.
\<close>

definition turn_start :: "int \<Rightarrow> int \<Rightarrow> string \<Rightarrow> (config, unit) io" where
  "turn_start ev_turnIndex ev_timestamp cwd = (\<lambda>(s, w).
     if \<not> gitAvailable s \<or> checkpointingFailed s then (Inr (), (s, w))
     else
       (let s1 = (if currentSessionId s = [] \<and> currentSessionFile s \<noteq> []
                  then s\<lparr>currentSessionId := getSessionIdFromFile w (currentSessionFile s)\<rparr>
                  else s)
        in if currentSessionId s1 = [] then (Inr (), (s1, w))
           else (Inr (),
                 (s1\<lparr>pendingCheckpoints :=
                       pendingCheckpoints s1 @
                       [Pending cwd
                          (currentSessionId s1 @ ''-turn-'' @ show_int ev_turnIndex @ ''-''
                             @ show_int ev_timestamp)
                          ev_turnIndex (currentSessionId s1)]\<rparr>, w))))"

fun load_each :: "string \<Rightarrow> string \<Rightarrow> string list \<Rightarrow> (config, unit) io" where
  "load_each cwd sid [] = io_return ()"
| "load_each cwd sid (refName # rest) =
     io_bind (in_world (loadCheckpointFromRef cwd refName)) (\<lambda>data.
     io_bind
       (case data of
          None \<Rightarrow> io_return ()
        | Some d \<Rightarrow>
            if sessionId d = sid
            then update_hook (\<lambda>s.
                   if list_ex (\<lambda>c. ckpt_id c = ckpt_id d) (completedCheckpoints s) then s
                   else s\<lparr>completedCheckpoints := completedCheckpoints s @ [d]\<rparr>)
            else io_return ()) (\<lambda>u.
     load_each cwd sid rest))"

definition loadCheckpointsForSession :: "string \<Rightarrow> string \<Rightarrow> bool \<Rightarrow> (config, unit) io" where
  "loadCheckpointsForSession cwd sid clearExisting =
     io_bind (if clearExisting then update_hook (\<lambda>s. s\<lparr>completedCheckpoints := []\<rparr>)
              else io_return ()) (\<lambda>u.
     io_bind (in_world (listCheckpointRefs cwd)) (\<lambda>refNames.
     load_each cwd sid refNames))"

text \<open>The handler of \<open>session_start\<close>; an absent \<open>ctx.sessionFile\<close> is the empty string.\<close>

definition session_start :: "string \<Rightarrow> string \<Rightarrow> (config, unit) io" where
  "session_start cwd sessionFile =
     io_bind (in_world (isGitRepo cwd)) (\<lambda>ok.
     io_bind (update_hook (\<lambda>s. s\<lparr>gitAvailable := ok\<rparr>)) (\<lambda>u.
       if \<not> ok then io_return ()
       else if sessionFile \<noteq> [] then
         io_bind (\<lambda>(s, w). (Inr (),
                    (s\<lparr>currentSessionFile := sessionFile,
                       currentSessionId := getSessionIdFromFile w sessionFile\<rparr>, w))) (\<lambda>u.
         io_bind (read_hook currentSessionId) (\<lambda>sid.
           if sid \<noteq> [] then loadCheckpointsForSession cwd sid True else io_return ()))
       else io_return ()))"

definition session_switch :: "string \<Rightarrow> string \<Rightarrow> (config, unit) io" where
  "session_switch reason newSessionFile = (\<lambda>(s, w).
     if \<not> gitAvailable s then (Inr (), (s, w))
     else if reason = ''branch''
       then (Inr (), (s\<lparr>currentSessionId := getSessionIdFromFile w newSessionFile\<rparr>, w))
       else (Inr (), (s, w)))"

subsection \<open>The handler of \<open>branch\<close>\<close>

record entry =
  e_type :: string
  e_id :: string
  e_timestamp :: string

datatype branch_result = Undefined | SkipConversationRestore

text \<open>\<open>error instanceof Error ? error.message : String(error)\<close>\<close>

fun error_message :: "error \<Rightarrow> string" where
  "error_message (ExecError command) = ''Command failed: '' @ command"
| "error_message (Error m) = m"

text \<open>
  \<open>targetTimestamp\<close>, lines 465 to 468: the timestamp of the entry at
  \<open>event.targetTurnIndex\<close>, or \<open>Date.now()\<close> when there is no such entry or it has
  no timestamp.
\<close>

definition target_timestamp :: "entry list \<Rightarrow> int \<Rightarrow> (world, jsnum) io" where
  "target_timestamp entries i =
     (if 0 \<le> i \<and> nat i < length entries \<and> e_timestamp (entries ! nat i) \<noteq> []
      then (\<lambda>w. (Inr (Date_getTime w (e_timestamp (entries ! nat i))), w))
      else io_bind Date_now (\<lambda>t. io_return (Num t)))"

definition restore_options :: "bool \<Rightarrow> string list" where
  "restore_options hasOlderCheckpoints =
     [''Restore all (files + conversation)'',
      ''Conversation only (keep current files)'',
      ''Code only (restore files, keep conversation)'']
     @ (if hasOlderCheckpoints then [''Restore oldest checkpoint (keep conversation)''] else [])
     @ [''Cancel'']"

text \<open>
  The \<open>try\<close> block of the choices "Code only" and "Restore all" (lines 541 to 551 and
  564 to 574): a checkpoint of the current state, registered, then the restore.
\<close>

definition save_then_restore :: "string \<Rightarrow> int \<Rightarrow> CheckpointData \<Rightarrow> (config, unit) io" where
  "save_then_restore cwd targetTurnIndex checkpoint =
     io_bind (read_hook currentSessionId) (\<lambda>sid.
     io_bind (in_world Date_now) (\<lambda>t.
     io_bind (in_world (createCheckpoint cwd (sid @ ''-before-restore-'' @ show_int t)
                          targetTurnIndex sid)) (\<lambda>beforeCheckpoint.
     io_bind (update_hook
                (\<lambda>s. s\<lparr>completedCheckpoints := completedCheckpoints s @ [beforeCheckpoint]\<rparr>)) (\<lambda>u.
     in_world (restoreCheckpoint cwd checkpoint)))))"

text \<open>Lines 519 to 585: what the handler does with the choice of the user.\<close>

definition branch_apply :: "string \<Rightarrow> int \<Rightarrow> CheckpointData list \<Rightarrow> CheckpointData \<Rightarrow> string option \<Rightarrow> (config, branch_result) io" where
  "branch_apply cwd targetTurnIndex allCps checkpoint choice =
     (case choice of
        None \<Rightarrow> io_return SkipConversationRestore
      | Some ch \<Rightarrow>
          if ch = [] \<or> ch = ''Cancel'' then io_return SkipConversationRestore
          else if prefix ''Restore oldest'' ch then
            io_bind
              (io_catch
                 (io_bind (in_world (restoreCheckpoint cwd (last allCps))) (\<lambda>u.
                  notify ''Restored to oldest checkpoint'' ''info''))
                 (\<lambda>err. notify (''Restore failed: '' @ error_message err) ''error'')) (\<lambda>u.
            io_return SkipConversationRestore)
          else if prefix ''Code only'' ch then
            io_bind
              (io_catch
                 (io_bind (save_then_restore cwd targetTurnIndex checkpoint) (\<lambda>u.
                  notify ''Files restored to checkpoint'' ''info''))
                 (\<lambda>err. notify (''Restore failed: '' @ error_message err) ''error'')) (\<lambda>u.
            io_return SkipConversationRestore)
          else if prefix ''Restore all'' ch then
            io_bind
              (io_catch
                 (io_bind (save_then_restore cwd targetTurnIndex checkpoint) (\<lambda>u.
                  notify ''Files and conversation restored'' ''info''))
                 (\<lambda>err. notify (''File restore failed: '' @ error_message err) ''error'')) (\<lambda>u.
            io_return Undefined)
          else io_return Undefined)"

text \<open>
  Lines 454 to 516: the selection, on the records the handler knows at that moment, and
  the question to the user. \<open>ui_select\<close> is the answer of \<open>ctx.ui.select\<close> to a list
  of options.
\<close>

definition branch_decide :: "entry list \<Rightarrow> int \<Rightarrow> string \<Rightarrow> (string list \<Rightarrow> string option) \<Rightarrow> (config, branch_result) io" where
  "branch_decide entries targetTurnIndex cwd ui_select =
     io_bind (read_hook completedCheckpoints) (\<lambda>completed.
       if length (allCheckpoints completed) = 0
       then io_bind (notify ''No checkpoints available'' ''warning'') (\<lambda>u. io_return Undefined)
       else
         io_bind (in_world (target_timestamp entries targetTurnIndex)) (\<lambda>targetTimestamp.
           (case select_checkpoint completed targetTimestamp of
              Inl warning \<Rightarrow> io_bind (notify warning ''warning'') (\<lambda>u. io_return Undefined)
            | Inr checkpoint \<Rightarrow>
                branch_apply cwd targetTurnIndex (allCheckpoints completed) checkpoint
                  (ui_select (restore_options (1 < length (allCheckpoints completed)))))))"

text \<open>Lines 430 to 450: what the handler does before it selects.\<close>

definition branch_prepare :: "entry list \<Rightarrow> string \<Rightarrow> (config, unit) io" where
  "branch_prepare entries cwd =
     io_bind await_all_pending (\<lambda>u.
     io_bind (read_hook currentSessionId) (\<lambda>cur.
       (case find (\<lambda>e. e_type e = ''session'') entries of
          None \<Rightarrow> io_return ()
        | Some header \<Rightarrow>
            if e_id header \<noteq> [] \<and> e_id header \<noteq> cur
            then loadCheckpointsForSession cwd (e_id header) False
            else io_return ())))"

definition branch :: "entry list \<Rightarrow> int \<Rightarrow> string \<Rightarrow> (string list \<Rightarrow> string option) \<Rightarrow> (config, branch_result) io" where
  "branch entries targetTurnIndex cwd ui_select =
     io_bind (read_hook gitAvailable) (\<lambda>avail.
       if \<not> avail then io_return Undefined
       else
         io_bind (branch_prepare entries cwd) (\<lambda>u.
         branch_decide entries targetTurnIndex cwd ui_select))"

subsection \<open>Runs of the hook\<close>

datatype event =
    SessionStart string string
  | TurnStart int int string
  | Settle nat
  | Branch "entry list" int string "string list \<Rightarrow> string option"
  | SessionSwitch string string

fun step :: "event \<Rightarrow> config \<Rightarrow> config" where
  "step (SessionStart cwd sessionFile) c = snd (session_start cwd sessionFile c)"
| "step (TurnStart ev_turnIndex ev_timestamp cwd) c = snd (turn_start ev_turnIndex ev_timestamp cwd c)"
| "step (Settle k) c = settle k c"
| "step (Branch entries targetTurnIndex cwd ui_select) c =
     snd (branch entries targetTurnIndex cwd ui_select c)"
| "step (SessionSwitch reason newSessionFile) c = snd (session_switch reason newSessionFile c)"

definition run :: "event list \<Rightarrow> config \<Rightarrow> config" where
  "run evs c = fold step evs c"

section \<open>Example inputs\<close>

text \<open>A record captured at time \<open>t\<close>, for the examples.\<close>

definition example_record :: "int \<Rightarrow> CheckpointData" where
  "example_record t =
     \<lparr>ckpt_id = ''s1-turn-0-'' @ show_int t, turnIndex = 0, sessionId = ''s1'',
      headSha = sha_of 1, indexTreeSha = sha_of 2, worktreeTreeSha = sha_of 3,
      timestamp = Num t\<rparr>"

text \<open>
  A repository at \<open>/repo\<close> with one commit (the file \<open>a.txt\<close>). Since then
  \<open>a.txt\<close> was edited, \<open>new.txt\<close> was created and staged, and three files are
  untracked: \<open>notes.txt\<close>, \<open>node_modules/x.js\<close> and \<open>build.log\<close>, the last one
  ignored. The engine's functions on dates are given at the one instant of the clock.
\<close>

definition example_world :: world where
  "example_world =
     \<lparr>toplevel = (\<lambda>cwd. if cwd = ''/repo'' then Some ''/repo'' else None),
      HEAD = Some 1,
      index = [(''a.txt'', ''one''), (''new.txt'', ''fresh'')],
      worktree =
        [(''a.txt'', ''one, edited''), (''new.txt'', ''fresh''), (''notes.txt'', ''n''),
         (''node_modules/x.js'', ''m''), (''build.log'', ''l'')],
      ignored = (\<lambda>p. p = ''build.log''),
      objects =
        [Tree [(''a.txt'', ''one'')],
         Commit 0 ''dev <dev@example.org>'' 1699990000 ''dev <dev@example.org>'' 1699990000 ''init''],
      refs = [],
      ref_locked = (\<lambda>r. False),
      tmp_index = None,
      git_date = (\<lambda>s. if s = ''2023-11-14T22:13:20.000Z'' then Some 1700000000 else None),
      clock = (\<lambda>n. 1700000000000),
      clock_reads = 0,
      random_lt_01 = (\<lambda>n. False),
      random_reads = 0,
      toISOString = (\<lambda>t. if t = 1700000000000 then ''2023-11-14T22:13:20.000Z'' else []),
      Date_getTime =
        (\<lambda>s. if s = ''2023-11-14T22:13:20.000Z'' then Num 1700000000000 else NaN),
      session_header_id = (\<lambda>f. None),
      notified = []\<rparr>"

section \<open>Auxiliary notions for the proofs\<close>

text \<open>The characters of an object name: hexadecimal digits.\<close>

definition is_hex :: "char \<Rightarrow> bool" where
  "is_hex c = ((48 \<le> (of_char c :: nat) \<and> (of_char c :: nat) \<le> 57)
      \<or> (97 \<le> (of_char c :: nat) \<and> (of_char c :: nat) \<le> 102))"

text \<open>
  A full object name: forty hexadecimal digits in lower case, as \<open>git rev-parse\<close>,
  \<open>git write-tree\<close> and \<open>git commit-tree\<close> print them and \<open>createCheckpoint\<close> puts
  them into a record; the forty zeros that stand for an unborn head are among them.
\<close>

definition object_name :: "string \<Rightarrow> bool" where
  "object_name s = (length s = 40 \<and> list_all is_hex s)"

text \<open>The record that \<open>loadCheckpointFromRef\<close> builds from the text of a commit (lines 238 to
  262), as a function of its own.\<close>

definition parsed :: "world \<Rightarrow> string \<Rightarrow> string \<Rightarrow> CheckpointData option" where
  "parsed w refName commitMsg =
     (case (match_key ''sessionId'' commitMsg, match_turn commitMsg,
            match_key ''head'' commitMsg, match_key ''index-tree'' commitMsg,
            match_key ''worktree-tree'' commitMsg) of
        (Some sessionMatch, Some turnMatch, Some headMatch, Some indexMatch, Some worktreeMatch) \<Rightarrow>
          Some \<lparr>ckpt_id = refName, turnIndex = parseInt turnMatch,
                 sessionId = trim sessionMatch, headSha = trim headMatch,
                 indexTreeSha = trim indexMatch, worktreeTreeSha = trim worktreeMatch,
                 timestamp =
                   (case match_key ''created'' commitMsg of
                      None \<Rightarrow> Num 0
                    | Some createdMatch \<Rightarrow> Date_getTime w (trim createdMatch))\<rparr>
      | _ \<Rightarrow> None)"

text \<open>A string without a line terminator.\<close>

definition single_line :: "string \<Rightarrow> bool" where
  "single_line s = list_all (\<lambda>c. \<not> is_line_terminator c) s"

text \<open>The id of a checkpoint of turn 0 of session \<open>s1\<close>.\<close>

definition example_id :: string where
  "example_id = ''s1-turn-0-1700000000000''"

text \<open>
  The example repository with two refs in the checkpoint namespace: \<open>old\<close>, whose commit
  has no \<open>created\<close> line, and \<open>bad\<close>, whose commit has neither head nor trees.
\<close>

definition example_world_refs :: world where
  "example_world_refs =
     example_world
       \<lparr>objects := objects example_world @
          [Commit 0 checkpoint_ident 1700000000 checkpoint_ident 1700000000
             (join_lines [''checkpoint:old'', ''sessionId s1'', ''turn 3'', ''head '' @ sha_of 1,
                ''index-tree '' @ sha_of 0, ''worktree-tree '' @ sha_of 0]),
           Commit 0 checkpoint_ident 1700000000 checkpoint_ident 1700000000
             (join_lines [''checkpoint:bad'', ''sessionId s1'', ''turn 3''])],
        refs := [(''refs/pi-checkpoints/old'', 2), (''refs/pi-checkpoints/bad'', 3)]\<rparr>"

text \<open>
  Modelled from the spec: the thresholds and the directory names of SmartFilter, which
  checkpoint.ts does not have. The size of a file is the length of its content; the
  names are those of the README of the hook.
\<close>

definition spec_max_file_size :: nat where
  "spec_max_file_size = 10 * 1024 * 1024"

definition spec_max_dir_files :: nat where
  "spec_max_dir_files = 200"

definition spec_ignored_dir_names :: "string list" where
  "spec_ignored_dir_names =
     [''node_modules'', ''.venv'', ''venv'', ''env'', ''.env'', ''dist'', ''build'',
      ''.pytest_cache'', ''.mypy_cache'', ''.cache'', ''.tox'', ''__pycache__'']"

definition path_components :: "string \<Rightarrow> string list" where
  "path_components p = split_on (\<lambda>c. c = CHR ''/'') p"

definition files_below :: "string \<Rightarrow> (string \<times> string) list \<Rightarrow> (string \<times> string) list" where
  "files_below d wt = filter (\<lambda>(p, c). below d p) wt"

text \<open>
  The example repository with more untracked files: one of more than 10 MiB,
  and 201 files in the directory \<open>gen\<close>.
\<close>

definition example_world_big :: world where
  "example_world_big =
     example_world
       \<lparr>worktree := worktree example_world
          @ [(''huge.bin'', replicate 10485761 CHR ''x'')]
          @ map (\<lambda>i. (''gen/f'' @ show_nat i, ''g'')) [0 ..< 201]\<rparr>"

text \<open>
  The trees a record names, as \<open>restoreCheckpoint\<close> reads them: the tree of the commit
  \<open>headSha\<close> and the tree \<open>worktreeTreeSha\<close> (empty when the name denotes none).
\<close>

definition head_entries :: "world \<Rightarrow> CheckpointData \<Rightarrow> (string \<times> string) list" where
  "head_entries w r = (case commit_tree_of w (headSha r) of None \<Rightarrow> [] | Some es \<Rightarrow> es)"

definition snapshot_entries :: "world \<Rightarrow> CheckpointData \<Rightarrow> (string \<times> string) list" where
  "snapshot_entries w r =
     (case treeish_of w (worktreeTreeSha r) of None \<Rightarrow> [] | Some es \<Rightarrow> es)"

text \<open>
  A record of the example repository from the time when \<open>a.txt\<close> was its only file, and
  the example repository after \<open>a.txt\<close> was replaced by a directory with one untracked file.
\<close>

definition example_old_record :: CheckpointData where
  "example_old_record =
     \<lparr>ckpt_id = ''s1-turn-0-1699990000000'', turnIndex = 0, sessionId = ''s1'',
      headSha = sha_of 1, indexTreeSha = sha_of 0, worktreeTreeSha = sha_of 0,
      timestamp = Num 1699990000000\<rparr>"

definition example_world_dir :: world where
  "example_world_dir = example_world\<lparr>index := [], worktree := [(''a.txt/inner'', ''u'')]\<rparr>"



text \<open>
  A session with two checkpoints of the example repository, the user choosing
  "Restore oldest checkpoint" whenever it is offered.
\<close>

definition example_new_record :: CheckpointData where
  "example_new_record =
     example_old_record\<lparr>ckpt_id := ''s1-turn-1-1700000000000'', turnIndex := 1,
                          timestamp := Num 1700000000000\<rparr>"

definition example_hook :: hook_state where
  "example_hook =
     \<lparr>completedCheckpoints = [example_old_record, example_new_record],
      pendingCheckpoints = [],
      gitAvailable = True,
      checkpointingFailed = False,
      currentSessionId = ''s1'',
      currentSessionFile = ''/sessions/s1.jsonl''\<rparr>"

definition choose_oldest :: "string list \<Rightarrow> string option" where
  "choose_oldest opts = find (prefix ''Restore oldest'') opts"

text \<open>
  An operation of the hook keeps the failure flag: run with \<open>checkpointingFailed\<close> set,
  it leaves the flag set and the array \<open>pendingCheckpoints\<close> at its length.
\<close>

definition keeps_flag :: "(config, 'a) io \<Rightarrow> bool" where
  "keeps_flag m =
     (\<forall>c. checkpointingFailed (fst c) \<longrightarrow>
        checkpointingFailed (fst (snd (m c)))
        \<and> length (pendingCheckpoints (fst (snd (m c)))) = length (pendingCheckpoints (fst c)))"

definition flag_kept :: "config \<Rightarrow> config \<Rightarrow> bool" where
  "flag_kept c c' =
     (checkpointingFailed (fst c')
      \<and> length (pendingCheckpoints (fst c')) = length (pendingCheckpoints (fst c)))"

text \<open>
  A session whose one capture in flight was started in a directory outside the
  repository: its \<open>createCheckpoint\<close> fails.
\<close>

definition example_hook_pending :: hook_state where
  "example_hook_pending =
     example_hook\<lparr>pendingCheckpoints := [Pending ''/elsewhere'' ''s1-turn-2-1700000001000'' 2 ''s1'']\<rparr>"

text \<open>
  An operation of the hook only adds records: it leaves \<open>pendingCheckpoints\<close> as it is
  and removes no record from \<open>completedCheckpoints\<close>.
\<close>

definition only_adds :: "(config, 'a) io \<Rightarrow> bool" where
  "only_adds m =
     (\<forall>c. pendingCheckpoints (fst (snd (m c))) = pendingCheckpoints (fst c)
          \<and> set (completedCheckpoints (fst c)) \<subseteq> set (completedCheckpoints (fst (snd (m c)))))"

text \<open>A promise that has settled.\<close>

fun settled :: "promise \<Rightarrow> bool" where
  "settled (Pending cwd ident turn sid) = False"
| "settled (Fulfilled v) = True"
| "settled (Rejected e) = True"

text \<open>
  The promise of a capture whose record, if it made one, is among the records
  \<open>cs\<close>.
\<close>

fun delivered :: "CheckpointData list \<Rightarrow> promise \<Rightarrow> bool" where
  "delivered cs (Fulfilled (Some d)) = (d \<in> set cs)"
| "delivered cs (Fulfilled None) = True"
| "delivered cs p = False"

text \<open>The example session with one capture in flight, started in the repository.\<close>

definition example_hook_in_flight :: hook_state where
  "example_hook_in_flight =
     example_hook\<lparr>pendingCheckpoints := [Pending ''/repo'' ''s1-turn-2-1700000001000'' 2 ''s1'']\<rparr>"

section \<open>Properties of the sort\<close>

lemma set_sort_insert: "set (sort_insert cmp x xs) = insert x (set xs)"
  by (induction xs) auto

lemma set_js_sort: "set (js_sort cmp xs) = set xs"
  by (induction xs) (auto simp: set_sort_insert)

lemma length_sort_insert: "length (sort_insert cmp x xs) = Suc (length xs)"
  by (induction xs) auto

lemma length_js_sort: "length (js_sort cmp xs) = length xs"
  by (induction xs) (auto simp: length_sort_insert)

lemma js_ge_is_num: "js_ge a t \<Longrightarrow> is_num a"
  by (cases a; cases t) auto

text \<open>
  On records whose timestamps are all numbers, the head of the ascending sort is a
  record of least timestamp.
\<close>

lemma hd_sort_insert_asc:
  assumes "\<forall>c \<in> set (x # xs). is_num (timestamp c)"
    and "xs \<noteq> [] \<longrightarrow> (\<forall>c \<in> set xs. the_num (timestamp (hd xs)) \<le> the_num (timestamp c))"
  shows "\<forall>c \<in> set (x # xs).
           the_num (timestamp (hd (sort_insert (\<lambda>a b. js_sub (timestamp a) (timestamp b)) x xs)))
             \<le> the_num (timestamp c)"
proof (cases xs)
  case Nil
  then show ?thesis by simp
next
  case (Cons y ys)
  obtain a where a: "timestamp x = Num a"
    using assms(1) by (cases "timestamp x") auto
  obtain b where b: "timestamp y = Num b"
    using assms(1) Cons by (cases "timestamp y") auto
  have least: "\<forall>c \<in> set xs. b \<le> the_num (timestamp c)"
    using assms(2) Cons b by simp
  show ?thesis
  proof (cases "0 < a - b")
    case True
    then show ?thesis using Cons a b least by auto
  next
    case False
    then have "a \<le> b" by simp
    then show ?thesis using Cons a b least False by fastforce
  qed
qed

lemma hd_js_sort_asc:
  assumes "\<forall>c \<in> set xs. is_num (timestamp c)" and "xs \<noteq> []"
  shows "\<forall>c \<in> set xs.
           the_num (timestamp (hd (js_sort (\<lambda>a b. js_sub (timestamp a) (timestamp b)) xs)))
             \<le> the_num (timestamp c)"
  using assms
proof (induction xs)
  case Nil
  then show ?case by simp
next
  case (Cons x xs)
  let ?cmp = "\<lambda>a b. js_sub (timestamp a) (timestamp b)"
  have nums: "\<forall>c \<in> set (x # js_sort ?cmp xs). is_num (timestamp c)"
    using Cons.prems(1) by (simp add: set_js_sort)
  have ih: "js_sort ?cmp xs \<noteq> [] \<longrightarrow>
      (\<forall>c \<in> set (js_sort ?cmp xs).
         the_num (timestamp (hd (js_sort ?cmp xs))) \<le> the_num (timestamp c))"
  proof
    assume "js_sort ?cmp xs \<noteq> []"
    then have "xs \<noteq> []" by auto
    then show "\<forall>c \<in> set (js_sort ?cmp xs).
         the_num (timestamp (hd (js_sort ?cmp xs))) \<le> the_num (timestamp c)"
      using Cons.IH Cons.prems(1) by (simp add: set_js_sort)
  qed
  from hd_sort_insert_asc [OF nums ih] show ?case
    by (simp add: set_js_sort)
qed

section \<open>The selection\<close>

lemma set_candidates:
  "set (checkpointsAtOrAfterTarget (allCheckpoints cs) t) = {c \<in> set cs. js_ge (timestamp c) t}"
  by (auto simp: checkpointsAtOrAfterTarget_def allCheckpoints_def set_js_sort)

lemma select_checkpoint_cases:
  "select_checkpoint cs t =
     (case checkpointsAtOrAfterTarget (allCheckpoints cs) t of
        [] \<Rightarrow> Inl (if cs = [] then ''No checkpoints available''
                   else ''No checkpoint found for this message'')
      | c # rest \<Rightarrow> Inr c)"
proof (cases cs)
  case Nil
  then show ?thesis
    by (simp add: select_checkpoint_def checkpointsAtOrAfterTarget_def allCheckpoints_def)
next
  case (Cons a as)
  have "length (allCheckpoints cs) = length cs"
    by (simp add: allCheckpoints_def length_js_sort)
  then have "length (allCheckpoints cs) \<noteq> 0"
    using Cons by simp
  then show ?thesis using Cons
    by (simp add: select_checkpoint_def Let_def split: list.splits)
qed

lemma hd_candidates_least:
  assumes "checkpointsAtOrAfterTarget (allCheckpoints cs) t = c # rest"
  shows "c \<in> set cs \<and> js_ge (timestamp c) t
     \<and> (\<forall>c' \<in> set cs. js_ge (timestamp c') t \<longrightarrow> js_ge (timestamp c') (timestamp c))"
proof -
  let ?xs = "filter (\<lambda>cp. js_ge (timestamp cp) t) (allCheckpoints cs)"
  let ?cmp = "\<lambda>a b. js_sub (timestamp a) (timestamp b)"
  have sorted_eq: "js_sort ?cmp ?xs = c # rest"
    using assms by (simp add: checkpointsAtOrAfterTarget_def)
  have mem: "c \<in> set (checkpointsAtOrAfterTarget (allCheckpoints cs) t)"
    using assms by simp
  then have c_in: "c \<in> set cs" and c_ge: "js_ge (timestamp c) t"
    by (simp_all add: set_candidates)
  have nums: "\<forall>x \<in> set ?xs. is_num (timestamp x)"
    by (auto dest: js_ge_is_num)
  have ne: "?xs \<noteq> []"
    using sorted_eq by (cases ?xs) auto
  have least: "\<forall>x \<in> set ?xs. the_num (timestamp c) \<le> the_num (timestamp x)"
    using hd_js_sort_asc [OF nums ne] sorted_eq by simp
  have "js_ge (timestamp c') (timestamp c)" if "c' \<in> set cs" "js_ge (timestamp c') t" for c'
  proof -
    have "c' \<in> set ?xs"
      using that by (simp add: allCheckpoints_def set_js_sort)
    then have le: "the_num (timestamp c) \<le> the_num (timestamp c')"
      using least by blast
    have "is_num (timestamp c')" "is_num (timestamp c)"
      using that(2) c_ge by (auto dest: js_ge_is_num)
    then show ?thesis
      using le by (cases "timestamp c'"; cases "timestamp c") auto
  qed
  then show ?thesis using c_in c_ge by blast
qed

lemma select_three:
  assumes "timestamp a = Num 100" "timestamp b = Num 200" "timestamp c = Num 300"
  shows "select_checkpoint [a, b, c] (Num 150) = Inr b"
    and "select_checkpoint [a, b, c] (Num 300) = Inr c"
    and "select_checkpoint [a, b, c] (Num 350) = Inl ''No checkpoint found for this message''"
  using assms
  by (simp_all add: select_checkpoint_def allCheckpoints_def checkpointsAtOrAfterTarget_def)

text \<open>
  Claim C3. The selection keeps exactly the records whose timestamp is at or after the
  target; when there is one it returns a kept record of least timestamp, and when there
  is none it returns a warning (and no record, so not the most recent one either). For
  records captured at 100, 200 and 300: target 150 selects the one at 200, target 300
  the one at 300, and target 350 finds none.
\<close>

theorem select_checkpoint_correct:
  "set (checkpointsAtOrAfterTarget (allCheckpoints cs) t) = {c \<in> set cs. js_ge (timestamp c) t}
   \<and> (case select_checkpoint cs t of
         Inr c \<Rightarrow>
           c \<in> set cs \<and> js_ge (timestamp c) t
           \<and> (\<forall>c' \<in> set cs. js_ge (timestamp c') t \<longrightarrow> js_ge (timestamp c') (timestamp c))
       | Inl warning \<Rightarrow> (\<forall>c' \<in> set cs. \<not> js_ge (timestamp c') t))
   \<and> (timestamp r1 = Num 100 \<and> timestamp r2 = Num 200 \<and> timestamp r3 = Num 300 \<longrightarrow>
         select_checkpoint [r1, r2, r3] (Num 150) = Inr r2
       \<and> select_checkpoint [r1, r2, r3] (Num 300) = Inr r3
       \<and> select_checkpoint [r1, r2, r3] (Num 350) = Inl ''No checkpoint found for this message'')"
proof (intro conjI)
  show "set (checkpointsAtOrAfterTarget (allCheckpoints cs) t) = {c \<in> set cs. js_ge (timestamp c) t}"
    by (rule set_candidates)
next
  show "case select_checkpoint cs t of
         Inr c \<Rightarrow>
           c \<in> set cs \<and> js_ge (timestamp c) t
           \<and> (\<forall>c' \<in> set cs. js_ge (timestamp c') t \<longrightarrow> js_ge (timestamp c') (timestamp c))
       | Inl warning \<Rightarrow> (\<forall>c' \<in> set cs. \<not> js_ge (timestamp c') t)"
  proof (cases "checkpointsAtOrAfterTarget (allCheckpoints cs) t")
    case Nil
    then have "{c \<in> set cs. js_ge (timestamp c) t} = {}"
      using set_candidates [of cs t] by simp
    then show ?thesis using Nil by (auto simp: select_checkpoint_cases)
  next
    case (Cons c rest)
    then show ?thesis
      using hd_candidates_least [OF Cons] by (simp add: select_checkpoint_cases)
  qed
next
  show "timestamp r1 = Num 100 \<and> timestamp r2 = Num 200 \<and> timestamp r3 = Num 300 \<longrightarrow>
         select_checkpoint [r1, r2, r3] (Num 150) = Inr r2
       \<and> select_checkpoint [r1, r2, r3] (Num 300) = Inr r3
       \<and> select_checkpoint [r1, r2, r3] (Num 350) = Inl ''No checkpoint found for this message''"
    using select_three by blast
qed

text \<open>The theorem at three records of a session.\<close>

theorem select_checkpoint_correct_witness:
  "select_checkpoint [example_record 100, example_record 200, example_record 300] (Num 150)
     = Inr (example_record 200)
   \<and> select_checkpoint [example_record 100, example_record 200, example_record 300] (Num 300)
     = Inr (example_record 300)
   \<and> select_checkpoint [example_record 100, example_record 200, example_record 300] (Num 350)
     = Inl ''No checkpoint found for this message''
   \<and> set (checkpointsAtOrAfterTarget
        (allCheckpoints [example_record 100, example_record 200, example_record 300]) (Num 150))
     = {example_record 200, example_record 300}"
proof -
  have ts: "timestamp (example_record 100) = Num 100 \<and> timestamp (example_record 200) = Num 200
      \<and> timestamp (example_record 300) = Num 300"
    by (simp add: example_record_def)
  have neq: "example_record 100 \<noteq> example_record 200" "example_record 100 \<noteq> example_record 300"
    by (simp_all add: example_record_def)
  have "{c \<in> set [example_record 100, example_record 200, example_record 300].
           js_ge (timestamp c) (Num 150)} = {example_record 200, example_record 300}"
    using ts by auto
  then show ?thesis
    using ts select_checkpoint_correct
      [of "[example_record 100, example_record 200, example_record 300]" "Num 150"
          "example_record 100" "example_record 200" "example_record 300"]
    by simp
qed

section \<open>Strings and numbers\<close>

lemmas io_defs = io_bind_def io_return_def io_throw_def io_catch_def io_finally_def exec_failed_def

lemma dropWhile_hd: "xs \<noteq> [] \<Longrightarrow> \<not> P (hd xs) \<Longrightarrow> dropWhile P xs = xs"
  by (cases xs) auto

lemma trim_clean:
  assumes "s \<noteq> []" "\<not> is_ws (hd s)" "\<not> is_ws (last s)"
  shows "trim s = s"
proof -
  have a: "dropWhile is_ws s = s"
    using assms by (simp add: dropWhile_hd)
  have "rev s \<noteq> []" "\<not> is_ws (hd (rev s))"
    using assms by (simp_all add: hd_rev)
  then have b: "dropWhile is_ws (rev s) = rev s"
    by (rule dropWhile_hd)
  show ?thesis by (simp add: trim_def a b)
qed

lemma trim_Nil: "trim [] = []"
  by (simp add: trim_def)

lemma is_ws_newline: "is_ws (CHR 0x0A)"
  by (simp add: is_ws_def)

lemma trim_line:
  assumes "\<forall>c \<in> set s. \<not> is_ws c"
  shows "trim (s @ nl) = s"
proof -
  have a: "dropWhile is_ws (s @ nl) = s @ nl" if "s \<noteq> []"
    using that assms by (cases s) auto
  have b: "dropWhile is_ws (rev s) = rev s"
    using assms by (cases "rev s") (auto simp: hd_rev dest: arg_cong [where f = set])
  show ?thesis
  proof (cases "s = []")
    case True
    then show ?thesis by (simp add: trim_def nl_def is_ws_newline)
  next
    case False
    then show ?thesis using a b by (simp add: trim_def nl_def is_ws_newline)
  qed
qed

lemma trim_idem_clean: "\<forall>c \<in> set s. \<not> is_ws c \<Longrightarrow> trim s = s"
  by (cases "s = []") (auto simp: trim_Nil intro!: trim_clean)

lemma split_on_clean: "\<forall>c \<in> set a. \<not> P c \<Longrightarrow> split_on P a = [a]"
  by (induction a) auto

lemma split_on_append:
  "\<forall>c \<in> set a. \<not> P c \<Longrightarrow> P x \<Longrightarrow> split_on P (a @ x # b) = a # split_on P b"
  by (induction a) auto

lemma of_char_digit_char: "n < 10 \<Longrightarrow> (of_char (digit_char n) :: nat) = 48 + n"
  by (simp add: digit_char_def)

lemma is_digit_digit_char: "n < 10 \<Longrightarrow> is_digit (digit_char n)"
  by (simp add: is_digit_def of_char_digit_char)

lemma digit_val_digit_char: "n < 10 \<Longrightarrow> digit_val (digit_char n) = n"
  by (simp add: digit_val_def of_char_digit_char)

lemma show_nat_digits: "list_all is_digit (show_nat n)"
proof (induction n rule: show_nat.induct)
  case (1 n)
  show ?case
  proof (cases "n < 10")
    case True
    then show ?thesis by (subst show_nat.simps) (simp add: is_digit_digit_char)
  next
    case False
    then show ?thesis using 1
      by (subst show_nat.simps) (simp add: is_digit_digit_char)
  qed
qed

lemma show_nat_nonempty: "show_nat n \<noteq> []"
  by (subst show_nat.simps) simp

lemma parse_nat_snoc: "parse_nat (ds @ [c]) = 10 * parse_nat ds + digit_val c"
  by (simp add: parse_nat_def)

lemma parse_nat_show_nat: "parse_nat (show_nat n) = n"
proof (induction n rule: show_nat.induct)
  case (1 n)
  show ?case
  proof (cases "n < 10")
    case True
    then show ?thesis
      by (subst show_nat.simps) (simp add: parse_nat_def digit_val_digit_char)
  next
    case False
    then have "parse_nat (show_nat (n div 10)) = n div 10" using 1 by simp
    then show ?thesis using False
      by (subst show_nat.simps) (simp add: parse_nat_snoc digit_val_digit_char)
  qed
qed

lemma is_digit_not_minus: "is_digit c \<Longrightarrow> c \<noteq> CHR ''-''"
  by (auto simp: is_digit_def)

lemma hd_show_nat_not_minus: "hd (show_nat n) \<noteq> CHR ''-''"
  using show_nat_digits [of n] show_nat_nonempty [of n]
  by (cases "show_nat n") (auto dest: is_digit_not_minus)

lemma is_int_literal_show_int: "is_int_literal (show_int i)"
proof (cases "i < 0")
  case True
  then show ?thesis by (simp add: show_int_def show_nat_nonempty show_nat_digits)
next
  case False
  obtain c cs where s: "show_nat (nat i) = c # cs"
    using show_nat_nonempty [of "nat i"] by (cases "show_nat (nat i)") auto
  have "c \<noteq> CHR ''-''" using hd_show_nat_not_minus [of "nat i"] s by simp
  then show ?thesis using False s show_nat_digits [of "nat i"]
    by (simp add: show_int_def)
qed

lemma parseInt_show_int: "parseInt (show_int i) = i"
proof (cases "i < 0")
  case True
  then show ?thesis by (simp add: show_int_def parse_nat_show_nat)
next
  case False
  obtain c cs where s: "show_nat (nat i) = c # cs"
    using show_nat_nonempty [of "nat i"] by (cases "show_nat (nat i)") auto
  have "c \<noteq> CHR ''-''" using hd_show_nat_not_minus [of "nat i"] s by simp
  moreover have "parse_nat (c # cs) = nat i" using parse_nat_show_nat [of "nat i"] s by simp
  ultimately show ?thesis using False s by (simp add: show_int_def)
qed

section \<open>Object names\<close>

lemma of_char_hex_char:
  "n < 16 \<Longrightarrow> (of_char (hex_char n) :: nat) = (if n < 10 then 48 + n else 87 + n)"
  by (simp add: hex_char_def)

lemma hex_val_char_hex_char: "n < 16 \<Longrightarrow> hex_val_char (hex_char n) = n"
  by (simp add: hex_val_char_def of_char_hex_char)

lemma hex_val_snoc: "hex_val (s @ [c]) = 16 * hex_val s + hex_val_char c"
  by (simp add: hex_val_def)

lemma hex_val_hex_digits: "hex_val (hex_digits n) = n"
proof (induction n rule: hex_digits.induct)
  case (1 n)
  show ?case
  proof (cases "n < 16")
    case True
    then show ?thesis
      by (subst hex_digits.simps) (simp add: hex_val_def hex_val_char_hex_char)
  next
    case False
    then have "hex_val (hex_digits (n div 16)) = n div 16" using 1 by simp
    then show ?thesis using False
      by (subst hex_digits.simps) (simp add: hex_val_snoc hex_val_char_hex_char)
  qed
qed

lemma foldl_hex_zeros:
  "foldl (\<lambda>acc c. 16 * acc + hex_val_char c) 0 (replicate k CHR ''0'') = 0"
  by (induction k) (simp_all add: hex_val_char_def)

lemma hex_val_pad: "hex_val (replicate k CHR ''0'' @ s) = hex_val s"
  by (simp add: hex_val_def foldl_hex_zeros)

lemma hex_val_sha_of: "hex_val (sha_of i) = Suc i"
  unfolding sha_of_def Let_def by (simp only: hex_val_pad hex_val_hex_digits)

lemma sha_of_inj: "sha_of i = sha_of j \<longleftrightarrow> i = j"
proof
  assume "sha_of i = sha_of j"
  then have "hex_val (sha_of i) = hex_val (sha_of j)" by (rule arg_cong)
  then show "i = j" by (simp only: hex_val_sha_of nat.inject)
qed simp

lemma hex_val_ZEROS: "hex_val ZEROS = 0"
  using hex_val_pad [of 40 "[]"] by (simp add: ZEROS_def hex_val_def)

lemma sha_of_not_ZEROS: "sha_of i \<noteq> ZEROS"
proof
  assume "sha_of i = ZEROS"
  then have "hex_val (sha_of i) = hex_val ZEROS" by (rule arg_cong)
  then show False by (simp only: hex_val_sha_of hex_val_ZEROS nat.distinct)
qed

lemma is_hex_hex_char: "n < 16 \<Longrightarrow> is_hex (hex_char n)"
  by (auto simp: is_hex_def of_char_hex_char)

lemma hex_digits_is_hex: "list_all is_hex (hex_digits n)"
proof (induction n rule: hex_digits.induct)
  case (1 n)
  show ?case
  proof (cases "n < 16")
    case True
    then show ?thesis by (subst hex_digits.simps) (simp add: is_hex_hex_char)
  next
    case False
    then show ?thesis using 1
      by (subst hex_digits.simps) (simp add: is_hex_hex_char)
  qed
qed

lemma is_hex_zero: "is_hex CHR ''0''"
  by (simp add: is_hex_def)

lemma sha_of_is_hex: "list_all is_hex (sha_of i)"
proof -
  have "list_all is_hex (replicate k CHR ''0'')" for k
    by (induction k) (simp_all add: is_hex_zero)
  then show ?thesis
    unfolding sha_of_def Let_def by (simp only: list_all_append hex_digits_is_hex simp_thms)
qed

lemma hex_digits_nonempty: "hex_digits n \<noteq> []"
  by (subst hex_digits.simps) simp

lemma sha_of_nonempty: "sha_of i \<noteq> []"
  unfolding sha_of_def Let_def by (simp only: append_is_Nil_conv hex_digits_nonempty simp_thms)

text \<open>The names of the model are full object names, as long as forty digits hold them.\<close>

lemma length_hex_digits: "n < 16 ^ Suc k \<Longrightarrow> length (hex_digits n) \<le> Suc k"
proof (induction k arbitrary: n)
  case 0
  then show ?case by (subst hex_digits.simps) simp
next
  case (Suc k)
  show ?case
  proof (cases "n < 16")
    case True
    then show ?thesis by (subst hex_digits.simps) simp
  next
    case False
    have "n div 16 < 16 ^ Suc k" using Suc.prems by (simp add: less_mult_imp_div_less)
    then have "length (hex_digits (n div 16)) \<le> Suc k" by (rule Suc.IH)
    then show ?thesis using False by (subst hex_digits.simps) simp
  qed
qed

lemma object_name_sha_of: "Suc i < 16 ^ 40 \<Longrightarrow> object_name (sha_of i)"
proof -
  assume "Suc i < 16 ^ 40"
  then have "Suc i < 16 ^ Suc 39" by simp
  then have "length (hex_digits (Suc i)) \<le> Suc 39" by (rule length_hex_digits)
  then have "length (sha_of i) = 40" by (simp add: sha_of_def Let_def)
  then show ?thesis by (simp add: object_name_def sha_of_is_hex)
qed

lemma object_name_ZEROS: "object_name ZEROS"
  by (simp add: object_name_def ZEROS_def list_all_iff is_hex_zero)

lemma is_hex_not_ws: "is_hex c \<Longrightarrow> \<not> is_ws c"
  by (auto simp: is_hex_def is_ws_def)

lemma is_hex_not_terminator: "is_hex c \<Longrightarrow> \<not> is_line_terminator c"
  by (auto simp: is_hex_def is_line_terminator_def)

lemma is_hex_plain: "is_hex c \<Longrightarrow> plain_char c"
  by (auto simp: is_hex_def plain_char_def Let_def)

lemma resolve_sha_of: "i < length (objects w) \<Longrightarrow> resolve w (sha_of i) = Some i"
  by (simp add: resolve_def hex_val_sha_of)

lemma resolve_Some: "resolve w s = Some i \<Longrightarrow> s = sha_of i \<and> i < length (objects w)"
  by (auto simp: resolve_def Let_def split: if_splits)

lemma resolve_ZEROS: "resolve w ZEROS = None"
  by (simp add: resolve_def hex_val_ZEROS)

section \<open>The guard of the restore\<close>


text \<open>
  Claim C4. Restoring a record whose head is the forty-zero sentinel always fails and
  leaves the world as it was: the guard stands before the four steps. The failure is the
  error "Cannot restore: checkpoint was saved with no commits" whenever the repository
  root resolves (when it does not, \<open>getRepoRoot\<close>, which changes nothing either, has
  failed before the guard is reached).
\<close>

theorem restoreCheckpoint_unborn_head:
  "headSha checkpoint = ZEROS \<Longrightarrow>
   restoreCheckpoint cwd checkpoint w =
     (if toplevel w cwd = None then (Inl (ExecError ''git rev-parse --show-toplevel''), w)
      else (Inl (Error ''Cannot restore: checkpoint was saved with no commits''), w))"
  by (simp add: restoreCheckpoint_def getRepoRoot_def io_defs split: option.splits)

text \<open>The theorem in the example repository.\<close>

theorem restoreCheckpoint_unborn_head_witness:
  "headSha ((example_record 100)\<lparr>headSha := ZEROS\<rparr>) = ZEROS
   \<and> restoreCheckpoint ''/repo'' ((example_record 100)\<lparr>headSha := ZEROS\<rparr>) example_world
       = (Inl (Error ''Cannot restore: checkpoint was saved with no commits''), example_world)"
proof -
  have top: "toplevel example_world ''/repo'' \<noteq> None"
    by (simp add: example_world_def)
  show ?thesis
    using top restoreCheckpoint_unborn_head
      [of "(example_record 100)\<lparr>headSha := ZEROS\<rparr>" "''/repo''" example_world]
    by simp
qed


section \<open>Loading a checkpoint from its ref\<close>

lemma getRepoRoot_cases:
  "getRepoRoot cwd w = (r, w') \<Longrightarrow> w' = w"
  by (auto simp: getRepoRoot_def io_defs split: option.splits)

lemma git_rev_parse_verify_world:
  "git_rev_parse_verify ref w = (r, w') \<Longrightarrow> w' = w"
  by (auto simp: git_rev_parse_verify_def io_defs split: option.splits if_splits)

lemma git_cat_file_commit_world:
  "git_cat_file_commit s w = (r, w') \<Longrightarrow> w' = w"
  by (auto simp: git_cat_file_commit_def io_defs split: option.splits git_object.splits)

lemma load_unfold:
  "loadCheckpointFromRef cwd refName w =
     (Inr (case getRepoRoot cwd w of
             (Inl e, _) \<Rightarrow> None
           | (Inr root, _) \<Rightarrow>
               (case git_rev_parse_verify (REF_BASE @ ''/'' @ refName) w of
                  (Inl e, _) \<Rightarrow> None
                | (Inr commitSha, _) \<Rightarrow>
                    (case git_cat_file_commit (trim commitSha) w of
                       (Inl e, _) \<Rightarrow> None
                     | (Inr commitMsg, _) \<Rightarrow> parsed w refName commitMsg))), w)"
proof -
  obtain r1 where g1: "getRepoRoot cwd w = (r1, w)"
    using getRepoRoot_cases by (cases "getRepoRoot cwd w") auto
  obtain r2 where g2: "git_rev_parse_verify (REF_BASE @ ''/'' @ refName) w = (r2, w)"
    using git_rev_parse_verify_world
    by (cases "git_rev_parse_verify (REF_BASE @ ''/'' @ refName) w") auto
  show ?thesis
  proof (cases r1)
    case (Inl e)
    then show ?thesis using g1 by (simp add: loadCheckpointFromRef_def io_defs)
  next
    case root: (Inr root)
    show ?thesis
    proof (cases r2)
      case (Inl e)
      then show ?thesis using g1 g2 root by (simp add: loadCheckpointFromRef_def io_defs)
    next
      case sha: (Inr commitSha)
      obtain r3 where g3: "git_cat_file_commit (trim commitSha) w = (r3, w)"
        using git_cat_file_commit_world
        by (cases "git_cat_file_commit (trim commitSha) w") auto
      show ?thesis
      proof (cases r3)
        case (Inl e)
        then show ?thesis using g1 g2 g3 root sha by (simp add: loadCheckpointFromRef_def io_defs)
      next
        case (Inr commitMsg)
        then show ?thesis using g1 g2 g3 root sha
          by (simp add: loadCheckpointFromRef_def io_defs parsed_def split: option.splits prod.splits)
      qed
    qed
  qed
qed

section \<open>The text of a checkpoint commit\<close>

lemma single_line_Nil: "single_line []"
  by (simp add: single_line_def)

lemma single_line_Cons: "single_line (c # s) \<longleftrightarrow> \<not> is_line_terminator c \<and> single_line s"
  by (simp add: single_line_def)

lemma single_line_append: "single_line (a @ b) \<longleftrightarrow> single_line a \<and> single_line b"
  by (simp add: single_line_def)

lemma single_line_sha_of: "single_line (sha_of i)"
  using sha_of_is_hex [of i] by (auto simp: single_line_def list_all_iff dest: is_hex_not_terminator)

lemma is_digit_not_terminator: "is_digit c \<Longrightarrow> \<not> is_line_terminator c"
  by (auto simp: is_digit_def is_line_terminator_def)

lemma single_line_show_nat: "single_line (show_nat n)"
  using show_nat_digits [of n] by (auto simp: single_line_def list_all_iff dest: is_digit_not_terminator)

lemma single_line_show_int: "single_line (show_int i)"
  by (simp add: show_int_def single_line_Cons single_line_show_nat is_line_terminator_def)

lemma single_line_ZEROS: "single_line ZEROS"
  by (simp add: single_line_def ZEROS_def list_all_iff is_line_terminator_def)

lemma lines_append:
  "single_line a \<Longrightarrow>
   split_on is_line_terminator (a @ CHR 0x0A # b) = a # split_on is_line_terminator b"
  by (rule split_on_append) (auto simp: single_line_def list_all_iff is_line_terminator_def)

lemma lines_last: "single_line a \<Longrightarrow> split_on is_line_terminator a = [a]"
  by (rule split_on_clean) (auto simp: single_line_def list_all_iff)

lemma lines_join:
  "ls \<noteq> [] \<Longrightarrow> \<forall>l \<in> set ls. single_line l \<Longrightarrow>
   split_on is_line_terminator (join_lines ls) = ls"
proof (induction ls rule: join_lines.induct)
  case 1
  then show ?case by simp
next
  case (2 l)
  then show ?case by (simp add: lines_last)
next
  case (3 l v va)
  then show ?case by (simp add: lines_append)
qed

lemma render_commit_lines:
  assumes "single_line a" "single_line c"
  shows "split_on is_line_terminator (render_commit (Commit t a at c ct m)) =
     [''tree '' @ sha_of t,
      ''author '' @ a @ '' '' @ show_nat at @ '' +0000'',
      ''committer '' @ c @ '' '' @ show_nat ct @ '' +0000'',
      []] @ split_on is_line_terminator m"
proof -
  let ?l1 = "''tree '' @ sha_of t"
  let ?l2 = "''author '' @ a @ '' '' @ show_nat at @ '' +0000''"
  let ?l3 = "''committer '' @ c @ '' '' @ show_nat ct @ '' +0000''"
  have shape: "render_commit (Commit t a at c ct m) =
      ?l1 @ CHR 0x0A # (?l2 @ CHR 0x0A # (?l3 @ CHR 0x0A # ([] @ CHR 0x0A # m)))"
    by (simp add: render_commit_def nl_def)
  have s1: "single_line ?l1"
    by (simp add: single_line_append single_line_sha_of single_line_Cons single_line_Nil
        is_line_terminator_def)
  have s2: "single_line ?l2"
    using assms(1)
    by (simp add: single_line_append single_line_show_nat single_line_Cons single_line_Nil
        is_line_terminator_def)
  have s3: "single_line ?l3"
    using assms(2)
    by (simp add: single_line_append single_line_show_nat single_line_Cons single_line_Nil
        is_line_terminator_def)
  show ?thesis
    unfolding shape
    by (simp only: lines_append [OF s1] lines_append [OF s2] lines_append [OF s3]
        lines_append [OF single_line_Nil]) simp
qed

lemma single_line_checkpoint_ident: "single_line checkpoint_ident"
  by (simp add: checkpoint_ident_def single_line_def is_line_terminator_def)

text \<open>The lines of the commit object of a checkpoint.\<close>

lemma checkpoint_commit_lines:
  assumes "single_line ident" "single_line sid" "single_line h" "single_line i"
    "single_line wt" "single_line iso_ts"
  shows "split_on is_line_terminator
      (render_commit (Commit t checkpoint_ident secs checkpoint_ident secs
         (checkpoint_message ident sid turn h i wt iso_ts))) =
     [''tree '' @ sha_of t,
      ''author '' @ checkpoint_ident @ '' '' @ show_nat secs @ '' +0000'',
      ''committer '' @ checkpoint_ident @ '' '' @ show_nat secs @ '' +0000'',
      [],
      ''checkpoint:'' @ ident,
      ''sessionId '' @ sid,
      ''turn '' @ show_int turn,
      ''head '' @ h,
      ''index-tree '' @ i,
      ''worktree-tree '' @ wt,
      ''created '' @ iso_ts]"
proof -
  have "split_on is_line_terminator (checkpoint_message ident sid turn h i wt iso_ts) =
     [''checkpoint:'' @ ident,
      ''sessionId '' @ sid,
      ''turn '' @ show_int turn,
      ''head '' @ h,
      ''index-tree '' @ i,
      ''worktree-tree '' @ wt,
      ''created '' @ iso_ts]"
    unfolding checkpoint_message_def
    using assms
    by (intro lines_join)
      (simp_all add: single_line_append single_line_Cons single_line_Nil single_line_show_int
        is_line_terminator_def)
  then show ?thesis
    by (simp add: render_commit_lines [OF single_line_checkpoint_ident single_line_checkpoint_ident])
qed

lemma parsed_checkpoint_commit:
  assumes "single_line ident" "single_line sid" "single_line h" "single_line i"
    "single_line wt" "single_line iso_ts"
    and "sid \<noteq> []" "h \<noteq> []" "i \<noteq> []" "wt \<noteq> []" "iso_ts \<noteq> []"
  shows "parsed w refName
      (render_commit (Commit t checkpoint_ident secs checkpoint_ident secs
         (checkpoint_message ident sid turn h i wt iso_ts))) =
     Some \<lparr>ckpt_id = refName, turnIndex = turn, sessionId = trim sid, headSha = trim h,
            indexTreeSha = trim i, worktreeTreeSha = trim wt,
            timestamp = Date_getTime w (trim iso_ts)\<rparr>"
  using assms(7-11)
  by (simp add: parsed_def match_key_def match_turn_def checkpoint_commit_lines [OF assms(1-6)]
      is_int_literal_show_int parseInt_show_int)

section \<open>What a capture does\<close>

lemma index_of_Some: "index_of x xs = Some i \<Longrightarrow> i < length xs \<and> xs ! i = x"
proof (induction xs arbitrary: i)
  case Nil
  then show ?case by simp
next
  case (Cons y ys)
  then show ?case by (auto split: if_splits)
qed

lemma store_object_props:
  assumes "store_object obj w = (i, w')"
  shows "i < length (objects w') \<and> objects w' ! i = obj
     \<and> w' = w\<lparr>objects := objects w'\<rparr> \<and> (\<exists>extra. objects w' = objects w @ extra)"
proof (cases "index_of obj (objects w)")
  case None
  then show ?thesis using assms by (auto simp: store_object_def)
next
  case (Some j)
  then show ?thesis using assms index_of_Some [OF Some] by (auto simp: store_object_def)
qed

lemma store_fst_lt: "fst (store_object obj w) < length (objects (snd (store_object obj w)))"
  using store_object_props [of obj w] by (cases "store_object obj w") auto

lemma store_nth: "objects (snd (store_object obj w)) ! fst (store_object obj w) = obj"
  using store_object_props [of obj w] by (cases "store_object obj w") auto

lemma store_old:
  "i < length (objects w) \<Longrightarrow>
   i < length (objects (snd (store_object obj w))) \<and> objects (snd (store_object obj w)) ! i = objects w ! i"
  by (auto simp: store_object_def nth_append split: option.splits)

lemma store_fields:
  "toplevel (snd (store_object obj w)) = toplevel w"
  "HEAD (snd (store_object obj w)) = HEAD w"
  "index (snd (store_object obj w)) = index w"
  "worktree (snd (store_object obj w)) = worktree w"
  "ignored (snd (store_object obj w)) = ignored w"
  "refs (snd (store_object obj w)) = refs w"
  "ref_locked (snd (store_object obj w)) = ref_locked w"
  "tmp_index (snd (store_object obj w)) = tmp_index w"
  "git_date (snd (store_object obj w)) = git_date w"
  "clock (snd (store_object obj w)) = clock w"
  "clock_reads (snd (store_object obj w)) = clock_reads w"
  "toISOString (snd (store_object obj w)) = toISOString w"
  "Date_getTime (snd (store_object obj w)) = Date_getTime w"
  by (simp_all add: store_object_def split: option.splits)

lemma resolve_store:
  "resolve (snd (store_object obj w)) (sha_of (fst (store_object obj w))) = Some (fst (store_object obj w))"
  by (rule resolve_sha_of) (rule store_fst_lt)


lemma trim_sha_line: "trim (sha_of i @ nl) = sha_of i"
  using sha_of_is_hex [of i] by (intro trim_line) (auto simp: list_all_iff dest: is_hex_not_ws)

subsection \<open>Running the commands of a capture\<close>

lemma bind_Date_now:
  "io_bind Date_now f w = f (clock w (clock_reads w)) (w\<lparr>clock_reads := Suc (clock_reads w)\<rparr>)"
  by (simp add: io_bind_def Date_now_def)

lemma bind_read_head_sha:
  "io_bind read_head_sha f w = f (case HEAD w of None \<Rightarrow> ZEROS | Some h \<Rightarrow> sha_of h) w"
  by (simp add: read_head_sha_def git_rev_parse_HEAD_def io_defs trim_sha_line split: option.splits)

lemma bind_git_write_tree:
  "io_bind git_write_tree f w =
     f (sha_of (fst (store_object (Tree (index w)) w)) @ nl) (snd (store_object (Tree (index w)) w))"
  by (simp add: io_bind_def git_write_tree_def case_prod_beta)

lemma bind_mkdtemp: "io_bind mkdtemp f w = f ''/tmp/pi-checkpoint-XXXXXX'' (w\<lparr>tmp_index := None\<rparr>)"
  by (simp add: io_bind_def mkdtemp_def)

text \<open>The \<open>try\<close> block, run in a world whose temporary index is not there yet.\<close>

lemma checkpoint_try_block_run:
  assumes "tmp_index v = None"
  shows "checkpoint_try_block ident turn sid hs its iso_ts ts v =
     (let es = filter (\<lambda>(p, c). \<not> ignored v p) (worktree v);
          v1 = v\<lparr>tmp_index := Some es\<rparr>;
          wt = fst (store_object (Tree es) v1);
          v2 = snd (store_object (Tree es) v1)
      in case git_date v iso_ts of
           None \<Rightarrow> (Inl (ExecError ''git commit-tree''), v2)
         | Some secs \<Rightarrow>
             (let cmt = Commit wt checkpoint_ident secs checkpoint_ident secs
                          (checkpoint_message ident sid turn hs its (sha_of wt) iso_ts);
                  ci = fst (store_object cmt v2);
                  v3 = snd (store_object cmt v2)
              in if \<not> plain_refname (REF_BASE @ ''/'' @ ident)
                    \<or> ref_locked v (REF_BASE @ ''/'' @ ident)
                 then (Inl (ExecError ''git update-ref''), v3)
                 else (Inr \<lparr>ckpt_id = ident, turnIndex = turn, sessionId = sid, headSha = hs,
                            indexTreeSha = its, worktreeTreeSha = sha_of wt,
                            timestamp = Num ts\<rparr>,
                       v3\<lparr>refs := (REF_BASE @ ''/'' @ ident, ci)
                                    # filter (\<lambda>(n, t). n \<noteq> REF_BASE @ ''/'' @ ident) (refs v)\<rparr>)))"
proof -
  define es where "es = filter (\<lambda>(p, c). \<not> ignored v p) (worktree v)"
  define v1 where "v1 = v\<lparr>tmp_index := Some es\<rparr>"
  define wt where "wt = fst (store_object (Tree es) v1)"
  define v2 where "v2 = snd (store_object (Tree es) v1)"
  have add: "git_add_all_tmp v = (Inr (), v1)"
    using assms by (simp add: git_add_all_tmp_def v1_def es_def)
  have wr: "git_write_tree_tmp v1 = (Inr (sha_of wt @ nl), v2)"
    by (simp add: git_write_tree_tmp_def v1_def wt_def v2_def case_prod_beta)
  have res: "resolve v2 (sha_of wt) = Some wt" and nth: "objects v2 ! wt = Tree es"
    unfolding v2_def wt_def by (rule resolve_store, rule store_nth)
  have gd: "git_date v2 = git_date v" and rl: "ref_locked v2 = ref_locked v"
    and rf: "refs v2 = refs v"
    unfolding v2_def v1_def by (simp_all add: store_fields)
  show ?thesis
  proof (cases "git_date v iso_ts")
    case None
    then show ?thesis
      using add wr res nth gd
      by (simp add: checkpoint_try_block_def io_bind_def trim_sha_line git_commit_tree_def
          exec_failed_def Let_def es_def [symmetric] v1_def [symmetric] wt_def [symmetric]
          v2_def [symmetric])
  next
    case (Some secs)
    define cmt where "cmt = Commit wt checkpoint_ident secs checkpoint_ident secs
                          (checkpoint_message ident sid turn hs its (sha_of wt) iso_ts)"
    define ci where "ci = fst (store_object cmt v2)"
    define v3 where "v3 = snd (store_object cmt v2)"
    have ct: "git_commit_tree (sha_of wt) (checkpoint_message ident sid turn hs its (sha_of wt) iso_ts)
        iso_ts v2 = (Inr (sha_of ci @ nl), v3)"
      using res nth gd Some
      by (simp add: git_commit_tree_def cmt_def ci_def v3_def case_prod_beta)
    have res3: "resolve v3 (sha_of ci) = Some ci"
      unfolding v3_def ci_def by (rule resolve_store)
    have rl3: "ref_locked v3 = ref_locked v" and rf3: "refs v3 = refs v"
      unfolding v3_def using rl rf by (simp_all add: store_fields)
    have upd: "git_update_ref (REF_BASE @ ''/'' @ ident) (sha_of ci) v3 =
       (if \<not> plain_refname (REF_BASE @ ''/'' @ ident) \<or> ref_locked v (REF_BASE @ ''/'' @ ident)
        then (Inl (ExecError ''git update-ref''), v3)
        else (Inr (), v3\<lparr>refs := (REF_BASE @ ''/'' @ ident, ci)
                 # filter (\<lambda>(n, t). n \<noteq> REF_BASE @ ''/'' @ ident) (refs v)\<rparr>))"
      using res3 rl3 rf3 by (simp add: git_update_ref_def exec_failed_def)
    show ?thesis
      using add wr ct upd Some
      by (simp add: checkpoint_try_block_def io_bind_def io_return_def trim_sha_line Let_def
          es_def [symmetric] v1_def [symmetric] wt_def [symmetric] v2_def [symmetric]
          cmt_def [symmetric] ci_def [symmetric] v3_def [symmetric])
  qed
qed


lemma createCheckpoint_run:
  "createCheckpoint cwd ident turn sid w =
     (case toplevel w cwd of
        None \<Rightarrow> (Inl (ExecError ''git rev-parse --show-toplevel''), w)
      | Some r \<Rightarrow>
          (let ts = clock w (clock_reads w);
               w2 = w\<lparr>clock_reads := Suc (clock_reads w)\<rparr>;
               hs = (case HEAD w of None \<Rightarrow> ZEROS | Some h \<Rightarrow> sha_of h);
               it = fst (store_object (Tree (index w)) w2);
               w4 = (snd (store_object (Tree (index w)) w2))\<lparr>tmp_index := None\<rparr>
           in case checkpoint_try_block ident turn sid hs (sha_of it) (toISOString w ts) ts w4 of
                (res, w5) \<Rightarrow> (res, rm_tmpDir w5)))"
proof (cases "toplevel w cwd")
  case None
  then show ?thesis
    by (simp add: createCheckpoint_def getRepoRoot_def io_bind_def exec_failed_def)
next
  case (Some r)
  have root: "getRepoRoot cwd w = (Inr (trim (r @ nl)), w)"
    using Some by (simp add: getRepoRoot_def)
  have iso_step: "io_bind (\<lambda>w. (Inr (toISOString w ts), w)) f v = f (toISOString v ts) v" for ts f v
    by (simp add: io_bind_def)
  show ?thesis
    using Some
    by (simp add: createCheckpoint_def io_bind_def [of "getRepoRoot cwd"] root bind_Date_now
        iso_step bind_read_head_sha bind_git_write_tree bind_mkdtemp trim_sha_line
        io_finally_def Let_def)
qed

text \<open>What a successful capture leaves behind.\<close>

lemma createCheckpoint_Inr:
  assumes "createCheckpoint cwd ident turn sid w = (Inr d, w')"
  shows "\<exists>it wt ci secs.
      d = \<lparr>ckpt_id = ident, turnIndex = turn, sessionId = sid,
           headSha = (case HEAD w of None \<Rightarrow> ZEROS | Some h \<Rightarrow> sha_of h),
           indexTreeSha = sha_of it, worktreeTreeSha = sha_of wt,
           timestamp = Num (clock w (clock_reads w))\<rparr>
    \<and> plain_refname (REF_BASE @ ''/'' @ ident)
    \<and> map_of (refs w') (REF_BASE @ ''/'' @ ident) = Some ci
    \<and> ci < length (objects w')
    \<and> objects w' ! ci =
        Commit wt checkpoint_ident secs checkpoint_ident secs
          (checkpoint_message ident sid turn
             (case HEAD w of None \<Rightarrow> ZEROS | Some h \<Rightarrow> sha_of h) (sha_of it) (sha_of wt)
             (toISOString w (clock w (clock_reads w))))
    \<and> wt < length (objects w')
    \<and> objects w' ! wt = Tree (filter (\<lambda>(p, c). \<not> ignored w p) (worktree w))
    \<and> it < length (objects w')
    \<and> objects w' ! it = Tree (index w)
    \<and> toplevel w' = toplevel w \<and> Date_getTime w' = Date_getTime w
    \<and> worktree w' = worktree w \<and> index w' = index w \<and> HEAD w' = HEAD w"
proof -
  obtain r where top: "toplevel w cwd = Some r"
    using assms by (cases "toplevel w cwd") (auto simp: createCheckpoint_run)
  define ts where "ts = clock w (clock_reads w)"
  define w2 where "w2 = w\<lparr>clock_reads := Suc (clock_reads w)\<rparr>"
  define hs where "hs = (case HEAD w of None \<Rightarrow> ZEROS | Some h \<Rightarrow> sha_of h)"
  define it where "it = fst (store_object (Tree (index w)) w2)"
  define w3 where "w3 = snd (store_object (Tree (index w)) w2)"
  define w4 where "w4 = w3\<lparr>tmp_index := None\<rparr>"
  define es where "es = filter (\<lambda>(p, c). \<not> ignored w p) (worktree w)"
  define v1 where "v1 = w4\<lparr>tmp_index := Some es\<rparr>"
  define wt where "wt = fst (store_object (Tree es) v1)"
  define v2 where "v2 = snd (store_object (Tree es) v1)"
  have f3: "worktree w3 = worktree w" "ignored w3 = ignored w" "git_date w3 = git_date w"
    "ref_locked w3 = ref_locked w" "refs w3 = refs w" "toplevel w3 = toplevel w"
    "Date_getTime w3 = Date_getTime w" "index w3 = index w" "HEAD w3 = HEAD w"
    unfolding w3_def w2_def by (simp_all add: store_fields)
  have it3: "it < length (objects w3)" "objects w3 ! it = Tree (index w)"
    unfolding it_def w3_def by (rule store_fst_lt, rule store_nth)
  have tmp4: "tmp_index w4 = None" by (simp add: w4_def)
  have run: "(case checkpoint_try_block ident turn sid hs (sha_of it) (toISOString w ts) ts w4 of
                (res, w5) \<Rightarrow> (res, rm_tmpDir w5)) = (Inr d, w')"
    using assms top
    by (simp add: createCheckpoint_run Let_def ts_def w2_def hs_def it_def w3_def w4_def)
  have es4: "filter (\<lambda>(p, c). \<not> ignored w4 p) (worktree w4) = es"
    by (simp add: w4_def f3 es_def)
  have gd4: "git_date w4 = git_date w" "ref_locked w4 = ref_locked w" "refs w4 = refs w"
    by (simp_all add: w4_def f3)
  obtain secs where secs: "git_date w (toISOString w ts) = Some secs"
    using run
    by (cases "git_date w (toISOString w ts)")
      (auto simp: checkpoint_try_block_run [OF tmp4] Let_def gd4)
  define cmt where "cmt = Commit wt checkpoint_ident secs checkpoint_ident secs
      (checkpoint_message ident sid turn hs (sha_of it) (sha_of wt) (toISOString w ts))"
  define ci where "ci = fst (store_object cmt v2)"
  define v3 where "v3 = snd (store_object cmt v2)"
  have block: "checkpoint_try_block ident turn sid hs (sha_of it) (toISOString w ts) ts w4 =
      (if \<not> plain_refname (REF_BASE @ ''/'' @ ident) \<or> ref_locked w (REF_BASE @ ''/'' @ ident)
       then (Inl (ExecError ''git update-ref''), v3)
       else (Inr \<lparr>ckpt_id = ident, turnIndex = turn, sessionId = sid, headSha = hs,
                  indexTreeSha = sha_of it, worktreeTreeSha = sha_of wt, timestamp = Num ts\<rparr>,
             v3\<lparr>refs := (REF_BASE @ ''/'' @ ident, ci)
                    # filter (\<lambda>(n, t). n \<noteq> REF_BASE @ ''/'' @ ident) (refs w)\<rparr>))"
    unfolding checkpoint_try_block_run [OF tmp4] es4 gd4
    by (simp add: Let_def secs v1_def [symmetric] wt_def [symmetric] v2_def [symmetric]
        cmt_def [symmetric] ci_def [symmetric] v3_def [symmetric])
  have plain: "plain_refname (REF_BASE @ ''/'' @ ident)"
    and d: "d = \<lparr>ckpt_id = ident, turnIndex = turn, sessionId = sid, headSha = hs,
                  indexTreeSha = sha_of it, worktreeTreeSha = sha_of wt, timestamp = Num ts\<rparr>"
    and w': "w' = rm_tmpDir (v3\<lparr>refs := (REF_BASE @ ''/'' @ ident, ci)
                    # filter (\<lambda>(n, t). n \<noteq> REF_BASE @ ''/'' @ ident) (refs w)\<rparr>)"
    using run unfolding block by (auto split: if_splits)
  have o': "objects w' = objects v3" by (simp add: w' rm_tmpDir_def)
  have ci3: "ci < length (objects v3)" "objects v3 ! ci = cmt"
    unfolding ci_def v3_def by (rule store_fst_lt, rule store_nth)
  have wt2: "wt < length (objects v2)" "objects v2 ! wt = Tree es"
    unfolding wt_def v2_def by (rule store_fst_lt, rule store_nth)
  have wt3: "wt < length (objects v3)" "objects v3 ! wt = Tree es"
    unfolding v3_def using store_old [OF wt2(1), of cmt] wt2(2) by simp_all
  have o1: "objects v1 = objects w3" by (simp add: v1_def w4_def)
  have it2: "it < length (objects v2)" "objects v2 ! it = Tree (index w)"
    unfolding v2_def using store_old [of it v1 "Tree es"] it3 o1 by simp_all
  have it3': "it < length (objects v3)" "objects v3 ! it = Tree (index w)"
    unfolding v3_def using store_old [OF it2(1), of cmt] it2(2) by simp_all
  have frame: "toplevel w' = toplevel w" "Date_getTime w' = Date_getTime w"
    "worktree w' = worktree w" "index w' = index w" "HEAD w' = HEAD w"
    by (simp_all add: w' rm_tmpDir_def v3_def v2_def v1_def w4_def store_fields f3)
  have ref: "map_of (refs w') (REF_BASE @ ''/'' @ ident) = Some ci"
    by (simp add: w' rm_tmpDir_def)
  show ?thesis
    using d plain ref ci3 wt3 it3' frame
    by (simp add: o' cmt_def hs_def ts_def es_def) blast
qed

section \<open>From a capture to its ref and back\<close>

lemma plain_char_not_terminator: "plain_char c \<Longrightarrow> \<not> is_line_terminator c"
  by (auto simp: plain_char_def is_line_terminator_def Let_def)

lemma plain_refname_single_line: "plain_refname (a @ b) \<Longrightarrow> single_line b"
  by (auto simp: plain_refname_def single_line_def list_all_iff dest: plain_char_not_terminator)

lemma trim_sha_of: "trim (sha_of i) = sha_of i"
  using sha_of_is_hex [of i] by (intro trim_idem_clean) (auto simp: list_all_iff dest: is_hex_not_ws)

lemma trim_ZEROS: "trim ZEROS = ZEROS"
  by (intro trim_idem_clean) (auto simp: ZEROS_def is_ws_def)

lemma ZEROS_nonempty: "ZEROS \<noteq> []"
  by (simp add: ZEROS_def)

text \<open>What \<open>loadCheckpointFromRef\<close> reads back from the ref of a capture.\<close>

lemma load_after_create:
  assumes "createCheckpoint cwd ident turn sid w = (Inr d, w')"
    and "single_line sid"
    and "single_line (toISOString w (clock w (clock_reads w)))"
  shows "loadCheckpointFromRef cwd ident w' =
     (Inr (if sid = [] then None
           else Some (d\<lparr>sessionId := trim sid,
                       timestamp :=
                         (if toISOString w (clock w (clock_reads w)) = [] then Num 0
                          else Date_getTime w (trim (toISOString w (clock w (clock_reads w)))))\<rparr>)),
      w')"
proof -
  define hs where "hs = (case HEAD w of None \<Rightarrow> ZEROS | Some h \<Rightarrow> sha_of h)"
  define iso_ts where "iso_ts = toISOString w (clock w (clock_reads w))"
  from createCheckpoint_Inr [OF assms(1)] obtain it wt ci secs where
    d: "d = \<lparr>ckpt_id = ident, turnIndex = turn, sessionId = sid, headSha = hs,
           indexTreeSha = sha_of it, worktreeTreeSha = sha_of wt,
           timestamp = Num (clock w (clock_reads w))\<rparr>"
    and plain: "plain_refname (REF_BASE @ ''/'' @ ident)"
    and ref: "map_of (refs w') (REF_BASE @ ''/'' @ ident) = Some ci"
    and ci: "ci < length (objects w')"
      "objects w' ! ci = Commit wt checkpoint_ident secs checkpoint_ident secs
          (checkpoint_message ident sid turn hs (sha_of it) (sha_of wt) iso_ts)"
    and top: "toplevel w' = toplevel w" and gt: "Date_getTime w' = Date_getTime w"
    unfolding hs_def iso_ts_def by blast
  obtain r where r: "toplevel w cwd = Some r"
    using assms(1) by (cases "toplevel w cwd") (auto simp: createCheckpoint_run)
  have g1: "getRepoRoot cwd w' = (Inr (trim (r @ nl)), w')"
    using r top by (simp add: getRepoRoot_def)
  have g2: "git_rev_parse_verify (REF_BASE @ ''/'' @ ident) w' = (Inr (sha_of ci @ nl), w')"
    using plain ref by (simp add: git_rev_parse_verify_def)
  have g3: "git_cat_file_commit (sha_of ci) w' =
      (Inr (render_commit (Commit wt checkpoint_ident secs checkpoint_ident secs
          (checkpoint_message ident sid turn hs (sha_of it) (sha_of wt) iso_ts))), w')"
    using ci by (simp add: git_cat_file_commit_def resolve_sha_of)
  have sl_ident: "single_line ident"
    using plain_refname_single_line [of "REF_BASE @ ''/''" ident] plain by simp
  have sl_hs: "single_line hs" and ne_hs: "hs \<noteq> []" and trim_hs: "trim hs = hs"
    by (auto simp: hs_def single_line_ZEROS single_line_sha_of ZEROS_nonempty sha_of_nonempty
        trim_ZEROS trim_sha_of split: option.splits)
  have sl_iso: "single_line iso_ts" using assms(3) by (simp add: iso_ts_def)
  note lines = checkpoint_commit_lines [OF sl_ident assms(2) sl_hs single_line_sha_of
      single_line_sha_of sl_iso, of wt secs turn it wt]
  have p: "parsed w' ident
      (render_commit (Commit wt checkpoint_ident secs checkpoint_ident secs
          (checkpoint_message ident sid turn hs (sha_of it) (sha_of wt) iso_ts))) =
      (if sid = [] then None
       else Some \<lparr>ckpt_id = ident, turnIndex = turn, sessionId = trim sid, headSha = hs,
           indexTreeSha = sha_of it, worktreeTreeSha = sha_of wt,
           timestamp = (if iso_ts = [] then Num 0 else Date_getTime w (trim iso_ts))\<rparr>)"
    using ne_hs
    by (simp add: parsed_def match_key_def match_turn_def lines is_int_literal_show_int
        parseInt_show_int sha_of_nonempty trim_hs trim_sha_of gt)
  have "loadCheckpointFromRef cwd ident w' =
      (Inr (parsed w' ident
         (render_commit (Commit wt checkpoint_ident secs checkpoint_ident secs
            (checkpoint_message ident sid turn hs (sha_of it) (sha_of wt) iso_ts)))), w')"
    using g1 g2 g3 by (simp add: load_unfold trim_sha_line)
  then have "loadCheckpointFromRef cwd ident w' =
      (Inr (if sid = [] then None
       else Some \<lparr>ckpt_id = ident, turnIndex = turn, sessionId = trim sid, headSha = hs,
           indexTreeSha = sha_of it, worktreeTreeSha = sha_of wt,
           timestamp = (if iso_ts = [] then Num 0 else Date_getTime w (trim iso_ts))\<rparr>), w')"
    by (simp only: p)
  then show ?thesis
    by (simp add: d iso_ts_def)
qed


lemma example_capture:
  assumes "plain_refname (REF_BASE @ ''/'' @ ident)"
  shows "fst (createCheckpoint ''/repo'' ident turn sid example_world) =
     Inr \<lparr>ckpt_id = ident, turnIndex = turn, sessionId = sid, headSha = sha_of 1,
          indexTreeSha = sha_of 2, worktreeTreeSha = sha_of 3,
          timestamp = Num 1700000000000\<rparr>"
proof -
  have top: "toplevel example_world ''/repo'' = Some ''/repo''"
    by (simp add: example_world_def)
  show ?thesis
    using assms
    by (simp add: createCheckpoint_run top Let_def checkpoint_try_block_run)
       (simp add: example_world_def store_object_def sha_of_inj)
qed


text \<open>
  Claim C9, amended. A record that \<open>createCheckpoint\<close> produced is read back from its
  ref by \<open>loadCheckpointFromRef\<close>, equal in every field, when the name of its ref is
  plain (the id has letters, digits, \<open>-\<close>, \<open>_\<close>, \<open>.\<close> and \<open>/\<close> only; lines 166 and 225
  put it into a command line as it is), its turn index is a safe integer, its session id
  is not empty, stands on one line and has no white space at either end, and the engine
  reads the ISO string of the capture time back as that time.
\<close>

theorem checkpoint_round_trip:
  assumes "createCheckpoint cwd ident turn sid w = (Inr d, w')"
    and "plain_refname (REF_BASE @ ''/'' @ ident)" and "safe_integer turn"
    and "sid \<noteq> []" and "single_line sid" and "trim sid = sid"
    and "toISOString w (clock w (clock_reads w)) \<noteq> []"
    and "single_line (toISOString w (clock w (clock_reads w)))"
    and "Date_getTime w (trim (toISOString w (clock w (clock_reads w))))
           = Num (clock w (clock_reads w))"
  shows "loadCheckpointFromRef cwd ident w' = (Inr (Some d), w')"
proof -
  have "timestamp d = Num (clock w (clock_reads w))" and "sessionId d = sid"
    using createCheckpoint_Inr [OF assms(1)] by auto
  then show ?thesis
    using load_after_create [OF assms(1) assms(5) assms(8)] assms(4,6,7,9) by simp
qed

lemma plain_example_id: "plain_refname (REF_BASE @ ''/'' @ example_id)"
  by (simp add: plain_refname_def plain_char_def REF_BASE_def example_id_def)

text \<open>The theorem at a capture in the example repository.\<close>

theorem checkpoint_round_trip_witness:
  "loadCheckpointFromRef ''/repo'' example_id
     (snd (createCheckpoint ''/repo'' example_id 0 ''s1'' example_world))
   = (Inr (Some \<lparr>ckpt_id = example_id, turnIndex = 0, sessionId = ''s1'', headSha = sha_of 1,
          indexTreeSha = sha_of 2, worktreeTreeSha = sha_of 3,
          timestamp = Num 1700000000000\<rparr>),
      snd (createCheckpoint ''/repo'' example_id 0 ''s1'' example_world))"
proof -
  let ?d = "\<lparr>ckpt_id = example_id, turnIndex = 0, sessionId = ''s1'', headSha = sha_of 1,
          indexTreeSha = sha_of 2, worktreeTreeSha = sha_of 3,
          timestamp = Num 1700000000000\<rparr>"
  have cc: "createCheckpoint ''/repo'' example_id 0 ''s1'' example_world =
      (Inr ?d, snd (createCheckpoint ''/repo'' example_id 0 ''s1'' example_world))"
    using example_capture [OF plain_example_id, of 0 "''s1''"]
    by (cases "createCheckpoint ''/repo'' example_id 0 ''s1'' example_world") simp
  have h1: "''s1'' \<noteq> []" by simp
  have h2: "single_line ''s1''" by (simp add: single_line_def is_line_terminator_def)
  have h3: "trim ''s1'' = ''s1''" by (simp add: trim_def is_ws_def)
  have iso: "toISOString example_world (clock example_world (clock_reads example_world))
      = ''2023-11-14T22:13:20.000Z''"
    by (simp add: example_world_def)
  have h4: "toISOString example_world (clock example_world (clock_reads example_world)) \<noteq> []"
    by (simp add: iso)
  have h5: "single_line (toISOString example_world (clock example_world (clock_reads example_world)))"
    by (simp add: iso single_line_def is_line_terminator_def)
  have h6: "Date_getTime example_world
      (trim (toISOString example_world (clock example_world (clock_reads example_world))))
      = Num (clock example_world (clock_reads example_world))"
    by (simp add: iso trim_def is_ws_def) (simp add: example_world_def)
  have h0: "safe_integer 0" by (simp add: safe_integer_def)
  show ?thesis
    by (rule checkpoint_round_trip [OF cc plain_example_id h0 h1 h2 h3 h4 h5 h6])
qed

text \<open>
  Claim C9 as stated fails: a capture with the empty session id succeeds (the handler of
  \<open>branch\<close> makes one when no session id is known, lines 542 to 548), and its ref
  loads as \<open>null\<close>, since \<open>/^sessionId (.+)$/m\<close> needs a character after the space.
\<close>

theorem checkpoint_round_trip_counterexample:
  "fst (createCheckpoint ''/repo'' ''-before-restore-1700000000000'' 0 [] example_world)
     = Inr \<lparr>ckpt_id = ''-before-restore-1700000000000'', turnIndex = 0, sessionId = [],
            headSha = sha_of 1, indexTreeSha = sha_of 2, worktreeTreeSha = sha_of 3,
            timestamp = Num 1700000000000\<rparr>
   \<and> fst (loadCheckpointFromRef ''/repo'' ''-before-restore-1700000000000''
        (snd (createCheckpoint ''/repo'' ''-before-restore-1700000000000'' 0 [] example_world)))
     = Inr None"
proof -
  let ?i = "''-before-restore-1700000000000''"
  let ?d = "\<lparr>ckpt_id = ?i, turnIndex = 0, sessionId = [],
            headSha = sha_of 1, indexTreeSha = sha_of 2, worktreeTreeSha = sha_of 3,
            timestamp = Num 1700000000000\<rparr>"
  have plain: "plain_refname (REF_BASE @ ''/'' @ ?i)"
    by (simp add: plain_refname_def plain_char_def REF_BASE_def)
  have cc: "createCheckpoint ''/repo'' ?i 0 [] example_world =
      (Inr ?d, snd (createCheckpoint ''/repo'' ?i 0 [] example_world))"
    using example_capture [OF plain, of 0 "[]"]
    by (cases "createCheckpoint ''/repo'' ?i 0 [] example_world") simp
  have iso: "toISOString example_world (clock example_world (clock_reads example_world))
      = ''2023-11-14T22:13:20.000Z''"
    by (simp add: example_world_def)
  have h5: "single_line (toISOString example_world (clock example_world (clock_reads example_world)))"
    by (simp add: iso single_line_def is_line_terminator_def)
  show ?thesis
    using example_capture [OF plain, of 0 "[]"]
      load_after_create [OF cc single_line_Nil h5]
    by simp
qed

section \<open>Loading never throws\<close>

lemma load_no_root: "toplevel w cwd = None \<Longrightarrow> loadCheckpointFromRef cwd refName w = (Inr None, w)"
  by (simp add: load_unfold getRepoRoot_def exec_failed_def)

lemma load_no_ref:
  "map_of (refs w) (REF_BASE @ ''/'' @ refName) = None \<Longrightarrow>
   loadCheckpointFromRef cwd refName w = (Inr None, w)"
  by (simp add: load_unfold git_rev_parse_verify_def exec_failed_def split: prod.splits sum.splits)

lemma load_no_commit:
  assumes "map_of (refs w) (REF_BASE @ ''/'' @ refName) = Some i"
    and "length (objects w) \<le> i \<or> (\<exists>es. objects w ! i = Tree es)"
  shows "loadCheckpointFromRef cwd refName w = (Inr None, w)"
proof -
  have "git_cat_file_commit (sha_of i) w = (Inl (ExecError ''git cat-file commit''), w)"
    using assms(2)
    by (auto simp: git_cat_file_commit_def resolve_def hex_val_sha_of exec_failed_def)
  then show ?thesis
    using assms(1)
    by (simp add: load_unfold git_rev_parse_verify_def exec_failed_def trim_sha_line
        split: prod.splits sum.splits)
qed

lemma load_commit:
  assumes "toplevel w cwd \<noteq> None" and "plain_refname (REF_BASE @ ''/'' @ refName)"
    and "map_of (refs w) (REF_BASE @ ''/'' @ refName) = Some i"
    and "i < length (objects w)" and "\<forall>es. objects w ! i \<noteq> Tree es"
  shows "loadCheckpointFromRef cwd refName w =
     (Inr (parsed w refName (render_commit (objects w ! i))), w)"
proof -
  obtain t a at c ct m where obj: "objects w ! i = Commit t a at c ct m"
    using assms(5) by (cases "objects w ! i") auto
  have g3: "git_cat_file_commit (sha_of i) w = (Inr (render_commit (objects w ! i)), w)"
    using assms(4) obj by (simp add: git_cat_file_commit_def resolve_sha_of)
  have g2: "git_rev_parse_verify (REF_BASE @ ''/'' @ refName) w = (Inr (sha_of i @ nl), w)"
    using assms(2,3) by (simp add: git_rev_parse_verify_def)
  obtain r where "toplevel w cwd = Some r" using assms(1) by auto
  then have g1: "getRepoRoot cwd w = (Inr (trim (r @ nl)), w)"
    by (simp add: getRepoRoot_def)
  show ?thesis
    using g1 g2 g3 by (simp add: load_unfold trim_sha_line)
qed

text \<open>
  Claim C10. \<open>loadCheckpointFromRef\<close> never throws and changes nothing: it returns
  \<open>null\<close> when the repository root does not resolve, when the ref is not there, when
  what the ref names is not a commit that can be read, and when the text of the commit
  lacks a line for the session id, the turn, the head, the index tree or the worktree
  tree; when these five are there and only the \<open>created\<close> line is missing, it returns a
  record whose timestamp is 0.
\<close>

theorem loadCheckpointFromRef_total:
  "(\<exists>r. loadCheckpointFromRef cwd refName w = (Inr r, w))
   \<and> (toplevel w cwd = None \<longrightarrow> loadCheckpointFromRef cwd refName w = (Inr None, w))
   \<and> (map_of (refs w) (REF_BASE @ ''/'' @ refName) = None \<longrightarrow>
        loadCheckpointFromRef cwd refName w = (Inr None, w))
   \<and> (\<forall>i. map_of (refs w) (REF_BASE @ ''/'' @ refName) = Some i
          \<and> (length (objects w) \<le> i \<or> (\<exists>es. objects w ! i = Tree es)) \<longrightarrow>
        loadCheckpointFromRef cwd refName w = (Inr None, w))
   \<and> (\<forall>i. toplevel w cwd \<noteq> None \<and> plain_refname (REF_BASE @ ''/'' @ refName)
          \<and> map_of (refs w) (REF_BASE @ ''/'' @ refName) = Some i
          \<and> i < length (objects w) \<and> (\<forall>es. objects w ! i \<noteq> Tree es) \<longrightarrow>
        ((match_key ''sessionId'' (render_commit (objects w ! i)) = None
          \<or> match_turn (render_commit (objects w ! i)) = None
          \<or> match_key ''head'' (render_commit (objects w ! i)) = None
          \<or> match_key ''index-tree'' (render_commit (objects w ! i)) = None
          \<or> match_key ''worktree-tree'' (render_commit (objects w ! i)) = None) \<longrightarrow>
         loadCheckpointFromRef cwd refName w = (Inr None, w))
        \<and> (match_key ''sessionId'' (render_commit (objects w ! i)) \<noteq> None
           \<and> match_turn (render_commit (objects w ! i)) \<noteq> None
           \<and> match_key ''head'' (render_commit (objects w ! i)) \<noteq> None
           \<and> match_key ''index-tree'' (render_commit (objects w ! i)) \<noteq> None
           \<and> match_key ''worktree-tree'' (render_commit (objects w ! i)) \<noteq> None
           \<and> match_key ''created'' (render_commit (objects w ! i)) = None \<longrightarrow>
           (\<exists>d. loadCheckpointFromRef cwd refName w = (Inr (Some d), w) \<and> timestamp d = Num 0)))"
proof (intro conjI allI impI)
  show "\<exists>r. loadCheckpointFromRef cwd refName w = (Inr r, w)"
    by (subst load_unfold) blast
next
  assume "toplevel w cwd = None"
  then show "loadCheckpointFromRef cwd refName w = (Inr None, w)" by (rule load_no_root)
next
  assume "map_of (refs w) (REF_BASE @ ''/'' @ refName) = None"
  then show "loadCheckpointFromRef cwd refName w = (Inr None, w)" by (rule load_no_ref)
next
  fix i
  assume "map_of (refs w) (REF_BASE @ ''/'' @ refName) = Some i
          \<and> (length (objects w) \<le> i \<or> (\<exists>es. objects w ! i = Tree es))"
  then show "loadCheckpointFromRef cwd refName w = (Inr None, w)"
    using load_no_commit by blast
next
  fix i
  assume a: "toplevel w cwd \<noteq> None \<and> plain_refname (REF_BASE @ ''/'' @ refName)
          \<and> map_of (refs w) (REF_BASE @ ''/'' @ refName) = Some i
          \<and> i < length (objects w) \<and> (\<forall>es. objects w ! i \<noteq> Tree es)"
  assume "match_key ''sessionId'' (render_commit (objects w ! i)) = None
          \<or> match_turn (render_commit (objects w ! i)) = None
          \<or> match_key ''head'' (render_commit (objects w ! i)) = None
          \<or> match_key ''index-tree'' (render_commit (objects w ! i)) = None
          \<or> match_key ''worktree-tree'' (render_commit (objects w ! i)) = None"
  then have "parsed w refName (render_commit (objects w ! i)) = None"
    by (auto simp: parsed_def split: option.splits)
  then show "loadCheckpointFromRef cwd refName w = (Inr None, w)"
    using load_commit [of w cwd refName i] a by simp
next
  fix i
  assume a: "toplevel w cwd \<noteq> None \<and> plain_refname (REF_BASE @ ''/'' @ refName)
          \<and> map_of (refs w) (REF_BASE @ ''/'' @ refName) = Some i
          \<and> i < length (objects w) \<and> (\<forall>es. objects w ! i \<noteq> Tree es)"
  assume "match_key ''sessionId'' (render_commit (objects w ! i)) \<noteq> None
           \<and> match_turn (render_commit (objects w ! i)) \<noteq> None
           \<and> match_key ''head'' (render_commit (objects w ! i)) \<noteq> None
           \<and> match_key ''index-tree'' (render_commit (objects w ! i)) \<noteq> None
           \<and> match_key ''worktree-tree'' (render_commit (objects w ! i)) \<noteq> None
           \<and> match_key ''created'' (render_commit (objects w ! i)) = None"
  then have "\<exists>d. parsed w refName (render_commit (objects w ! i)) = Some d \<and> timestamp d = Num 0"
    by (auto simp: parsed_def split: option.splits)
  then show "\<exists>d. loadCheckpointFromRef cwd refName w = (Inr (Some d), w) \<and> timestamp d = Num 0"
    using load_commit [of w cwd refName i] a by auto
qed


lemma example_refs_basics:
  "toplevel example_world_refs ''/repo'' \<noteq> None"
  "toplevel example_world_refs ''/elsewhere'' = None"
  "map_of (refs example_world_refs) (REF_BASE @ ''/'' @ ''old'') = Some 2"
  "map_of (refs example_world_refs) (REF_BASE @ ''/'' @ ''bad'') = Some 3"
  "map_of (refs example_world_refs) (REF_BASE @ ''/'' @ ''missing'') = None"
  "length (objects example_world_refs) = 4"
  "objects example_world_refs ! 2 =
     Commit 0 checkpoint_ident 1700000000 checkpoint_ident 1700000000
       (join_lines [''checkpoint:old'', ''sessionId s1'', ''turn 3'', ''head '' @ sha_of 1,
          ''index-tree '' @ sha_of 0, ''worktree-tree '' @ sha_of 0])"
  "objects example_world_refs ! 3 =
     Commit 0 checkpoint_ident 1700000000 checkpoint_ident 1700000000
       (join_lines [''checkpoint:bad'', ''sessionId s1'', ''turn 3''])"
  "plain_refname (REF_BASE @ ''/'' @ ''old'')"
  "plain_refname (REF_BASE @ ''/'' @ ''bad'')"
  by (simp_all add: example_world_refs_def example_world_def REF_BASE_def plain_refname_def
      plain_char_def)

lemma example_old_lines:
  "split_on is_line_terminator (render_commit (objects example_world_refs ! 2)) =
     [''tree '' @ sha_of 0,
      ''author '' @ checkpoint_ident @ '' '' @ show_nat 1700000000 @ '' +0000'',
      ''committer '' @ checkpoint_ident @ '' '' @ show_nat 1700000000 @ '' +0000'',
      [],
      ''checkpoint:old'', ''sessionId s1'', ''turn 3'', ''head '' @ sha_of 1,
      ''index-tree '' @ sha_of 0, ''worktree-tree '' @ sha_of 0]"
  by (simp add: example_refs_basics
      render_commit_lines [OF single_line_checkpoint_ident single_line_checkpoint_ident]
      lines_append lines_last single_line_sha_of is_line_terminator_def)

lemma example_bad_lines:
  "split_on is_line_terminator (render_commit (objects example_world_refs ! 3)) =
     [''tree '' @ sha_of 0,
      ''author '' @ checkpoint_ident @ '' '' @ show_nat 1700000000 @ '' +0000'',
      ''committer '' @ checkpoint_ident @ '' '' @ show_nat 1700000000 @ '' +0000'',
      [],
      ''checkpoint:bad'', ''sessionId s1'', ''turn 3'']"
  by (simp add: example_refs_basics
      render_commit_lines [OF single_line_checkpoint_ident single_line_checkpoint_ident]
      lines_append lines_last single_line_sha_of is_line_terminator_def)

text \<open>The theorem in the example repository with the two refs.\<close>

theorem loadCheckpointFromRef_total_witness:
  "loadCheckpointFromRef ''/elsewhere'' ''old'' example_world_refs = (Inr None, example_world_refs)
   \<and> loadCheckpointFromRef ''/repo'' ''missing'' example_world_refs = (Inr None, example_world_refs)
   \<and> loadCheckpointFromRef ''/repo'' ''bad'' example_world_refs = (Inr None, example_world_refs)
   \<and> (\<exists>d. loadCheckpointFromRef ''/repo'' ''old'' example_world_refs = (Inr (Some d), example_world_refs)
          \<and> timestamp d = Num 0)"
proof -
  have old: "match_key ''sessionId'' (render_commit (objects example_world_refs ! 2)) \<noteq> None
           \<and> match_turn (render_commit (objects example_world_refs ! 2)) \<noteq> None
           \<and> match_key ''head'' (render_commit (objects example_world_refs ! 2)) \<noteq> None
           \<and> match_key ''index-tree'' (render_commit (objects example_world_refs ! 2)) \<noteq> None
           \<and> match_key ''worktree-tree'' (render_commit (objects example_world_refs ! 2)) \<noteq> None
           \<and> match_key ''created'' (render_commit (objects example_world_refs ! 2)) = None"
    by (simp add: match_key_def match_turn_def example_old_lines sha_of_nonempty is_digit_def)
  have bad: "match_key ''head'' (render_commit (objects example_world_refs ! 3)) = None"
    by (simp add: match_key_def example_bad_lines)
  have obj2: "\<forall>es. objects example_world_refs ! 2 \<noteq> Tree es"
    and obj3: "\<forall>es. objects example_world_refs ! 3 \<noteq> Tree es"
    by (simp_all add: example_refs_basics)
  note b = example_refs_basics
  have c1: "loadCheckpointFromRef ''/elsewhere'' ''old'' example_world_refs = (Inr None, example_world_refs)"
    using loadCheckpointFromRef_total [of "''/elsewhere''" "''old''" example_world_refs] b(2)
    by blast
  have c2: "loadCheckpointFromRef ''/repo'' ''missing'' example_world_refs = (Inr None, example_world_refs)"
    using loadCheckpointFromRef_total [of "''/repo''" "''missing''" example_world_refs] b(5)
    by blast
  have c3: "loadCheckpointFromRef ''/repo'' ''bad'' example_world_refs = (Inr None, example_world_refs)"
    using loadCheckpointFromRef_total [of "''/repo''" "''bad''" example_world_refs,
        THEN conjunct2, THEN conjunct2, THEN conjunct2, THEN conjunct2, rule_format, of 3,
        THEN conjunct1]
      b(1) b(10) b(4) b(6) obj3 bad
    by simp
  have c4: "\<exists>d. loadCheckpointFromRef ''/repo'' ''old'' example_world_refs
        = (Inr (Some d), example_world_refs) \<and> timestamp d = Num 0"
    using loadCheckpointFromRef_total [of "''/repo''" "''old''" example_world_refs,
        THEN conjunct2, THEN conjunct2, THEN conjunct2, THEN conjunct2, rule_format, of 2,
        THEN conjunct2]
      b(1) b(9) b(3) b(6) obj2 old
    by simp
  show ?thesis
    using c1 c2 c3 c4 by blast
qed

section \<open>What a capture includes\<close>

lemma createCheckpoint_succeeds:
  assumes "toplevel w cwd \<noteq> None"
    and "git_date w (toISOString w (clock w (clock_reads w))) \<noteq> None"
    and "plain_refname (REF_BASE @ ''/'' @ ident)"
    and "\<not> ref_locked w (REF_BASE @ ''/'' @ ident)"
  shows "\<exists>d. fst (createCheckpoint cwd ident turn sid w) = Inr d"
  using assms
  by (auto simp: createCheckpoint_run Let_def checkpoint_try_block_run store_fields
      split: option.splits)

text \<open>The tree a capture names as the worktree tree.\<close>

lemma capture_tree:
  assumes "createCheckpoint cwd ident turn sid w = (Inr d, w')"
  shows "tree_of w' (worktreeTreeSha d) = Some (filter (\<lambda>(p, c). \<not> ignored w p) (worktree w))"
proof -
  from createCheckpoint_Inr [OF assms] obtain wt where
    "worktreeTreeSha d = sha_of wt" "wt < length (objects w')"
    "objects w' ! wt = Tree (filter (\<lambda>(p, c). \<not> ignored w p) (worktree w))"
    by auto
  then show ?thesis by (simp add: tree_of_def resolve_sha_of)
qed

text \<open>
  Claim C2, amended. After a capture the worktree tree of the record holds exactly the
  files on disk that the ignore-file rules do not exclude: \<open>git add -A .\<close> into the
  empty temporary index is the only selection that \<open>createCheckpoint\<close> makes. No
  size, no count of files and no directory name is looked at.
\<close>

theorem capture_takes_every_unignored_file:
  "createCheckpoint cwd ident turn sid w = (Inr d, w') \<Longrightarrow>
   tree_of w' (worktreeTreeSha d) = Some (filter (\<lambda>(p, c). \<not> ignored w p) (worktree w))
   \<and> (\<forall>p c. (p, c) \<in> set (worktree w) \<and> \<not> ignored w p \<longrightarrow>
         (\<exists>es. tree_of w' (worktreeTreeSha d) = Some es \<and> (p, c) \<in> set es))"
  using capture_tree by auto


text \<open>The theorem at a capture in the example repository.\<close>

theorem capture_takes_every_unignored_file_witness:
  "tree_of (snd (createCheckpoint ''/repo'' example_id 0 ''s1'' example_world)) (sha_of 3) =
     Some [(''a.txt'', ''one, edited''), (''new.txt'', ''fresh''), (''notes.txt'', ''n''),
           (''node_modules/x.js'', ''m'')]"
proof -
  let ?d = "\<lparr>ckpt_id = example_id, turnIndex = 0, sessionId = ''s1'', headSha = sha_of 1,
          indexTreeSha = sha_of 2, worktreeTreeSha = sha_of 3,
          timestamp = Num 1700000000000\<rparr>"
  have cc: "createCheckpoint ''/repo'' example_id 0 ''s1'' example_world =
      (Inr ?d, snd (createCheckpoint ''/repo'' example_id 0 ''s1'' example_world))"
    using example_capture [OF plain_example_id, of 0 "''s1''"]
    by (cases "createCheckpoint ''/repo'' example_id 0 ''s1'' example_world") simp
  have "filter (\<lambda>(p, c). \<not> ignored example_world p) (worktree example_world) =
      [(''a.txt'', ''one, edited''), (''new.txt'', ''fresh''), (''notes.txt'', ''n''),
       (''node_modules/x.js'', ''m'')]"
    by (simp add: example_world_def)
  then show ?thesis
    using capture_takes_every_unignored_file [OF cc] by simp
qed

lemma below_gen: "below ''gen'' (''gen/f'' @ s)"
  by (simp add: below_def strict_prefix_def)

text \<open>
  Claim C2 as stated fails. The worktree tree of a capture in the larger example holds an
  untracked file of more than 10 MiB, a file of an untracked directory of 201 files, and
  an untracked file below \<open>node_modules\<close>.
\<close>

theorem smart_filter_counterexample:
  "(case createCheckpoint ''/repo'' example_id 0 ''s1'' example_world_big of
      (Inl e, w') \<Rightarrow> False
    | (Inr d, w') \<Rightarrow>
        (case tree_of w' (worktreeTreeSha d) of
           None \<Rightarrow> False
         | Some es \<Rightarrow>
             (''huge.bin'', replicate 10485761 CHR ''x'') \<in> set es
             \<and> (''gen/f'' @ show_nat 0, ''g'') \<in> set es
             \<and> (''node_modules/x.js'', ''m'') \<in> set es))
   \<and> ''huge.bin'' \<notin> set (map fst (index example_world_big))
   \<and> spec_max_file_size < length (replicate 10485761 CHR ''x'')
   \<and> ''gen/f'' @ show_nat 0 \<notin> set (map fst (index example_world_big))
   \<and> spec_max_dir_files < length (files_below ''gen'' (worktree example_world_big))
   \<and> ''node_modules/x.js'' \<notin> set (map fst (index example_world_big))
   \<and> ''node_modules'' \<in> set (path_components ''node_modules/x.js'')
   \<and> ''node_modules'' \<in> set spec_ignored_dir_names"
proof -
  let ?W = example_world_big
  have ok: "toplevel ?W ''/repo'' \<noteq> None"
    "git_date ?W (toISOString ?W (clock ?W (clock_reads ?W))) \<noteq> None"
    "\<not> ref_locked ?W (REF_BASE @ ''/'' @ example_id)"
    by (simp_all add: example_world_big_def example_world_def)
  obtain d where d: "fst (createCheckpoint ''/repo'' example_id 0 ''s1'' ?W) = Inr d"
    using createCheckpoint_succeeds [OF ok(1) ok(2) plain_example_id ok(3)] by blast
  obtain w' where cc: "createCheckpoint ''/repo'' example_id 0 ''s1'' ?W = (Inr d, w')"
    using d by (cases "createCheckpoint ''/repo'' example_id 0 ''s1'' ?W") simp
  have ign: "ignored ?W = (\<lambda>p. p = ''build.log'')"
    by (simp add: example_world_big_def example_world_def)
  have wt: "worktree ?W = worktree example_world
          @ [(''huge.bin'', replicate 10485761 CHR ''x'')]
          @ map (\<lambda>i. (''gen/f'' @ show_nat i, ''g'')) [0 ..< 201]"
    by (simp add: example_world_big_def)
  have idx: "index ?W = [(''a.txt'', ''one''), (''new.txt'', ''fresh'')]"
    by (simp add: example_world_big_def example_world_def)
  have m1: "(''huge.bin'', replicate 10485761 CHR ''x'') \<in> set (worktree ?W)"
    by (simp add: wt)
  have m2: "(''gen/f'' @ show_nat 0, ''g'') \<in> set (worktree ?W)"
    unfolding wt by (auto intro!: image_eqI [where x = 0])
  have m3: "(''node_modules/x.js'', ''m'') \<in> set (worktree ?W)"
    by (simp add: wt example_world_def)
  have tree: "tree_of w' (worktreeTreeSha d) =
      Some (filter (\<lambda>(p, c). \<not> ignored ?W p) (worktree ?W))"
    by (rule capture_tree [OF cc])
  have part1: "(case createCheckpoint ''/repo'' example_id 0 ''s1'' ?W of
      (Inl e, w') \<Rightarrow> False
    | (Inr d, w') \<Rightarrow>
        (case tree_of w' (worktreeTreeSha d) of
           None \<Rightarrow> False
         | Some es \<Rightarrow>
             (''huge.bin'', replicate 10485761 CHR ''x'') \<in> set es
             \<and> (''gen/f'' @ show_nat 0, ''g'') \<in> set es
             \<and> (''node_modules/x.js'', ''m'') \<in> set es))"
    using m1 m2 m3 by (simp add: cc tree ign)
  have gen_all: "filter (\<lambda>(p, c). below ''gen'' p) (map (\<lambda>i. (''gen/f'' @ show_nat i, ''g'')) [0 ..< 201])
      = map (\<lambda>i. (''gen/f'' @ show_nat i, ''g'')) [0 ..< 201]"
    by (rule filter_True) (use below_gen in auto)
  have "length (files_below ''gen'' (worktree ?W)) \<ge> 201"
    unfolding files_below_def wt filter_append length_append gen_all by simp
  then have part2: "spec_max_dir_files < length (files_below ''gen'' (worktree ?W))"
    by (simp add: spec_max_dir_files_def)
  have part3: "''node_modules'' \<in> set (path_components ''node_modules/x.js'')"
    by (simp add: path_components_def)
  show ?thesis
    using part1 part2 part3
    by (simp add: idx spec_max_file_size_def spec_ignored_dir_names_def)
qed

section \<open>What a restore leaves on disk\<close>

lemma map_of_filter_key:
  "map_of (filter (\<lambda>(p, c). Q p) xs) k = (if Q k then map_of xs k else None)"
  by (induction xs) auto

lemma map_of_write_entries:
  "map_of (write_entries es wt) f =
     (case map_of es f of
        Some c \<Rightarrow> Some c
      | None \<Rightarrow> if in_the_way f es then None else map_of wt f)"
proof (cases "map_of es f")
  case None
  then have notin: "f \<notin> set (map fst es)"
    by (simp add: map_of_eq_None_iff)
  have "map_of (write_entries es wt) f =
      map_of (filter (\<lambda>(p, c). p \<notin> set (map fst es) \<and> \<not> in_the_way p es) wt) f"
    using None by (simp only: write_entries_def map_of_append map_add_def option.case)
  also have "\<dots> = (if f \<notin> set (map fst es) \<and> \<not> in_the_way f es then map_of wt f else None)"
    by (rule map_of_filter_key)
  finally show ?thesis
    using None notin by simp
next
  case (Some c)
  then show ?thesis by (simp add: write_entries_def map_add_def)
qed

lemma resolve_objects: "objects w1 = objects w \<Longrightarrow> resolve w1 = resolve w"
  by (simp add: resolve_def fun_eq_iff)

lemma tree_of_objects:
  assumes "objects w1 = objects w"
  shows "tree_of w1 = tree_of w"
  unfolding tree_of_def resolve_def fun_eq_iff assms by simp

lemma commit_tree_of_objects:
  assumes "objects w1 = objects w"
  shows "commit_tree_of w1 = commit_tree_of w"
  unfolding commit_tree_of_def resolve_def fun_eq_iff assms by simp

text \<open>The files on disk after each outcome of \<open>restoreCheckpoint\<close>.\<close>

lemma restoreCheckpoint_worktree:
  "worktree (snd (restoreCheckpoint cwd r w)) = worktree w
   \<or> worktree (snd (restoreCheckpoint cwd r w)) =
        write_entries (head_entries w r)
          (filter (\<lambda>(p, c). p \<notin> set (map fst (index w))) (worktree w))
   \<or> worktree (snd (restoreCheckpoint cwd r w)) =
        write_entries (snapshot_entries w r)
          (write_entries (head_entries w r)
             (filter (\<lambda>(p, c). p \<notin> set (map fst (index w))) (worktree w)))"
proof (cases "toplevel w cwd = None \<or> headSha r = ZEROS \<or> commit_tree_of w (headSha r) = None")
  case True
  then have "snd (restoreCheckpoint cwd r w) = w"
    by (auto simp: restoreCheckpoint_def getRepoRoot_def git_reset_hard_def io_defs
        split: option.splits)
  then show ?thesis by simp
next
  case False
  then obtain root hes where top: "toplevel w cwd = Some root" and nz: "headSha r \<noteq> ZEROS"
    and hes: "commit_tree_of w (headSha r) = Some hes"
    by auto
  define w1 where "w1 = w\<lparr>HEAD := resolve w (headSha r), index := hes,
      worktree := write_entries hes (filter (\<lambda>(p, c). p \<notin> set (map fst (index w))) (worktree w))\<rparr>"
  have o1: "objects w1 = objects w" by (simp add: w1_def)
  have t1: "tree_of w1 = tree_of w" by (rule tree_of_objects [OF o1])
  have c1: "commit_tree_of w1 = commit_tree_of w" by (rule commit_tree_of_objects [OF o1])
  have he: "head_entries w r = hes" by (simp add: head_entries_def hes)
  have run: "restoreCheckpoint cwd r w =
      io_bind (git_read_tree_reset (worktreeTreeSha r)) (\<lambda>u.
      io_bind git_checkout_index_all (\<lambda>u.
      git_read_tree_reset (indexTreeSha r))) w1"
    using top nz hes
    by (simp add: restoreCheckpoint_def getRepoRoot_def git_reset_hard_def io_bind_def w1_def)
  have ti1: "treeish_of w1 = treeish_of w"
    unfolding treeish_of_def fun_eq_iff t1 c1 by simp
  show ?thesis
  proof (cases "treeish_of w (worktreeTreeSha r)")
    case None
    then have "git_read_tree_reset (worktreeTreeSha r) w1
        = (Inl (ExecError ''git read-tree --reset''), w1)"
      by (simp add: git_read_tree_reset_def ti1 exec_failed_def)
    then have "snd (restoreCheckpoint cwd r w) = w1"
      by (simp add: run io_bind_def)
    then show ?thesis by (simp add: w1_def he)
  next
    case (Some tes)
    then have se: "snapshot_entries w r = tes"
      by (simp add: snapshot_entries_def)
    define w3 where "w3 = w1\<lparr>index := tes, worktree := write_entries tes (worktree w1)\<rparr>"
    have rt: "git_read_tree_reset (worktreeTreeSha r) w1 = (Inr (), w1\<lparr>index := tes\<rparr>)"
      using Some by (simp add: git_read_tree_reset_def ti1)
    have co: "git_checkout_index_all (w1\<lparr>index := tes\<rparr>) = (Inr (), w3)"
      by (simp add: git_checkout_index_all_def w3_def)
    have run3: "restoreCheckpoint cwd r w = git_read_tree_reset (indexTreeSha r) w3"
      by (simp add: run io_bind_def rt co)
    have "worktree (snd (git_read_tree_reset (indexTreeSha r) w3)) = worktree w3"
      by (cases "treeish_of w3 (indexTreeSha r)")
        (simp_all add: git_read_tree_reset_def exec_failed_def)
    then show ?thesis
      by (simp add: run3 w3_def w1_def he se)
  qed
qed

text \<open>
  Claim C1, amended. Let \<open>headSha\<close>, \<open>indexTreeSha\<close> and \<open>worktreeTreeSha\<close> of the
  record be full object names, as \<open>createCheckpoint\<close> writes them (\<open>restoreCheckpoint\<close>
  puts the three strings into command lines as they are, lines 199, 203 and 213, and what
  the shell and git do with any other string is not covered). Then, whatever the
  outcome of \<open>restoreCheckpoint\<close> (success, or failure at any step), a file that is
  untracked when the restore starts (no entry of the index), that is not in the worktree
  tree of the record, and that does not stand in the way of a path of that tree or of the
  tree of the head commit (it is no directory of such a path and lies in no directory
  that such a path names as a file) is not deleted; its content is unchanged when the
  tree of the head commit does not hold it either.
\<close>

theorem restore_keeps_untracked_files:
  assumes "object_name (headSha r)"
    and "object_name (indexTreeSha r)"
    and "object_name (worktreeTreeSha r)"
    and "f \<notin> set (map fst (index w))"
    and "f \<notin> set (map fst (snapshot_entries w r))"
    and "\<not> in_the_way f (snapshot_entries w r)"
    and "\<not> in_the_way f (head_entries w r)"
  shows "(map_of (worktree w) f \<noteq> None \<longrightarrow>
            map_of (worktree (snd (restoreCheckpoint cwd r w))) f \<noteq> None)
     \<and> (f \<notin> set (map fst (head_entries w r)) \<longrightarrow>
            map_of (worktree (snd (restoreCheckpoint cwd r w))) f = map_of (worktree w) f)"
proof -
  let ?kept = "filter (\<lambda>(p, c). p \<notin> set (map fst (index w))) (worktree w)"
  have "map_of ?kept f = (if f \<notin> set (map fst (index w)) then map_of (worktree w) f else None)"
    by (rule map_of_filter_key)
  then have kept: "map_of ?kept f = map_of (worktree w) f"
    using assms(4) by simp
  have snap: "map_of (snapshot_entries w r) f = None"
    using assms(5) by (simp add: map_of_eq_None_iff)
  let ?after = "case map_of (head_entries w r) f of Some c \<Rightarrow> Some c | None \<Rightarrow> map_of (worktree w) f"
  have step1: "map_of (write_entries (head_entries w r) ?kept) f = ?after"
    unfolding map_of_write_entries kept using assms(7) by (simp split: option.splits)
  have step3: "map_of (write_entries (snapshot_entries w r)
        (write_entries (head_entries w r) ?kept)) f = ?after"
    unfolding map_of_write_entries [of "snapshot_entries w r"] snap step1
    using assms(6) by simp
  have stays: "map_of (worktree w) f \<noteq> None \<Longrightarrow> ?after \<noteq> None"
    by (simp split: option.splits)
  have same: "f \<notin> set (map fst (head_entries w r)) \<Longrightarrow> ?after = map_of (worktree w) f"
    by (simp add: map_of_eq_None_iff [THEN iffD2])
  consider
    (unchanged) "worktree (snd (restoreCheckpoint cwd r w)) = worktree w"
  | (reset) "worktree (snd (restoreCheckpoint cwd r w)) = write_entries (head_entries w r) ?kept"
  | (restored) "worktree (snd (restoreCheckpoint cwd r w)) =
        write_entries (snapshot_entries w r) (write_entries (head_entries w r) ?kept)"
    using restoreCheckpoint_worktree [of cwd r w] by blast
  then show ?thesis
  proof cases
    case unchanged
    then show ?thesis by simp
  next
    case reset
    then show ?thesis using step1 stays same by simp
  next
    case restored
    then show ?thesis using step3 stays same by simp
  qed
qed


lemmas restore_eval =
  restoreCheckpoint_def getRepoRoot_def git_reset_hard_def git_read_tree_reset_def
  git_checkout_index_all_def io_bind_def io_throw_def exec_failed_def treeish_of_def tree_of_def
  commit_tree_of_def resolve_sha_of sha_of_not_ZEROS write_entries_def in_the_way_def below_def
  example_old_record_def

lemma example_world_fields:
  "toplevel example_world ''/repo'' = Some ''/repo''"
  "index example_world = [(''a.txt'', ''one''), (''new.txt'', ''fresh'')]"
  "worktree example_world =
     [(''a.txt'', ''one, edited''), (''new.txt'', ''fresh''), (''notes.txt'', ''n''),
      (''node_modules/x.js'', ''m''), (''build.log'', ''l'')]"
  "objects example_world =
     [Tree [(''a.txt'', ''one'')],
      Commit 0 ''dev <dev@example.org>'' 1699990000 ''dev <dev@example.org>'' 1699990000 ''init'']"
  by (simp_all add: example_world_def)

lemma example_world_dir_fields:
  "toplevel example_world_dir ''/repo'' = Some ''/repo''"
  "index example_world_dir = []"
  "worktree example_world_dir = [(''a.txt/inner'', ''u'')]"
  "objects example_world_dir =
     [Tree [(''a.txt'', ''one'')],
      Commit 0 ''dev <dev@example.org>'' 1699990000 ''dev <dev@example.org>'' 1699990000 ''init'']"
  by (simp_all add: example_world_dir_def example_world_def)

lemma example_old_record_trees:
  "head_entries example_world example_old_record = [(''a.txt'', ''one'')]"
  "snapshot_entries example_world example_old_record = [(''a.txt'', ''one'')]"
  "head_entries example_world_dir example_old_record = [(''a.txt'', ''one'')]"
  "snapshot_entries example_world_dir example_old_record = [(''a.txt'', ''one'')]"
  by (simp_all add: head_entries_def snapshot_entries_def treeish_of_def tree_of_def
      commit_tree_of_def resolve_sha_of example_old_record_def example_world_fields
      example_world_dir_fields)

text \<open>The theorem at the untracked file \<open>notes.txt\<close> of the example repository.\<close>

theorem restore_keeps_untracked_files_witness:
  "map_of (worktree example_world) ''notes.txt'' = Some ''n''
   \<and> map_of (worktree (snd (restoreCheckpoint ''/repo'' example_old_record example_world)))
        ''notes.txt'' = Some ''n''"
proof -
  have h1: "''notes.txt'' \<notin> set (map fst (index example_world))"
    by (simp add: example_world_fields)
  have h2: "''notes.txt'' \<notin> set (map fst (snapshot_entries example_world example_old_record))"
    by (simp add: example_old_record_trees)
  have h3: "\<not> in_the_way ''notes.txt'' (snapshot_entries example_world example_old_record)"
    by (simp add: example_old_record_trees in_the_way_def below_def)
  have h4: "\<not> in_the_way ''notes.txt'' (head_entries example_world example_old_record)"
    by (simp add: example_old_record_trees in_the_way_def below_def)
  have h5: "''notes.txt'' \<notin> set (map fst (head_entries example_world example_old_record))"
    by (simp add: example_old_record_trees)
  have h6: "map_of (worktree example_world) ''notes.txt'' = Some ''n''"
    by (simp add: example_world_fields)
  have n1: "object_name (headSha example_old_record)"
    and n2: "object_name (indexTreeSha example_old_record)"
    and n3: "object_name (worktreeTreeSha example_old_record)"
    by (simp_all add: example_old_record_def object_name_sha_of)
  show ?thesis
    using restore_keeps_untracked_files [OF n1 n2 n3 h1 h2 h3 h4, of "''/repo''"] h5 h6 by simp
qed

text \<open>
  Claim C1 as stated fails. \<open>new.txt\<close> was created and staged after the record was
  taken and is not in its worktree tree: step 1, \<open>git reset --hard\<close>, removes it with
  the other entries of the index. And an untracked file inside a directory that stands
  where the trees have the file \<open>a.txt\<close> is removed with that directory.
\<close>

theorem restore_deletes_counterexample:
  "map_of (worktree example_world) ''new.txt'' = Some ''fresh''
   \<and> ''new.txt'' \<notin> set (map fst (snapshot_entries example_world example_old_record))
   \<and> fst (restoreCheckpoint ''/repo'' example_old_record example_world) = Inr ()
   \<and> map_of (worktree (snd (restoreCheckpoint ''/repo'' example_old_record example_world)))
        ''new.txt'' = None
   \<and> map_of (worktree example_world_dir) ''a.txt/inner'' = Some ''u''
   \<and> ''a.txt/inner'' \<notin> set (map fst (index example_world_dir))
   \<and> ''a.txt/inner'' \<notin> set (map fst (snapshot_entries example_world_dir example_old_record))
   \<and> fst (restoreCheckpoint ''/repo'' example_old_record example_world_dir) = Inr ()
   \<and> map_of (worktree (snd (restoreCheckpoint ''/repo'' example_old_record example_world_dir)))
        ''a.txt/inner'' = None"
proof -
  have r1: "restoreCheckpoint ''/repo'' example_old_record example_world =
      (Inr (), example_world\<lparr>HEAD := Some 1, index := [(''a.txt'', ''one'')],
         worktree := [(''a.txt'', ''one''), (''notes.txt'', ''n''),
                      (''node_modules/x.js'', ''m''), (''build.log'', ''l'')]\<rparr>)"
    by (simp add: restore_eval example_world_fields)
  have r2: "restoreCheckpoint ''/repo'' example_old_record example_world_dir =
      (Inr (), example_world_dir\<lparr>HEAD := Some 1, index := [(''a.txt'', ''one'')],
         worktree := [(''a.txt'', ''one'')]\<rparr>)"
    by (simp add: restore_eval example_world_dir_fields)
  show ?thesis
    unfolding r1 r2
    by (simp add: example_old_record_trees example_world_fields example_world_dir_fields)
qed

section \<open>Pruning\<close>






lemma catch_unit_total: "\<exists>w'. io_catch m (\<lambda>e. io_return ()) w = (Inr (), w')"
  by (cases "m w"; cases "fst (m w)") (auto simp: io_catch_def io_return_def)

lemma refs_by_age_subset: "set (refs_by_age pfx w) \<subseteq> set (refs w)"
  by (auto simp: refs_by_age_def refs_below_def)




















section \<open>The choice to restore the oldest checkpoint\<close>

lemma restoreCheckpoint_keeps_store:
  "refs (snd (restoreCheckpoint cwd r w)) = refs w
   \<and> objects (snd (restoreCheckpoint cwd r w)) = objects w"
  by (auto simp: restoreCheckpoint_def getRepoRoot_def git_reset_hard_def git_read_tree_reset_def
      git_checkout_index_all_def io_defs split: option.splits)

lemma example_restore_oldest:
  "restoreCheckpoint ''/repo'' example_old_record (example_world\<lparr>clock_reads := Suc 0\<rparr>) =
      (Inr (), example_world\<lparr>clock_reads := Suc 0, HEAD := Some 1, index := [(''a.txt'', ''one'')],
         worktree := [(''a.txt'', ''one''), (''notes.txt'', ''n''),
                      (''node_modules/x.js'', ''m''), (''build.log'', ''l'')]\<rparr>)"
  by (simp add: restore_eval example_world_fields)

lemma example_timestamps:
  "timestamp example_old_record = Num 1699990000000"
  "timestamp example_new_record = Num 1700000000000"
  by (simp_all add: example_new_record_def example_old_record_def)

lemma example_all: "allCheckpoints [example_old_record, example_new_record] =
    [example_new_record, example_old_record]"
  by (simp add: allCheckpoints_def example_timestamps)

text \<open>
  Claim C6 at the choice "Restore oldest checkpoint (keep conversation)" (lines 524 to
  537): the handler calls \<open>restoreCheckpoint\<close> on the oldest record and nothing before
  it. Whatever the restore does, the records of the hook are the same afterwards, and so
  are the refs and the objects of the repository: no checkpoint of the state before the
  restore was created or registered. In the example session the restore succeeds: the
  edit of \<open>a.txt\<close> and the file \<open>new.txt\<close> are gone, and no ref holds them.
\<close>

theorem restore_oldest_takes_no_snapshot:
  "(case branch_apply cwd t allCps checkpoint
           (Some ''Restore oldest checkpoint (keep conversation)'') (s, w) of
      (r, (s', w')) \<Rightarrow>
        r = Inr SkipConversationRestore \<and> s' = s \<and> refs w' = refs w \<and> objects w' = objects w)
   \<and> branch [] 0 ''/repo'' choose_oldest (example_hook, example_world) =
       (Inr SkipConversationRestore,
        (example_hook,
         example_world\<lparr>clock_reads := Suc 0, HEAD := Some 1, index := [(''a.txt'', ''one'')],
           worktree := [(''a.txt'', ''one''), (''notes.txt'', ''n''),
                        (''node_modules/x.js'', ''m''), (''build.log'', ''l'')],
           notified := [(''Restored to oldest checkpoint'', ''info'')]\<rparr>))"
proof
  obtain r w1 where rw: "restoreCheckpoint cwd (last allCps) w = (r, w1)"
    by (cases "restoreCheckpoint cwd (last allCps) w")
  have keep: "refs w1 = refs w \<and> objects w1 = objects w"
    using restoreCheckpoint_keeps_store [of cwd "last allCps" w] by (simp add: rw)
  show "case branch_apply cwd t allCps checkpoint
           (Some ''Restore oldest checkpoint (keep conversation)'') (s, w) of
      (r, (s', w')) \<Rightarrow>
        r = Inr SkipConversationRestore \<and> s' = s \<and> refs w' = refs w \<and> objects w' = objects w"
    using keep
    by (cases r) (simp_all add: branch_apply_def io_defs in_world_def notify_def rw)
next
  show "branch [] 0 ''/repo'' choose_oldest (example_hook, example_world) =
       (Inr SkipConversationRestore,
        (example_hook,
         example_world\<lparr>clock_reads := Suc 0, HEAD := Some 1, index := [(''a.txt'', ''one'')],
           worktree := [(''a.txt'', ''one''), (''notes.txt'', ''n''),
                        (''node_modules/x.js'', ''m''), (''build.log'', ''l'')],
           notified := [(''Restored to oldest checkpoint'', ''info'')]\<rparr>))"
  proof -
    have sel: "select_checkpoint [example_old_record, example_new_record] (Num 1700000000000) =
        Inr example_new_record"
      unfolding select_checkpoint_def example_all checkpointsAtOrAfterTarget_def
      by (simp add: example_timestamps)
    have opts: "choose_oldest (restore_options True) =
        Some ''Restore oldest checkpoint (keep conversation)''"
      by (simp add: choose_oldest_def restore_options_def)
    have prep: "branch_prepare [] ''/repo'' (example_hook, example_world) =
        (Inr (), (example_hook, example_world))"
      by (simp add: branch_prepare_def await_all_pending_def read_hook_def io_defs example_hook_def)
    have now: "in_world (target_timestamp [] 0) (example_hook, example_world) =
        (Inr (Num 1700000000000), (example_hook, example_world\<lparr>clock_reads := Suc 0\<rparr>))"
      by (simp add: in_world_def target_timestamp_def Date_now_def io_defs example_world_def)
    have n: "notified example_world = []" by (simp add: example_world_def)
    have app: "branch_apply ''/repo'' 0 [example_new_record, example_old_record] example_new_record
        (Some ''Restore oldest checkpoint (keep conversation)'')
        (example_hook, example_world\<lparr>clock_reads := Suc 0\<rparr>) =
       (Inr SkipConversationRestore,
        (example_hook,
         example_world\<lparr>clock_reads := Suc 0, HEAD := Some 1, index := [(''a.txt'', ''one'')],
           worktree := [(''a.txt'', ''one''), (''notes.txt'', ''n''),
                        (''node_modules/x.js'', ''m''), (''build.log'', ''l'')],
           notified := [(''Restored to oldest checkpoint'', ''info'')]\<rparr>))"
      by (simp add: branch_apply_def io_defs in_world_def notify_def example_restore_oldest n)
    have cc: "completedCheckpoints example_hook = [example_old_record, example_new_record]"
      by (simp add: example_hook_def)
    have dec: "branch_decide [] 0 ''/repo'' choose_oldest (example_hook, example_world) =
        branch_apply ''/repo'' 0 [example_new_record, example_old_record] example_new_record
        (Some ''Restore oldest checkpoint (keep conversation)'')
        (example_hook, example_world\<lparr>clock_reads := Suc 0\<rparr>)"
      unfolding branch_decide_def io_bind_def read_hook_def
      by (simp add: cc example_all now sel opts)
    show ?thesis
      unfolding branch_def io_bind_def read_hook_def
      by (simp add: prep dec app) (simp add: example_hook_def)
  qed
qed

section \<open>A failed capture\<close>

lemma keeps_return: "keeps_flag (io_return x)"
  by (simp add: keeps_flag_def io_return_def)

lemma keeps_throw: "keeps_flag (io_throw e)"
  by (simp add: keeps_flag_def io_throw_def)

lemma keeps_bind: "keeps_flag m \<Longrightarrow> (\<And>x. keeps_flag (f x)) \<Longrightarrow> keeps_flag (io_bind m f)"
  unfolding keeps_flag_def io_bind_def
proof (intro allI impI)
  fix c :: config
  assume m: "\<forall>c. checkpointingFailed (fst c) \<longrightarrow>
        checkpointingFailed (fst (snd (m c)))
        \<and> length (pendingCheckpoints (fst (snd (m c)))) = length (pendingCheckpoints (fst c))"
    and f: "\<And>x. \<forall>c. checkpointingFailed (fst c) \<longrightarrow>
        checkpointingFailed (fst (snd (f x c)))
        \<and> length (pendingCheckpoints (fst (snd (f x c)))) = length (pendingCheckpoints (fst c))"
    and c: "checkpointingFailed (fst c)"
  obtain r c1 where mc: "m c = (r, c1)" by (cases "m c")
  have c1: "checkpointingFailed (fst c1)
      \<and> length (pendingCheckpoints (fst c1)) = length (pendingCheckpoints (fst c))"
    using m [rule_format, OF c] by (simp add: mc)
  show "checkpointingFailed (fst (snd (case m c of (Inl e, w') \<Rightarrow> (Inl e, w') | (Inr a, w') \<Rightarrow> f a w')))
      \<and> length (pendingCheckpoints (fst (snd (case m c of (Inl e, w') \<Rightarrow> (Inl e, w') | (Inr a, w') \<Rightarrow> f a w'))))
          = length (pendingCheckpoints (fst c))"
  proof (cases r)
    case (Inl e)
    then show ?thesis using c1 by (simp add: mc)
  next
    case (Inr a)
    then show ?thesis using c1 f [of a, rule_format, of c1] by (simp add: mc)
  qed
qed

lemma keeps_catch: "keeps_flag m \<Longrightarrow> (\<And>e. keeps_flag (h e)) \<Longrightarrow> keeps_flag (io_catch m h)"
  unfolding keeps_flag_def io_catch_def
proof (intro allI impI)
  fix c :: config
  assume m: "\<forall>c. checkpointingFailed (fst c) \<longrightarrow>
        checkpointingFailed (fst (snd (m c)))
        \<and> length (pendingCheckpoints (fst (snd (m c)))) = length (pendingCheckpoints (fst c))"
    and h: "\<And>x. \<forall>c. checkpointingFailed (fst c) \<longrightarrow>
        checkpointingFailed (fst (snd (h x c)))
        \<and> length (pendingCheckpoints (fst (snd (h x c)))) = length (pendingCheckpoints (fst c))"
    and c: "checkpointingFailed (fst c)"
  obtain r c1 where mc: "m c = (r, c1)" by (cases "m c")
  have c1: "checkpointingFailed (fst c1)
      \<and> length (pendingCheckpoints (fst c1)) = length (pendingCheckpoints (fst c))"
    using m [rule_format, OF c] by (simp add: mc)
  show "checkpointingFailed (fst (snd (case m c of (Inl e, w') \<Rightarrow> h e w' | (Inr a, w') \<Rightarrow> (Inr a, w'))))
      \<and> length (pendingCheckpoints (fst (snd (case m c of (Inl e, w') \<Rightarrow> h e w' | (Inr a, w') \<Rightarrow> (Inr a, w')))))
          = length (pendingCheckpoints (fst c))"
  proof (cases r)
    case (Inl e)
    then show ?thesis using c1 h [of e, rule_format, of c1] by (simp add: mc)
  next
    case (Inr a)
    then show ?thesis using c1 by (simp add: mc)
  qed
qed

lemma keeps_in_world: "keeps_flag (in_world m)"
  by (simp add: keeps_flag_def in_world_def split: prod.splits)

lemma keeps_read: "keeps_flag (read_hook f)"
  by (simp add: keeps_flag_def read_hook_def split: prod.splits)

lemma keeps_notify: "keeps_flag (notify msg level)"
  by (simp add: keeps_flag_def notify_def split: prod.splits)

lemma keeps_update:
  "(\<And>s. checkpointingFailed s \<Longrightarrow>
      checkpointingFailed (f s) \<and> length (pendingCheckpoints (f s)) = length (pendingCheckpoints s))
   \<Longrightarrow> keeps_flag (update_hook f)"
  by (simp add: keeps_flag_def update_hook_def split: prod.splits)

lemma keeps_if: "(b \<Longrightarrow> keeps_flag m) \<Longrightarrow> (\<not> b \<Longrightarrow> keeps_flag n) \<Longrightarrow> keeps_flag (if b then m else n)"
  by simp

lemma keeps_case_option:
  "keeps_flag a \<Longrightarrow> (\<And>x. keeps_flag (f x)) \<Longrightarrow> keeps_flag (case v of None \<Rightarrow> a | Some x \<Rightarrow> f x)"
  by (cases v) simp_all

lemma keeps_case_sum:
  "(\<And>x. keeps_flag (f x)) \<Longrightarrow> (\<And>x. keeps_flag (g x)) \<Longrightarrow>
   keeps_flag (case v of Inl x \<Rightarrow> f x | Inr x \<Rightarrow> g x)"
  by (cases v) simp_all

lemmas keeps_intros =
  keeps_return keeps_throw keeps_bind keeps_catch keeps_in_world keeps_read keeps_notify
  keeps_if keeps_case_option keeps_case_sum

lemma keeps_capture_task: "keeps_flag (capture_task cwd ident turn sid)"
  unfolding capture_task_def
  by (intro keeps_intros keeps_update) simp_all

lemma capture_task_total: "\<exists>v c'. capture_task cwd ident turn sid c = (Inr v, c')"
proof -
  have catch: "\<exists>v c'. io_catch m (\<lambda>err. io_bind (update_hook g) (\<lambda>u. io_return None)) c = (Inr v, c')"
    for m :: "(config, CheckpointData option) io" and g
    by (cases "m c"; cases "fst (m c)")
       (auto simp: io_catch_def io_bind_def io_return_def update_hook_def split: prod.splits)
  show ?thesis unfolding capture_task_def by (rule catch)
qed

lemma settle_kept: "checkpointingFailed (fst c) \<Longrightarrow> flag_kept c (settle k c)"
proof -
  assume c: "checkpointingFailed (fst c)"
  obtain s w where sw: "c = (s, w)" by (cases c)
  show ?thesis
  proof (cases "k < length (pendingCheckpoints s)")
    case False
    then show ?thesis using c by (simp add: settle_def sw flag_kept_def)
  next
    case True
    show ?thesis
    proof (cases "pendingCheckpoints s ! k")
      case (Pending cwd ident turn sid)
      obtain v s' w' where ct: "capture_task cwd ident turn sid (s, w) = (Inr v, (s', w'))"
        using capture_task_total [of cwd ident turn sid "(s, w)"] by auto
      have "checkpointingFailed s' \<and> length (pendingCheckpoints s') = length (pendingCheckpoints s)"
        using keeps_capture_task [of cwd ident turn sid, unfolded keeps_flag_def, rule_format, of "(s, w)"]
          c by (simp add: ct sw)
      then show ?thesis using True Pending by (simp add: settle_def sw flag_kept_def ct)
    next
      case (Fulfilled v)
      then show ?thesis using c True by (simp add: settle_def sw flag_kept_def)
    next
      case (Rejected e)
      then show ?thesis using c True by (simp add: settle_def sw flag_kept_def)
    qed
  qed
qed

lemma flag_kept_refl: "checkpointingFailed (fst c) \<Longrightarrow> flag_kept c c"
  by (simp add: flag_kept_def)

lemma flag_kept_trans: "flag_kept a b \<Longrightarrow> flag_kept b c \<Longrightarrow> flag_kept a c"
  by (simp add: flag_kept_def)

lemma fold_settle_kept: "checkpointingFailed (fst c) \<Longrightarrow> flag_kept c (fold settle ks c)"
proof (induction ks arbitrary: c)
  case Nil
  then show ?case by (simp add: flag_kept_refl)
next
  case (Cons k ks)
  have a: "flag_kept c (settle k c)" using Cons.prems by (rule settle_kept)
  then have "checkpointingFailed (fst (settle k c))" by (simp add: flag_kept_def)
  then have "flag_kept (settle k c) (fold settle ks (settle k c))" by (rule Cons.IH)
  then show ?case using a by (simp add: flag_kept_trans)
qed

lemma keeps_await: "keeps_flag await_all_pending"
  unfolding keeps_flag_def
proof (intro allI impI)
  fix c :: config
  assume "checkpointingFailed (fst c)"
  then have "flag_kept c (fold settle [0 ..< length (pendingCheckpoints (fst c))] c)"
    by (rule fold_settle_kept)
  then show "checkpointingFailed (fst (snd (await_all_pending c)))
      \<and> length (pendingCheckpoints (fst (snd (await_all_pending c)))) = length (pendingCheckpoints (fst c))"
    by (simp add: await_all_pending_def Let_def flag_kept_def split: option.splits)
qed

lemma keeps_load_each: "keeps_flag (load_each cwd sid rs)"
proof (induction rs)
  case Nil
  then show ?case by (simp add: keeps_return)
next
  case (Cons r rs)
  show ?case
    unfolding load_each.simps
    by (intro keeps_intros keeps_update Cons) simp_all
qed

lemma keeps_load: "keeps_flag (loadCheckpointsForSession cwd sid b)"
  unfolding loadCheckpointsForSession_def
  by (intro keeps_intros keeps_update keeps_load_each) simp_all

lemma keeps_session_start: "keeps_flag (session_start cwd sessionFile)"
proof -
  have "keeps_flag (\<lambda>(s, w). (Inr (),
                    (s\<lparr>currentSessionFile := sessionFile,
                       currentSessionId := getSessionIdFromFile w sessionFile\<rparr>, w)))"
    by (simp add: keeps_flag_def split: prod.splits)
  then show ?thesis
    unfolding session_start_def
    by (intro keeps_intros keeps_update keeps_load) simp_all
qed

lemma keeps_session_switch: "keeps_flag (session_switch reason f)"
  by (simp add: keeps_flag_def session_switch_def split: prod.splits)

lemma turn_start_disabled:
  "checkpointingFailed (fst c) \<Longrightarrow> turn_start ti ts cwd c = (Inr (), c)"
  by (cases c) (simp add: turn_start_def)

lemma keeps_turn_start: "keeps_flag (turn_start ti ts cwd)"
  by (simp add: keeps_flag_def turn_start_disabled)

lemma keeps_save_then_restore: "keeps_flag (save_then_restore cwd t r)"
  unfolding save_then_restore_def
  by (intro keeps_intros keeps_update) simp_all

lemma keeps_branch_apply: "keeps_flag (branch_apply cwd t allCps r choice)"
  unfolding branch_apply_def
  by (intro keeps_intros keeps_save_then_restore)

lemma keeps_branch_decide: "keeps_flag (branch_decide entries t cwd ui)"
  unfolding branch_decide_def
  by (intro keeps_intros keeps_branch_apply)

lemma keeps_branch_prepare: "keeps_flag (branch_prepare entries cwd)"
  unfolding branch_prepare_def
  by (intro keeps_intros keeps_await keeps_load)

lemma keeps_branch: "keeps_flag (branch entries t cwd ui)"
  unfolding branch_def
  by (intro keeps_intros keeps_branch_prepare keeps_branch_decide)

lemma step_kept: "checkpointingFailed (fst c) \<Longrightarrow> flag_kept c (step ev c)"
proof (cases ev)
  case (Settle k)
  assume "checkpointingFailed (fst c)"
  then show ?thesis using Settle by (simp add: settle_kept)
qed (simp_all add: flag_kept_def
      keeps_session_start [unfolded keeps_flag_def, rule_format]
      keeps_turn_start [unfolded keeps_flag_def, rule_format]
      keeps_branch [unfolded keeps_flag_def, rule_format]
      keeps_session_switch [unfolded keeps_flag_def, rule_format])

lemma run_kept: "checkpointingFailed (fst c) \<Longrightarrow> flag_kept c (run evs c)"
proof (induction evs arbitrary: c)
  case Nil
  then show ?case by (simp add: run_def flag_kept_refl)
next
  case (Cons ev evs)
  have a: "flag_kept c (step ev c)" using Cons.prems by (rule step_kept)
  then have "checkpointingFailed (fst (step ev c))" by (simp add: flag_kept_def)
  then have "flag_kept (step ev c) (run evs (step ev c))" by (rule Cons.IH)
  then show ?case using a by (simp add: run_def flag_kept_trans)
qed

lemma settle_failure:
  assumes "k < length (pendingCheckpoints s)"
    and "pendingCheckpoints s ! k = Pending cwd ident turn sid"
    and "fst (createCheckpoint cwd ident turn sid w) = Inl e"
  shows "settle k (s, w) =
      (s\<lparr>checkpointingFailed := True,
          pendingCheckpoints := (pendingCheckpoints s)[k := Fulfilled None]\<rparr>,
       snd (createCheckpoint cwd ident turn sid w))"
proof -
  obtain w' where cc: "createCheckpoint cwd ident turn sid w = (Inl e, w')"
    using assms(3) by (cases "createCheckpoint cwd ident turn sid w") simp
  have "capture_task cwd ident turn sid (s, w) = (Inr None, (s\<lparr>checkpointingFailed := True\<rparr>, w'))"
    by (simp add: capture_task_def io_defs in_world_def update_hook_def cc)
  then show ?thesis using assms(1,2) by (simp add: settle_def cc)
qed

text \<open>
  Claim C8. The handler of \<open>turn_start\<close> never throws and does not touch the
  repository: the capture it starts runs later, as a promise. That promise is never
  rejected; when its \<open>createCheckpoint\<close> fails, it is fulfilled with \<open>null\<close> and
  \<open>checkpointingFailed\<close> is set. Once the flag is set, it stays set through every
  sequence of events of the hook, no promise is added to \<open>pendingCheckpoints\<close>, and
  every \<open>turn_start\<close> returns at once and changes nothing.
\<close>

theorem capture_failure_contained:
  "(\<exists>s'. turn_start ti ts cwd (s, w) = (Inr (), (s', w)))
   \<and> (\<exists>v c'. capture_task cwd ident turn sid (s, w) = (Inr v, c'))
   \<and> (k < length (pendingCheckpoints s)
        \<and> pendingCheckpoints s ! k = Pending cwd ident turn sid
        \<and> fst (createCheckpoint cwd ident turn sid w) = Inl e \<longrightarrow>
      settle k (s, w) =
        (s\<lparr>checkpointingFailed := True,
            pendingCheckpoints := (pendingCheckpoints s)[k := Fulfilled None]\<rparr>,
         snd (createCheckpoint cwd ident turn sid w)))
   \<and> (checkpointingFailed s \<longrightarrow>
        (\<forall>evs. checkpointingFailed (fst (run evs (s, w)))
           \<and> length (pendingCheckpoints (fst (run evs (s, w)))) = length (pendingCheckpoints s)
           \<and> (\<forall>ti' ts' cwd'. turn_start ti' ts' cwd' (run evs (s, w)) = (Inr (), run evs (s, w)))))"
proof (intro conjI impI allI)
  show "\<exists>s'. turn_start ti ts cwd (s, w) = (Inr (), (s', w))"
    by (simp add: turn_start_def Let_def)
next
  show "\<exists>v c'. capture_task cwd ident turn sid (s, w) = (Inr v, c')"
    by (rule capture_task_total)
next
  assume "k < length (pendingCheckpoints s)
        \<and> pendingCheckpoints s ! k = Pending cwd ident turn sid
        \<and> fst (createCheckpoint cwd ident turn sid w) = Inl e"
  then show "settle k (s, w) =
        (s\<lparr>checkpointingFailed := True,
            pendingCheckpoints := (pendingCheckpoints s)[k := Fulfilled None]\<rparr>,
         snd (createCheckpoint cwd ident turn sid w))"
    by (simp add: settle_failure)
next
  fix evs
  assume "checkpointingFailed s"
  then have "flag_kept (s, w) (run evs (s, w))" by (simp add: run_kept)
  then show "checkpointingFailed (fst (run evs (s, w)))"
    and "length (pendingCheckpoints (fst (run evs (s, w)))) = length (pendingCheckpoints s)"
    by (simp_all add: flag_kept_def)
next
  fix evs ti' ts' cwd'
  assume "checkpointingFailed s"
  then have "flag_kept (s, w) (run evs (s, w))" by (simp add: run_kept)
  then show "turn_start ti' ts' cwd' (run evs (s, w)) = (Inr (), run evs (s, w))"
    by (simp add: flag_kept_def turn_start_disabled)
qed


text \<open>
  The theorem at a capture that fails outside the repository, and at the
  \<open>turn_start\<close> after it.
\<close>

theorem capture_failure_contained_witness:
  "fst (createCheckpoint ''/elsewhere'' ''s1-turn-2-1700000001000'' 2 ''s1'' example_world) =
     Inl (ExecError ''git rev-parse --show-toplevel'')
   \<and> settle 0 (example_hook_pending, example_world) =
       (example_hook_pending\<lparr>checkpointingFailed := True, pendingCheckpoints := [Fulfilled None]\<rparr>,
        example_world)
   \<and> run [Settle 0, TurnStart 3 1700000002000 ''/repo''] (example_hook_pending, example_world) =
       (example_hook_pending\<lparr>checkpointingFailed := True, pendingCheckpoints := [Fulfilled None]\<rparr>,
        example_world)"
proof -
  let ?s1 = "example_hook_pending\<lparr>checkpointingFailed := True,
      pendingCheckpoints := [Fulfilled None]\<rparr>"
  have cc: "createCheckpoint ''/elsewhere'' ''s1-turn-2-1700000001000'' 2 ''s1'' example_world =
      (Inl (ExecError ''git rev-parse --show-toplevel''), example_world)"
    by (simp add: createCheckpoint_def getRepoRoot_def io_defs example_world_def)
  have pre: "0 < length (pendingCheckpoints example_hook_pending)
      \<and> pendingCheckpoints example_hook_pending ! 0 =
          Pending ''/elsewhere'' ''s1-turn-2-1700000001000'' 2 ''s1''
      \<and> fst (createCheckpoint ''/elsewhere'' ''s1-turn-2-1700000001000'' 2 ''s1'' example_world) =
          Inl (ExecError ''git rev-parse --show-toplevel'')"
    by (simp add: cc example_hook_pending_def)
  have st: "settle 0 (example_hook_pending, example_world) = (?s1, example_world)"
    using capture_failure_contained [of 0 0 "''/elsewhere''" example_hook_pending example_world
        "''s1-turn-2-1700000001000''" 2 "''s1''" 0 "ExecError ''git rev-parse --show-toplevel''",
        THEN conjunct2, THEN conjunct2, THEN conjunct1, THEN mp, OF pre]
    by (simp add: cc example_hook_pending_def)
  have fl: "checkpointingFailed ?s1" by simp
  have ts: "turn_start 3 1700000002000 ''/repo'' (run [] (?s1, example_world)) =
      (Inr (), run [] (?s1, example_world))"
    using capture_failure_contained [of 0 0 "''/elsewhere''" ?s1 example_world
        "''s1-turn-2-1700000001000''" 2 "''s1''" 0 "ExecError ''git rev-parse --show-toplevel''",
        THEN conjunct2, THEN conjunct2, THEN conjunct2, THEN mp, OF fl]
    by blast
  have "run [Settle 0, TurnStart 3 1700000002000 ''/repo''] (example_hook_pending, example_world) =
      snd (turn_start 3 1700000002000 ''/repo'' (run [] (?s1, example_world)))"
    by (simp add: run_def st)
  also have "\<dots> = (?s1, example_world)" unfolding ts by (simp add: run_def)
  finally show ?thesis using cc st by simp
qed

section \<open>The branch handler waits for the captures\<close>

lemma adds_return: "only_adds (io_return x)"
  by (simp add: only_adds_def io_return_def)

lemma adds_bind: "only_adds m \<Longrightarrow> (\<And>x. only_adds (f x)) \<Longrightarrow> only_adds (io_bind m f)"
  unfolding only_adds_def io_bind_def
proof (intro allI)
  fix c :: config
  assume m: "\<forall>c. pendingCheckpoints (fst (snd (m c))) = pendingCheckpoints (fst c)
          \<and> set (completedCheckpoints (fst c)) \<subseteq> set (completedCheckpoints (fst (snd (m c))))"
    and f: "\<And>x. \<forall>c. pendingCheckpoints (fst (snd (f x c))) = pendingCheckpoints (fst c)
          \<and> set (completedCheckpoints (fst c)) \<subseteq> set (completedCheckpoints (fst (snd (f x c))))"
  obtain r c1 where mc: "m c = (r, c1)" by (cases "m c")
  have c1: "pendingCheckpoints (fst c1) = pendingCheckpoints (fst c)
      \<and> set (completedCheckpoints (fst c)) \<subseteq> set (completedCheckpoints (fst c1))"
    using m [rule_format, of c] by (simp add: mc)
  show "pendingCheckpoints (fst (snd (case m c of (Inl e, w') \<Rightarrow> (Inl e, w') | (Inr a, w') \<Rightarrow> f a w')))
        = pendingCheckpoints (fst c)
      \<and> set (completedCheckpoints (fst c))
        \<subseteq> set (completedCheckpoints (fst (snd (case m c of (Inl e, w') \<Rightarrow> (Inl e, w') | (Inr a, w') \<Rightarrow> f a w'))))"
  proof (cases r)
    case (Inl e)
    then show ?thesis using c1 by (simp add: mc)
  next
    case (Inr a)
    then show ?thesis using c1 f [of a, rule_format, of c1] by (auto simp: mc)
  qed
qed

lemma adds_in_world: "only_adds (in_world m)"
  by (simp add: only_adds_def in_world_def split: prod.splits)

lemma adds_read: "only_adds (read_hook f)"
  by (simp add: only_adds_def read_hook_def split: prod.splits)

lemma adds_update:
  "(\<And>s. pendingCheckpoints (f s) = pendingCheckpoints s
        \<and> set (completedCheckpoints s) \<subseteq> set (completedCheckpoints (f s)))
   \<Longrightarrow> only_adds (update_hook f)"
  by (simp add: only_adds_def update_hook_def split: prod.splits)

lemma adds_if: "(b \<Longrightarrow> only_adds m) \<Longrightarrow> (\<not> b \<Longrightarrow> only_adds n) \<Longrightarrow> only_adds (if b then m else n)"
  by simp

lemma adds_case_option:
  "only_adds a \<Longrightarrow> (\<And>x. only_adds (f x)) \<Longrightarrow> only_adds (case v of None \<Rightarrow> a | Some x \<Rightarrow> f x)"
  by (cases v) simp_all

lemmas adds_intros = adds_return adds_bind adds_in_world adds_read adds_if adds_case_option

lemma adds_load_each: "only_adds (load_each cwd sid rs)"
proof (induction rs)
  case Nil
  then show ?case by (simp add: adds_return)
next
  case (Cons r rs)
  show ?case
    unfolding load_each.simps
    by (intro adds_intros adds_update Cons) auto
qed

lemma adds_load: "only_adds (loadCheckpointsForSession cwd sid False)"
  unfolding loadCheckpointsForSession_def
  by (intro adds_intros adds_load_each) simp_all

lemma io_bind_run: "m c = (Inr a, c1) \<Longrightarrow> io_bind m f c = f a c1"
  by (simp add: io_bind_def)

lemma io_catch_ok: "m c = (Inr a, c1) \<Longrightarrow> io_catch m h c = (Inr a, c1)"
  by (simp add: io_catch_def)

text \<open>What the promise of a capture does, by the outcome of \<open>createCheckpoint\<close>.\<close>

lemma capture_task_run:
  "\<exists>w2. capture_task cwd ident turn sid (s, w) =
     (case createCheckpoint cwd ident turn sid w of
        (Inl e, w1) \<Rightarrow> (Inr None, (s\<lparr>checkpointingFailed := True\<rparr>, w1))
      | (Inr d, w1) \<Rightarrow>
          (Inr (Some d), (s\<lparr>completedCheckpoints := completedCheckpoints s @ [d]\<rparr>, w2)))"
proof -
  obtain r w1 where cc: "createCheckpoint cwd ident turn sid w = (r, w1)"
    by (cases "createCheckpoint cwd ident turn sid w")
  show ?thesis
  proof (cases r)
    case (Inl e)
    then show ?thesis
      by (simp add: capture_task_def io_defs in_world_def update_hook_def cc)
  next
    case (Inr d)
    define s1 where "s1 = s\<lparr>completedCheckpoints := completedCheckpoints s @ [d]\<rparr>"
    define w1r where "w1r = w1\<lparr>random_reads := Suc (random_reads w1)\<rparr>"
    obtain w3 where pr: "io_catch (pruneCheckpoints cwd) (\<lambda>e. io_return ()) w1r = (Inr (), w3)"
      using catch_unit_total [of "pruneCheckpoints cwd" w1r] by (elim exE)
    have b1: "in_world (createCheckpoint cwd ident turn sid) (s, w) = (Inr d, (s, w1))"
      by (simp add: in_world_def cc Inr)
    have b2: "update_hook (\<lambda>s. s\<lparr>completedCheckpoints := completedCheckpoints s @ [d]\<rparr>) (s, w1) =
        (Inr (), (s1, w1))"
      by (simp add: update_hook_def s1_def)
    have b3: "in_world Math_random_lt_01 (s1, w1) = (Inr (random_lt_01 w1 (random_reads w1)), (s1, w1r))"
      by (simp add: in_world_def Math_random_lt_01_def w1r_def)
    have b4: "\<exists>w2. (if random_lt_01 w1 (random_reads w1)
                  then in_world (io_catch (pruneCheckpoints cwd) (\<lambda>e. io_return ()))
                  else io_return ()) (s1, w1r) = (Inr (), (s1, w2))"
    proof (cases "random_lt_01 w1 (random_reads w1)")
      case True
      then show ?thesis by (simp add: in_world_def pr)
    next
      case False
      then show ?thesis by (simp add: io_return_def)
    qed
    then obtain w2 where b4': "(if random_lt_01 w1 (random_reads w1)
                  then in_world (io_catch (pruneCheckpoints cwd) (\<lambda>e. io_return ()))
                  else io_return ()) (s1, w1r) = (Inr (), (s1, w2))"
      by (elim exE)
    have r1: "io_bind (in_world (createCheckpoint cwd ident turn sid)) f (s, w) = f d (s, w1)"
      for f :: "CheckpointData \<Rightarrow> (config, CheckpointData option) io"
      by (simp add: io_bind_def b1)
    have r2: "io_bind (update_hook (\<lambda>s. s\<lparr>completedCheckpoints := completedCheckpoints s @ [d]\<rparr>))
        f (s, w1) = f () (s1, w1)"
      for f :: "unit \<Rightarrow> (config, CheckpointData option) io"
      by (simp add: io_bind_def b2)
    have r3: "io_bind (in_world Math_random_lt_01) f (s1, w1) =
        f (random_lt_01 w1 (random_reads w1)) (s1, w1r)"
      for f :: "bool \<Rightarrow> (config, CheckpointData option) io"
      by (simp add: io_bind_def b3)
    have r4: "io_bind (if random_lt_01 w1 (random_reads w1)
                  then in_world (io_catch (pruneCheckpoints cwd) (\<lambda>e. io_return ()))
                  else io_return ()) f (s1, w1r) = f () (s1, w2)"
      for f :: "unit \<Rightarrow> (config, CheckpointData option) io"
      by (simp only: io_bind_def b4' prod.case sum.case)
    have "io_bind (in_world (createCheckpoint cwd ident turn sid)) (\<lambda>data.
        io_bind (update_hook (\<lambda>s. s\<lparr>completedCheckpoints := completedCheckpoints s @ [data]\<rparr>)) (\<lambda>u.
        io_bind (in_world Math_random_lt_01) (\<lambda>r.
        io_bind (if r then in_world (io_catch (pruneCheckpoints cwd) (\<lambda>e. io_return ()))
                 else io_return ()) (\<lambda>u.
        io_return (Some data))))) (s, w) = (Inr (Some d), (s1, w2))"
      unfolding r1 r2 r3 r4 by (simp only: io_return_def)
    then have "capture_task cwd ident turn sid (s, w) = (Inr (Some d), (s1, w2))"
      unfolding capture_task_def by (rule io_catch_ok)
    then show ?thesis by (simp add: cc Inr s1_def)
  qed
qed


lemma delivered_mono: "set cs \<subseteq> set cs' \<Longrightarrow> delivered cs p \<Longrightarrow> delivered cs' p"
  by (cases "(cs, p)" rule: delivered.cases) auto

lemma delivered_settled: "delivered cs p \<Longrightarrow> settled p"
  by (cases "(cs, p)" rule: delivered.cases) auto

text \<open>One promise settles: what changes.\<close>

lemma settle_step:
  "length (pendingCheckpoints (fst (settle k c))) = length (pendingCheckpoints (fst c))
   \<and> set (completedCheckpoints (fst c)) \<subseteq> set (completedCheckpoints (fst (settle k c)))
   \<and> (\<forall>i. i \<noteq> k \<longrightarrow> pendingCheckpoints (fst (settle k c)) ! i = pendingCheckpoints (fst c) ! i)
   \<and> (settled (pendingCheckpoints (fst c) ! k) \<longrightarrow>
        pendingCheckpoints (fst (settle k c)) ! k = pendingCheckpoints (fst c) ! k)
   \<and> (k < length (pendingCheckpoints (fst c)) \<and> \<not> settled (pendingCheckpoints (fst c) ! k) \<longrightarrow>
        delivered (completedCheckpoints (fst (settle k c))) (pendingCheckpoints (fst (settle k c)) ! k))"
proof -
  obtain s w where sw: "c = (s, w)" by (cases c)
  show ?thesis
  proof (cases "k < length (pendingCheckpoints s)")
    case False
    then show ?thesis by (simp add: settle_def sw)
  next
    case True
    show ?thesis
    proof (cases "pendingCheckpoints s ! k")
      case (Pending cwd ident turn sid)
      obtain w2 where ct: "capture_task cwd ident turn sid (s, w) =
         (case createCheckpoint cwd ident turn sid w of
            (Inl e, w1) \<Rightarrow> (Inr None, (s\<lparr>checkpointingFailed := True\<rparr>, w1))
          | (Inr d, w1) \<Rightarrow>
              (Inr (Some d), (s\<lparr>completedCheckpoints := completedCheckpoints s @ [d]\<rparr>, w2)))"
        using capture_task_run [of cwd ident turn sid s w] by (elim exE)
      obtain r w1 where cc: "createCheckpoint cwd ident turn sid w = (r, w1)"
        by (cases "createCheckpoint cwd ident turn sid w")
      show ?thesis
      proof (cases r)
        case (Inl e)
        then show ?thesis using True Pending by (simp add: settle_def sw ct cc)
      next
        case (Inr d)
        then show ?thesis using True Pending by (auto simp: settle_def sw ct cc)
      qed
    next
      case (Fulfilled v)
      then show ?thesis using True by (simp add: settle_def sw)
    next
      case (Rejected e)
      then show ?thesis using True by (simp add: settle_def sw)
    qed
  qed
qed

text \<open>The promises \<open>0\<close> to \<open>m - 1\<close> settle, in this order.\<close>

lemma fold_settle_upto:
  "m \<le> length (pendingCheckpoints (fst c)) \<Longrightarrow>
   length (pendingCheckpoints (fst (fold settle [0 ..< m] c))) = length (pendingCheckpoints (fst c))
   \<and> set (completedCheckpoints (fst c)) \<subseteq> set (completedCheckpoints (fst (fold settle [0 ..< m] c)))
   \<and> (\<forall>i. m \<le> i \<longrightarrow>
         pendingCheckpoints (fst (fold settle [0 ..< m] c)) ! i = pendingCheckpoints (fst c) ! i)
   \<and> (\<forall>i < m. if settled (pendingCheckpoints (fst c) ! i)
          then pendingCheckpoints (fst (fold settle [0 ..< m] c)) ! i = pendingCheckpoints (fst c) ! i
          else delivered (completedCheckpoints (fst (fold settle [0 ..< m] c)))
                 (pendingCheckpoints (fst (fold settle [0 ..< m] c)) ! i))"
proof (induction m)
  case 0
  then show ?case by simp
next
  case (Suc m)
  define c1 where "c1 = fold settle [0 ..< m] c"
  have f: "fold settle [0 ..< Suc m] c = settle m c1" by (simp add: c1_def)
  have ih: "length (pendingCheckpoints (fst c1)) = length (pendingCheckpoints (fst c))"
    "set (completedCheckpoints (fst c)) \<subseteq> set (completedCheckpoints (fst c1))"
    "\<And>i. m \<le> i \<Longrightarrow> pendingCheckpoints (fst c1) ! i = pendingCheckpoints (fst c) ! i"
    "\<And>i. i < m \<Longrightarrow> if settled (pendingCheckpoints (fst c) ! i)
          then pendingCheckpoints (fst c1) ! i = pendingCheckpoints (fst c) ! i
          else delivered (completedCheckpoints (fst c1)) (pendingCheckpoints (fst c1) ! i)"
    using Suc unfolding c1_def by simp_all
  note st = settle_step [of m c1]
  have len: "length (pendingCheckpoints (fst (settle m c1))) = length (pendingCheckpoints (fst c))"
    using st ih(1) by simp
  have sub1: "set (completedCheckpoints (fst c1)) \<subseteq> set (completedCheckpoints (fst (settle m c1)))"
    using st by simp
  have sub: "set (completedCheckpoints (fst c)) \<subseteq> set (completedCheckpoints (fst (settle m c1)))"
    using sub1 ih(2) by blast
  have other: "pendingCheckpoints (fst (settle m c1)) ! i = pendingCheckpoints (fst c1) ! i"
    if "i \<noteq> m" for i
    using st that by simp
  have above: "pendingCheckpoints (fst (settle m c1)) ! i = pendingCheckpoints (fst c) ! i"
    if "Suc m \<le> i" for i
    using that other [of i] ih(3) [of i] by simp
  have below: "if settled (pendingCheckpoints (fst c) ! i)
          then pendingCheckpoints (fst (settle m c1)) ! i = pendingCheckpoints (fst c) ! i
          else delivered (completedCheckpoints (fst (settle m c1)))
                 (pendingCheckpoints (fst (settle m c1)) ! i)"
    if "i < Suc m" for i
  proof (cases "i = m")
    case True
    have same: "pendingCheckpoints (fst c1) ! m = pendingCheckpoints (fst c) ! m"
      using ih(3) [of m] by simp
    have "m < length (pendingCheckpoints (fst c1))" using Suc.prems ih(1) by simp
    then show ?thesis using st same True by simp
  next
    case False
    then have "i < m" using that by simp
    then show ?thesis
      using ih(4) [of i] other [OF False] delivered_mono [OF sub1] by (simp split: if_splits)
  qed
  show ?case unfolding f using len sub above below by blast
qed

text \<open>After \<open>await Promise.all(pendingCheckpoints)\<close>.\<close>

lemma await_all_pending_run:
  "length (pendingCheckpoints (fst (snd (await_all_pending c)))) = length (pendingCheckpoints (fst c))
   \<and> set (completedCheckpoints (fst c)) \<subseteq> set (completedCheckpoints (fst (snd (await_all_pending c))))
   \<and> (\<forall>i < length (pendingCheckpoints (fst c)).
         if settled (pendingCheckpoints (fst c) ! i)
         then pendingCheckpoints (fst (snd (await_all_pending c))) ! i = pendingCheckpoints (fst c) ! i
         else delivered (completedCheckpoints (fst (snd (await_all_pending c))))
                (pendingCheckpoints (fst (snd (await_all_pending c))) ! i))"
proof -
  have "snd (await_all_pending c) = fold settle [0 ..< length (pendingCheckpoints (fst c))] c"
    by (simp add: await_all_pending_def Let_def split: option.splits)
  then show ?thesis
    using fold_settle_upto [of "length (pendingCheckpoints (fst c))" c] by simp
qed

lemma rejection_None: "(\<forall>p \<in> set ps. \<forall>e. p \<noteq> Rejected e) \<Longrightarrow> rejection ps = None"
  by (induction ps rule: rejection.induct) simp_all

lemma await_all_pending_ok:
  assumes "\<forall>p \<in> set (pendingCheckpoints (fst c)). \<forall>e. p \<noteq> Rejected e"
  shows "fst (await_all_pending c) = Inr ()"
proof -
  define c' where "c' = snd (await_all_pending c)"
  note r = await_all_pending_run [of c, folded c'_def]
  have "\<forall>e. p \<noteq> Rejected e" if p: "p \<in> set (pendingCheckpoints (fst c'))" for p
  proof -
    obtain i where i: "i < length (pendingCheckpoints (fst c))" "p = pendingCheckpoints (fst c') ! i"
      using p r by (auto simp: in_set_conv_nth)
    show ?thesis
    proof (cases "settled (pendingCheckpoints (fst c) ! i)")
      case True
      then have "p = pendingCheckpoints (fst c) ! i" using r i by simp
      then show ?thesis using assms i(1) by (auto simp: in_set_conv_nth)
    next
      case False
      then have "delivered (completedCheckpoints (fst c')) p" using r i by simp
      then show ?thesis by (cases "(completedCheckpoints (fst c'), p)" rule: delivered.cases) auto
    qed
  qed
  then have "rejection (pendingCheckpoints (fst c')) = None" by (intro rejection_None) blast
  then show ?thesis
    by (simp add: await_all_pending_def Let_def c'_def split: option.splits)
qed

lemma branch_prepare_run:
  assumes "branch_prepare entries cwd c = (Inr u, c')"
  shows "length (pendingCheckpoints (fst c')) = length (pendingCheckpoints (fst c))
   \<and> (\<forall>i < length (pendingCheckpoints (fst c)).
         settled (pendingCheckpoints (fst c') ! i)
         \<and> (\<not> settled (pendingCheckpoints (fst c) ! i) \<longrightarrow>
              delivered (completedCheckpoints (fst c')) (pendingCheckpoints (fst c') ! i)))"
proof -
  obtain r c1 where aw: "await_all_pending c = (r, c1)" by (cases "await_all_pending c")
  note a = await_all_pending_run [of c, unfolded aw snd_conv]
  define rest where "rest = io_bind (read_hook currentSessionId) (\<lambda>cur.
       (case find (\<lambda>e. e_type e = ''session'') entries of
          None \<Rightarrow> io_return ()
        | Some header \<Rightarrow>
            if e_id header \<noteq> [] \<and> e_id header \<noteq> cur
            then loadCheckpointsForSession cwd (e_id header) False
            else io_return ()))"
  have "only_adds rest"
    unfolding rest_def by (intro adds_intros adds_load)
  then have "pendingCheckpoints (fst (snd (rest c1))) = pendingCheckpoints (fst c1)
      \<and> set (completedCheckpoints (fst c1)) \<subseteq> set (completedCheckpoints (fst (snd (rest c1))))"
    unfolding only_adds_def by (rule spec)
  then have ad: "pendingCheckpoints (fst (snd (rest c1))) = pendingCheckpoints (fst c1)"
    "set (completedCheckpoints (fst c1)) \<subseteq> set (completedCheckpoints (fst (snd (rest c1))))"
    by simp_all
  have "branch_prepare entries cwd c = io_bind await_all_pending (\<lambda>u. rest) c"
    by (simp add: branch_prepare_def rest_def)
  then have e: "io_bind await_all_pending (\<lambda>u. rest) c = (Inr u, c')"
    using assms by simp
  have "c' = snd (rest c1)"
  proof (cases r)
    case (Inl x)
    then show ?thesis using e by (simp add: io_bind_def aw)
  next
    case (Inr x)
    then have "rest c1 = (Inr u, c')" using e by (simp add: io_bind_def aw)
    then show ?thesis by simp
  qed
  then have p: "pendingCheckpoints (fst c') = pendingCheckpoints (fst c1)"
    and q: "set (completedCheckpoints (fst c1)) \<subseteq> set (completedCheckpoints (fst c'))"
    using ad by simp_all
  have "settled (pendingCheckpoints (fst c1) ! i)
      \<and> (\<not> settled (pendingCheckpoints (fst c) ! i) \<longrightarrow>
            delivered (completedCheckpoints (fst c')) (pendingCheckpoints (fst c1) ! i))"
    if "i < length (pendingCheckpoints (fst c))" for i
    using a that delivered_mono [OF q] delivered_settled
    by (cases "settled (pendingCheckpoints (fst c) ! i)") auto
  then show ?thesis using a p by simp
qed

text \<open>
  Claim C7. With git available, the handler of \<open>branch\<close> is \<open>branch_prepare\<close> (lines
  430 to 450, which begin with \<open>await Promise.all(pendingCheckpoints)\<close>) followed by the
  selection \<open>branch_decide\<close> on the state that \<open>branch_prepare\<close> leaves; there is no
  selection when \<open>branch_prepare\<close> throws or git is not available. In the state on
  which the selection is made, every promise that was in \<open>pendingCheckpoints\<close> when the
  handler started has settled, and each capture that was still in flight then is
  fulfilled, its record (if it made one) among \<open>completedCheckpoints\<close>. The wait itself
  does not throw unless a promise of the array was rejected already.
\<close>

theorem branch_awaits_captures:
  "branch entries t cwd ui (s, w) =
     (if \<not> gitAvailable s then (Inr Undefined, (s, w))
      else (case branch_prepare entries cwd (s, w) of
              (Inl e, c') \<Rightarrow> (Inl e, c')
            | (Inr u, c') \<Rightarrow> branch_decide entries t cwd ui c'))
   \<and> (\<forall>c'. branch_prepare entries cwd (s, w) = (Inr (), c') \<longrightarrow>
        length (pendingCheckpoints (fst c')) = length (pendingCheckpoints s)
        \<and> (\<forall>k < length (pendingCheckpoints s).
             settled (pendingCheckpoints (fst c') ! k)
             \<and> (\<not> settled (pendingCheckpoints s ! k) \<longrightarrow>
                  delivered (completedCheckpoints (fst c')) (pendingCheckpoints (fst c') ! k))))
   \<and> ((\<forall>p \<in> set (pendingCheckpoints s). \<forall>e. p \<noteq> Rejected e) \<longrightarrow>
        fst (await_all_pending (s, w)) = Inr ())"
proof -
  have a: "branch entries t cwd ui (s, w) =
     (if \<not> gitAvailable s then (Inr Undefined, (s, w))
      else (case branch_prepare entries cwd (s, w) of
              (Inl e, c') \<Rightarrow> (Inl e, c')
            | (Inr u, c') \<Rightarrow> branch_decide entries t cwd ui c'))"
    by (simp add: branch_def io_bind_def read_hook_def io_return_def)
  have b: "\<forall>c'. branch_prepare entries cwd (s, w) = (Inr (), c') \<longrightarrow>
        length (pendingCheckpoints (fst c')) = length (pendingCheckpoints s)
        \<and> (\<forall>k < length (pendingCheckpoints s).
             settled (pendingCheckpoints (fst c') ! k)
             \<and> (\<not> settled (pendingCheckpoints s ! k) \<longrightarrow>
                  delivered (completedCheckpoints (fst c')) (pendingCheckpoints (fst c') ! k)))"
  proof (rule allI, rule impI)
    fix c'
    assume "branch_prepare entries cwd (s, w) = (Inr (), c')"
    then show "length (pendingCheckpoints (fst c')) = length (pendingCheckpoints s)
        \<and> (\<forall>k < length (pendingCheckpoints s).
             settled (pendingCheckpoints (fst c') ! k)
             \<and> (\<not> settled (pendingCheckpoints s ! k) \<longrightarrow>
                  delivered (completedCheckpoints (fst c')) (pendingCheckpoints (fst c') ! k)))"
      using branch_prepare_run [of entries cwd "(s, w)" "()" c'] by simp
  qed
  have c: "(\<forall>p \<in> set (pendingCheckpoints s). \<forall>e. p \<noteq> Rejected e) \<longrightarrow>
        fst (await_all_pending (s, w)) = Inr ()"
    using await_all_pending_ok [of "(s, w)"] by simp
  show ?thesis by (intro conjI a b c)
qed


text \<open>The theorem in the example session with one capture in flight.\<close>

theorem branch_awaits_captures_witness:
  "fst (branch_prepare [] ''/repo'' (example_hook_in_flight, example_world)) = Inr ()
   \<and> pendingCheckpoints (fst (snd (branch_prepare [] ''/repo'' (example_hook_in_flight, example_world)))) =
       [Fulfilled (Some \<lparr>ckpt_id = ''s1-turn-2-1700000001000'', turnIndex = 2, sessionId = ''s1'',
                          headSha = sha_of 1, indexTreeSha = sha_of 2, worktreeTreeSha = sha_of 3,
                          timestamp = Num 1700000000000\<rparr>)]
   \<and> \<lparr>ckpt_id = ''s1-turn-2-1700000001000'', turnIndex = 2, sessionId = ''s1'',
        headSha = sha_of 1, indexTreeSha = sha_of 2, worktreeTreeSha = sha_of 3,
        timestamp = Num 1700000000000\<rparr>
       \<in> set (completedCheckpoints
               (fst (snd (branch_prepare [] ''/repo'' (example_hook_in_flight, example_world)))))"
proof -
  let ?c = "(example_hook_in_flight, example_world)"
  let ?d = "\<lparr>ckpt_id = ''s1-turn-2-1700000001000'', turnIndex = 2, sessionId = ''s1'',
        headSha = sha_of 1, indexTreeSha = sha_of 2, worktreeTreeSha = sha_of 3,
        timestamp = Num 1700000000000\<rparr>"
  define c' where "c' = snd (await_all_pending ?c)"
  note t = branch_awaits_captures [of "[]" 0 "''/repo''" "\<lambda>opts. None" example_hook_in_flight
      example_world]
  have pend: "pendingCheckpoints example_hook_in_flight =
      [Pending ''/repo'' ''s1-turn-2-1700000001000'' 2 ''s1'']"
    by (simp add: example_hook_in_flight_def)
  have "\<forall>p \<in> set (pendingCheckpoints example_hook_in_flight). \<forall>e. p \<noteq> Rejected e"
    by (simp add: pend)
  then have ok: "fst (await_all_pending ?c) = Inr ()"
    by (rule t [THEN conjunct2, THEN conjunct2, THEN mp])
  then have aw: "await_all_pending ?c = (Inr (), c')"
    by (simp add: c'_def prod_eq_iff)
  have bp: "branch_prepare [] ''/repo'' ?c = (Inr (), c')"
    by (cases c') (simp add: branch_prepare_def io_bind_def aw read_hook_def io_return_def)
  have "length (pendingCheckpoints (fst c')) = length (pendingCheckpoints example_hook_in_flight)
        \<and> (\<forall>k < length (pendingCheckpoints example_hook_in_flight).
             settled (pendingCheckpoints (fst c') ! k)
             \<and> (\<not> settled (pendingCheckpoints example_hook_in_flight ! k) \<longrightarrow>
                  delivered (completedCheckpoints (fst c')) (pendingCheckpoints (fst c') ! k)))"
    using t [THEN conjunct2, THEN conjunct1, THEN spec, of c'] bp by (rule mp)
  then have del: "delivered (completedCheckpoints (fst c')) (pendingCheckpoints (fst c') ! 0)"
    by (simp add: pend)
  have plain: "plain_refname (REF_BASE @ ''/'' @ ''s1-turn-2-1700000001000'')"
    by (simp add: plain_refname_def plain_char_def REF_BASE_def)
  obtain w1 where cc: "createCheckpoint ''/repo'' ''s1-turn-2-1700000001000'' 2 ''s1'' example_world =
      (Inr ?d, w1)"
    using example_capture [OF plain, of 2 "''s1''"]
    by (cases "createCheckpoint ''/repo'' ''s1-turn-2-1700000001000'' 2 ''s1'' example_world") simp
  obtain w2 where ct: "capture_task ''/repo'' ''s1-turn-2-1700000001000'' 2 ''s1'' ?c =
      (Inr (Some ?d),
       (example_hook_in_flight\<lparr>completedCheckpoints :=
          completedCheckpoints example_hook_in_flight @ [?d]\<rparr>, w2))"
    using capture_task_run [of "''/repo''" "''s1-turn-2-1700000001000''" 2 "''s1''"
        example_hook_in_flight example_world]
    unfolding cc by auto
  have "c' = settle 0 ?c"
    by (simp add: c'_def await_all_pending_def Let_def pend split: option.splits)
  then have p': "pendingCheckpoints (fst c') = [Fulfilled (Some ?d)]"
    by (simp add: settle_def pend ct)
  then have "?d \<in> set (completedCheckpoints (fst c'))" using del by simp
  then show ?thesis using p' by (simp add: bp)
qed

end
